(* ===== verification/GoLib.thy ===== *)
theory GoLib
  imports Prelude
begin

text \<open>
  The parts of Go's standard library that the program uses, as functions on byte strings:
  \<open>strings\<close> (Split, Join, TrimSpace, ToLower, EqualFold, Index, Contains), \<open>strconv\<close> (Itoa, Atoi),
  the \<open>fmt\<close> verbs \<open>%d\<close>, \<open>%02d\<close> and \<open>%08d\<close>, \<open>net/url\<close> ParseQuery, \<open>encoding/binary\<close>
  BigEndian and \<open>time\<close> Sub. A Go string is its list of bytes, a \<open>char\<close> each. Case folding and
  white space are those of ASCII: the program applies them to protocol tokens and numbers only.
\<close>

section \<open>Package strings\<close>

definition is_space :: "char \<Rightarrow> bool" where
  "is_space c \<longleftrightarrow> c \<in> {CHR 0x20, CHR 0x09, CHR 0x0A, CHR 0x0B, CHR 0x0C, CHR 0x0D}"

definition trim_space :: "string \<Rightarrow> string" where
  "trim_space s = rev (dropWhile is_space (rev (dropWhile is_space s)))"

definition lower_char :: "char \<Rightarrow> char" where
  "lower_char c = (let n = of_char c :: nat in if 65 \<le> n \<and> n \<le> 90 then char_of (n + 32) else c)"

definition to_lower :: "string \<Rightarrow> string" where
  "to_lower s = map lower_char s"

definition equal_fold :: "string \<Rightarrow> string \<Rightarrow> bool" where
  "equal_fold s t \<longleftrightarrow> to_lower s = to_lower t"

text \<open>\<open>strings.Split(s, sep)\<close> for a one-byte separator, and for any nonempty separator.\<close>

fun split_char :: "char \<Rightarrow> string \<Rightarrow> string list" where
  "split_char c [] = [[]]"
| "split_char c (x # xs) =
     (if x = c then [] # split_char c xs
      else case split_char c xs of [] \<Rightarrow> [[x]] | w # ws \<Rightarrow> (x # w) # ws)"

fun split_go :: "string \<Rightarrow> string \<Rightarrow> string \<Rightarrow> string list" where
  "split_go sep acc [] = [rev acc]"
| "split_go sep acc (c # cs) =
     (if sep \<noteq> [] \<and> prefix sep (c # cs)
      then rev acc # split_go sep [] (drop (length sep - 1) cs)
      else split_go sep (c # acc) cs)"

definition split_str :: "string \<Rightarrow> string \<Rightarrow> string list" where
  "split_str sep s = split_go sep [] s"

fun join :: "string \<Rightarrow> string list \<Rightarrow> string" where
  "join sep [] = []"
| "join sep [w] = w"
| "join sep (w # ws) = w @ sep @ join sep ws"

definition index_char :: "char \<Rightarrow> string \<Rightarrow> int" where
  "index_char c s = (if c \<in> set s then int (length (takeWhile (\<lambda>x. x \<noteq> c) s)) else -1)"

fun contains_str :: "string \<Rightarrow> string \<Rightarrow> bool" where
  "contains_str sub [] = (sub = [])"
| "contains_str sub (c # cs) = (prefix sub (c # cs) \<or> contains_str sub cs)"

lemma contains_prefix: "contains_str b (b @ c)"
  by (cases "b @ c") (simp_all, metis prefixI)

lemma contains_append: "contains_str b c \<Longrightarrow> contains_str b (a @ c)"
  by (induction a) simp_all

lemma contains_middle: "contains_str b (a @ b @ c)"
  by (rule contains_append [OF contains_prefix])

lemma split_char_nonempty [simp]: "split_char c s \<noteq> []"
  by (induction s) (auto split: list.splits)

lemma split_char_no_sep: "c \<notin> set s \<Longrightarrow> split_char c s = [s]"
  by (induction s) auto

lemma split_char_append:
  "c \<notin> set w \<Longrightarrow> split_char c (w @ c # rest) = w # split_char c rest"
  by (induction w) auto

lemma split_char_parts: "w \<in> set (split_char c s) \<Longrightarrow> c \<notin> set w \<and> set w \<subseteq> set s"
proof (induction s arbitrary: w)
  case (Cons x xs)
  show ?case
  proof (cases "split_char c xs")
    case (Cons v vs)
    with Cons.prems Cons.IH [of v] Cons.IH [of w] show ?thesis by (auto split: if_splits)
  qed simp
qed simp

lemma split_join:
  assumes "ws \<noteq> []" "\<forall>w\<in>set ws. c \<notin> set w"
  shows "split_char c (join [c] ws) = ws"
  using assms
proof (induction "[c]" ws rule: join.induct)
  case (3 w v vs)
  then show ?case by (simp add: split_char_append)
qed (auto simp: split_char_no_sep)

lemma set_join: "set (join sep ws) \<subseteq> set sep \<union> \<Union> (set ` set ws)"
  by (induction sep ws rule: join.induct) auto

lemma join_eq_Nil: "join [c] ws = [] \<longleftrightarrow> ws = [] \<or> ws = [[]]"
  by (induction "[c]" ws rule: join.induct) auto

lemma to_lower_eq_Nil [simp]: "to_lower s = [] \<longleftrightarrow> s = []"
  by (simp add: to_lower_def)

lemma lower_char_idem [simp]: "lower_char (lower_char c) = lower_char c"
proof -
  have "of_char (char_of (of_char c + 32 :: nat) :: char) = (of_char c + 32 :: nat)"
    if "of_char c \<le> (90 :: nat)"
    using that by simp
  then show ?thesis by (auto simp: lower_char_def Let_def)
qed

lemma to_lower_idem [simp]: "to_lower (to_lower s) = to_lower s"
  by (simp add: to_lower_def)

lemma equal_fold_refl [simp]: "equal_fold s s"
  by (simp add: equal_fold_def)

lemma equal_fold_to_lower [simp]: "equal_fold s (to_lower s)" "equal_fold (to_lower s) s"
  by (simp_all add: equal_fold_def)

lemma equal_fold_sym: "equal_fold s t \<Longrightarrow> equal_fold t s"
  by (simp add: equal_fold_def)

lemma equal_fold_trans: "equal_fold s t \<Longrightarrow> equal_fold t u \<Longrightarrow> equal_fold s u"
  by (simp add: equal_fold_def)

lemma dropWhile_all_not: "\<forall>c\<in>set s. \<not> P c \<Longrightarrow> dropWhile P s = s"
  by (cases s) auto

lemma trim_space_id: "\<forall>c\<in>set s. \<not> is_space c \<Longrightarrow> trim_space s = s"
  by (simp add: trim_space_def dropWhile_all_not)

lemma trim_space_ends: "\<not> is_space (hd s) \<Longrightarrow> \<not> is_space (last s) \<Longrightarrow> trim_space s = s"
  by (cases s) (simp_all add: trim_space_def hd_rev [symmetric] dropWhile_eq_self_iff)

lemma set_trim_space: "set (trim_space s) \<subseteq> set s"
proof
  fix x assume "x \<in> set (trim_space s)"
  then have "x \<in> set (dropWhile is_space (rev (dropWhile is_space s)))"
    by (simp add: trim_space_def)
  then have "x \<in> set (rev (dropWhile is_space s))"
    by (auto dest: set_dropWhileD simp del: set_rev)
  then show "x \<in> set s" by (auto dest: set_dropWhileD)
qed

section \<open>Package strconv\<close>

definition is_digit :: "char \<Rightarrow> bool" where
  "is_digit c \<longleftrightarrow> 48 \<le> (of_char c :: nat) \<and> (of_char c :: nat) \<le> 57"

definition digit_char :: "nat \<Rightarrow> char" where
  "digit_char d = char_of (48 + d)"

fun nat_str :: "nat \<Rightarrow> string" where
  "nat_str n = (if n < 10 then [digit_char n] else nat_str (n div 10) @ [digit_char (n mod 10)])"

declare nat_str.simps [simp del]

definition itoa :: "int \<Rightarrow> string" where
  "itoa i = (if i < 0 then CHR ''-'' # nat_str (nat (- i)) else nat_str (nat i))"

fun digits_val :: "nat \<Rightarrow> string \<Rightarrow> nat option" where
  "digits_val acc [] = Some acc"
| "digits_val acc (c # cs) =
     (if is_digit c then digits_val (10 * acc + (of_char c - 48)) cs else None)"

text \<open>\<open>Atoi\<close> as a value and whether the error was nil: 0 after a syntax error, the nearest
  64-bit bound after a range error.\<close>

definition atoi_val :: "string \<Rightarrow> int \<times> bool" where
  "atoi_val s =
     (let neg = (s \<noteq> [] \<and> hd s = CHR ''-'');
          digits = (if s \<noteq> [] \<and> (hd s = CHR ''-'' \<or> hd s = CHR ''+'') then tl s else s)
      in if digits = [] then (0, False)
         else case digits_val 0 digits of
                None \<Rightarrow> (0, False)
              | Some n \<Rightarrow>
                  let v = (if neg then - int n else int n)
                  in if v < - (2 ^ 63) then (- (2 ^ 63), False)
                     else if v \<ge> 2 ^ 63 then (2 ^ 63 - 1, False)
                     else (v, True))"

definition atoi :: "string \<Rightarrow> int option" where
  "atoi s = (case atoi_val s of (v, ok) \<Rightarrow> if ok then Some v else None)"

lemma digit_chars [go_defs]:
  "digit_char 0 = CHR ''0''" "digit_char 1 = CHR ''1''" "digit_char 2 = CHR ''2''"
  "digit_char 3 = CHR ''3''" "digit_char 4 = CHR ''4''" "digit_char 5 = CHR ''5''"
  "digit_char 6 = CHR ''6''" "digit_char 7 = CHR ''7''" "digit_char 8 = CHR ''8''"
  "digit_char 9 = CHR ''9''"
  by code_simp+

lemma of_char_digit_char: "d < 10 \<Longrightarrow> (of_char (digit_char d) :: nat) = 48 + d"
  by (simp add: digit_char_def)

lemma is_digit_digit_char: "d < 10 \<Longrightarrow> is_digit (digit_char d)"
  by (simp add: is_digit_def of_char_digit_char)

lemma nat_str_digits: "\<forall>c\<in>set (nat_str n). is_digit c"
proof (induction n rule: nat_str.induct)
  case (1 n)
  then show ?case
    by (subst nat_str.simps) (auto simp: is_digit_digit_char)
qed

lemma nat_str_nonempty [simp]: "nat_str n \<noteq> []"
  by (subst nat_str.simps) simp

lemma digits_val_append:
  "digits_val acc (xs @ ys) =
     (case digits_val acc xs of None \<Rightarrow> None | Some n \<Rightarrow> digits_val n ys)"
  by (induction acc xs rule: digits_val.induct) auto

lemma digits_val_nat_str: "digits_val 0 (nat_str n) = Some n"
proof (induction n rule: nat_str.induct)
  case (1 n)
  show ?case
  proof (cases "n < 10")
    case True
    then show ?thesis
      by (subst nat_str.simps) (simp add: is_digit_digit_char of_char_digit_char)
  next
    case False
    with 1 show ?thesis
      by (subst nat_str.simps)
        (simp add: digits_val_append is_digit_digit_char of_char_digit_char)
  qed
qed

lemma is_digit_not: "is_digit c \<Longrightarrow> c \<noteq> CHR ''-'' \<and> c \<noteq> CHR ''+'' \<and> \<not> is_space c
    \<and> c \<noteq> CHR '','' \<and> c \<noteq> CHR ''%'' \<and> c \<noteq> CHR ''&'' \<and> c \<noteq> CHR '';'' \<and> c \<noteq> CHR ''=''"
  by (auto simp: is_digit_def is_space_def)

lemma set_itoa: "c \<in> set (itoa i) \<Longrightarrow> is_digit c \<or> c = CHR ''-''"
  using nat_str_digits by (auto simp: itoa_def split: if_splits)

lemma itoa_nonempty [simp]: "itoa i \<noteq> []"
  by (simp add: itoa_def)

lemma hd_nat_str: "is_digit (hd (nat_str n))"
  using nat_str_digits [of n] by (cases "nat_str n") auto

lemma atoi_itoa: "- (2 ^ 63) \<le> i \<Longrightarrow> i < 2 ^ 63 \<Longrightarrow> atoi (itoa i) = Some i"
  using is_digit_not [OF hd_nat_str [of "nat i"]]
  by (auto simp: atoi_def atoi_val_def itoa_def digits_val_nat_str)

lemma itoa_inj: "itoa i = itoa j \<Longrightarrow> i = j"
proof -
  assume eq: "itoa i = itoa j"
  have neg: "i < 0 \<longleftrightarrow> hd (itoa i) = CHR ''-''" for i
    using is_digit_not [OF hd_nat_str [of "nat i"]] by (simp add: itoa_def)
  have val: "digits_val 0 (if i < 0 then tl (itoa i) else itoa i) = Some (nat \<bar>i\<bar>)" for i
    by (simp add: itoa_def digits_val_nat_str)
  from eq neg [of i] neg [of j] have "i < 0 \<longleftrightarrow> j < 0" by simp
  with eq val [of i] val [of j] show ?thesis by (auto split: if_splits)
qed

lemma itoa_clean: "c \<in> {CHR '','', CHR ''%'', CHR ''&'', CHR '';'', CHR ''='', CHR ''+''} \<Longrightarrow> c \<notin> set (itoa i)"
  using set_itoa [of c i] is_digit_not [of c] by auto

lemma trim_itoa [simp]: "trim_space (itoa i) = itoa i"
proof (rule trim_space_id, rule ballI)
  fix c assume "c \<in> set (itoa i)"
  then show "\<not> is_space c"
    using set_itoa [of c i] is_digit_not [of c] by (auto simp: is_space_def)
qed

lemma atoi_val_range: "- (2 ^ 63) \<le> fst (atoi_val s) \<and> fst (atoi_val s) < 2 ^ 63"
  by (auto simp: atoi_val_def Let_def split: option.splits)

lemma atoi_range: "atoi s = Some v \<Longrightarrow> - (2 ^ 63) \<le> v \<and> v < 2 ^ 63"
  using atoi_val_range [of s] by (auto simp: atoi_def split: prod.splits if_splits)

text \<open>Two digit strings followed by something else agree when the whole strings do.\<close>

lemma digit_run_unique:
  assumes "d1 @ c1 # r1 = d2 @ c2 # r2" "\<forall>c\<in>set d1. is_digit c" "\<forall>c\<in>set d2. is_digit c"
    "\<not> is_digit c1" "\<not> is_digit c2"
  shows "d1 = d2 \<and> c1 = c2 \<and> r1 = r2"
proof -
  have "takeWhile is_digit (d @ c # r) = d" if "\<forall>x\<in>set d. is_digit x" "\<not> is_digit c" for d c r
    using that by (simp add: takeWhile_append2)
  with assms have "d1 = d2" by metis
  with assms(1) show ?thesis by simp
qed

lemma itoa_digits: "0 \<le> i \<Longrightarrow> \<forall>c\<in>set (itoa i). is_digit c"
  using nat_str_digits by (auto simp: itoa_def)

lemma itoa_run_unique:
  assumes "itoa i @ c1 # r1 = itoa j @ c2 # r2" "0 \<le> i" "0 \<le> j" "\<not> is_digit c1" "\<not> is_digit c2"
  shows "i = j \<and> c1 = c2 \<and> r1 = r2"
  using digit_run_unique [OF assms(1)] assms(2-) by (auto simp: itoa_digits dest: itoa_inj)

text \<open>\<open>%0wd\<close> of a number that is not negative.\<close>

definition pad_int :: "nat \<Rightarrow> int \<Rightarrow> string" where
  "pad_int w i = replicate (w - length (itoa i)) (CHR ''0'') @ itoa i"

lemma digits_val_zeros: "digits_val 0 (replicate k (CHR ''0'') @ s) = digits_val 0 s"
  by (induction k) (auto simp: is_digit_def)

lemma pad_int_inj:
  assumes "pad_int w i = pad_int w j" "0 \<le> i" "0 \<le> j"
  shows "i = j"
proof -
  have "digits_val 0 (pad_int w i) = Some (nat i)" if "0 \<le> i" for i
    using that by (simp add: pad_int_def digits_val_zeros itoa_def digits_val_nat_str)
  with assms show ?thesis by (metis nat_eq_iff option.inject)
qed

lemma pad_int_nonempty [simp]: "pad_int w i \<noteq> []"
  by (simp add: pad_int_def)

lemma pad_int_digits: "0 \<le> i \<Longrightarrow> \<forall>c\<in>set (pad_int w i). is_digit c"
  using nat_str_digits [of "nat i"] by (auto simp: pad_int_def itoa_def is_digit_def)

section \<open>Package net/url: ParseQuery\<close>

text \<open>\<open>url.Values\<close> as the list of its pairs in query order.\<close>

type_synonym url_values = "(string \<times> string) list"

definition unhex :: "char \<Rightarrow> nat option" where
  "unhex c = (let n = of_char c :: nat in
     if 48 \<le> n \<and> n \<le> 57 then Some (n - 48)
     else if 97 \<le> n \<and> n \<le> 102 then Some (n - 87)
     else if 65 \<le> n \<and> n \<le> 70 then Some (n - 55)
     else None)"

fun query_unescape :: "string \<Rightarrow> string option" where
  "query_unescape [] = Some []"
| "query_unescape (c # cs) =
     (if c = CHR ''%'' then
        (case cs of
           a # b # rest \<Rightarrow>
             (case (unhex a, unhex b) of
                (Some x, Some y) \<Rightarrow>
                  map_option (\<lambda>r. char_of (16 * x + y) # r) (query_unescape rest)
              | _ \<Rightarrow> None)
         | _ \<Rightarrow> None)
      else map_option (\<lambda>r. (if c = CHR ''+'' then CHR '' '' else c) # r) (query_unescape cs))"

text \<open>\<open>strings.Cut\<close> at the first separator.\<close>

definition cut_char :: "char \<Rightarrow> string \<Rightarrow> string \<times> string" where
  "cut_char c s = (takeWhile (\<lambda>x. x \<noteq> c) s, tl (dropWhile (\<lambda>x. x \<noteq> c) s))"

text \<open>The error of \<open>ParseQuery\<close> is \<open>None\<close>: no caller in the program uses the values then.\<close>

fun parse_pairs :: "string list \<Rightarrow> url_values option" where
  "parse_pairs [] = Some []"
| "parse_pairs (part # parts) =
     (if CHR '';'' \<in> set part then None
      else if part = [] then parse_pairs parts
      else case cut_char (CHR ''='') part of
        (k, v) \<Rightarrow>
          (case (query_unescape k, query_unescape v, parse_pairs parts) of
             (Some k', Some v', Some rest) \<Rightarrow> Some ((k', v') # rest)
           | _ \<Rightarrow> None))"

definition parse_query :: "string \<Rightarrow> url_values option" where
  "parse_query q = parse_pairs (split_char (CHR ''&'') q)"

definition url_get :: "url_values \<Rightarrow> string \<Rightarrow> string" where
  "url_get vs k = (case map_of vs k of None \<Rightarrow> [] | Some v \<Rightarrow> v)"

definition url_has :: "url_values \<Rightarrow> string \<Rightarrow> bool" where
  "url_has vs k \<longleftrightarrow> k \<in> set (map fst vs)"

text \<open>A string with none of the characters the query syntax gives a meaning to.\<close>

definition query_plain :: "string \<Rightarrow> bool" where
  "query_plain s \<longleftrightarrow>
     set s \<inter> {CHR ''%'', CHR ''+'', CHR ''&'', CHR '';'', CHR ''=''} = {}"

lemma query_unescape_plain: "query_plain s \<Longrightarrow> query_unescape s = Some s"
  by (induction s) (auto simp: query_plain_def)

lemma query_plain_append [simp]: "query_plain (s @ t) \<longleftrightarrow> query_plain s \<and> query_plain t"
  by (auto simp: query_plain_def)

lemma query_plain_itoa [simp]: "query_plain (itoa i)"
  by (auto simp: query_plain_def itoa_clean)

lemma query_plain_join:
  "query_plain sep \<Longrightarrow> \<forall>w\<in>set ws. query_plain w \<Longrightarrow> query_plain (join sep ws)"
  by (induction sep ws rule: join.induct) (auto simp: query_plain_def)

lemma cut_char_append: "c \<notin> set k \<Longrightarrow> cut_char c (k @ c # v) = (k, v)"
  by (induction k) (auto simp: cut_char_def)

lemma parse_pairs_pair:
  assumes "query_plain k" "query_plain v"
  shows "parse_pairs ((k @ CHR ''='' # v) # parts) = map_option (\<lambda>r. (k, v) # r) (parse_pairs parts)"
  using assms
  by (auto simp: query_unescape_plain cut_char_append query_plain_def split: option.splits)

text \<open>A query built from plain keys and values parses back to exactly those pairs.\<close>

lemma parse_query_pairs:
  assumes "\<forall>(k, v)\<in>set kvs. query_plain k \<and> query_plain v" "kvs \<noteq> []"
  shows "parse_query (join ''&'' (map (\<lambda>(k, v). k @ CHR ''='' # v) kvs)) = Some kvs"
proof -
  have "\<forall>w\<in>set (map (\<lambda>(k, v). k @ CHR ''='' # v) kvs). CHR ''&'' \<notin> set w"
    using assms(1) by (auto simp: query_plain_def)
  with assms(2) have "parse_query (join ''&'' (map (\<lambda>(k, v). k @ CHR ''='' # v) kvs))
      = parse_pairs (map (\<lambda>(k, v). k @ CHR ''='' # v) kvs)"
    by (simp add: parse_query_def split_join)
  also have "\<dots> = Some kvs"
    using assms(1) by (induction kvs) (auto simp: parse_pairs_pair simp del: parse_pairs.simps(2))
  finally show ?thesis .
qed

section \<open>Package encoding/binary: big-endian words\<close>

definition byte_of :: "int \<Rightarrow> byte" where
  "byte_of n = word_of_int n"

definition char_byte :: "char \<Rightarrow> byte" where
  "char_byte c = of_nat (of_char c)"

definition str_bytes :: "string \<Rightarrow> bytes" where
  "str_bytes s = map char_byte s"

definition be16 :: "u16 \<Rightarrow> bytes" where
  "be16 w = [ucast (drop_bit 8 w), ucast w]"

definition be32 :: "u32 \<Rightarrow> bytes" where
  "be32 w = [ucast (drop_bit 24 w), ucast (drop_bit 16 w), ucast (drop_bit 8 w), ucast w]"

definition read_be16 :: "byte \<Rightarrow> byte \<Rightarrow> u16" where
  "read_be16 a b = push_bit 8 (ucast a) OR ucast b"

lemma length_be16 [len_simps]: "length (be16 w) = 2"
  by (simp add: be16_def)

lemma length_be32 [len_simps]: "length (be32 w) = 4"
  by (simp add: be32_def)

lemma length_str_bytes [len_simps]: "length (str_bytes s) = length s"
  by (simp add: str_bytes_def)

lemma read_be16_be16: "read_be16 (ucast (drop_bit 8 w)) (ucast w) = w"
  unfolding read_be16_def by (rule bit_word_eqI) (auto simp: bit_simps)

section \<open>Package time\<close>

definition millisecond :: duration where "millisecond = 1000000"
definition second :: duration where "second = 1000 * millisecond"
definition minute :: duration where "minute = 60 * second"
definition hour :: duration where "hour = 60 * minute"

text \<open>\<open>Time.Sub\<close> saturates at the bounds of a 64-bit duration.\<close>

definition time_sub :: "time \<Rightarrow> time \<Rightarrow> duration" where
  "time_sub t u = max (- (2 ^ 63)) (min (2 ^ 63 - 1) (t - u))"

definition is_zero_time :: "time \<Rightarrow> bool" where
  "is_zero_time t \<longleftrightarrow> t = 0"

lemma time_sub_le_iff: "\<bar>d\<bar> < 2 ^ 63 - 1 \<Longrightarrow> time_sub t u \<le> d \<longleftrightarrow> t - u \<le> d"
  by (auto simp: time_sub_def)

lemma time_sub_mono: "t \<le> t' \<Longrightarrow> time_sub t u \<le> time_sub t' u"
  by (auto simp: time_sub_def)

section \<open>Package net: SplitHostPort\<close>

definition last_colon :: "string \<Rightarrow> nat option" where
  "last_colon s =
     (if CHR '':'' \<in> set s
      then Some (length s - 1 - length (takeWhile (\<lambda>c. c \<noteq> CHR '':'') (rev s))) else None)"

definition split_host_port :: "string \<Rightarrow> (string \<times> string) option" where
  "split_host_port hp =
     (case last_colon hp of
        None \<Rightarrow> None
      | Some i \<Rightarrow>
          if hd hp = CHR ''['' then
            (if CHR '']'' \<notin> set hp then None
             else let e = length (takeWhile (\<lambda>c. c \<noteq> CHR '']'') hp) in
               if e + 1 \<noteq> i then None
               else if CHR ''['' \<in> set (drop 1 hp) \<or> CHR '']'' \<in> set (drop (e + 1) hp) then None
               else Some (take (e - 1) (drop 1 hp), drop (i + 1) hp))
          else if CHR '':'' \<in> set (take i hp) then None
          else if CHR ''['' \<in> set hp \<or> CHR '']'' \<in> set hp then None
          else Some (take i hp, drop (i + 1) hp))"

end
