(* ===== verification/Rtp.thy ===== *)
theory Rtp
  imports GoLib
begin

text \<open>
  The packets that a session sends: RTP (\<open>internal/rtsp/rtp.go\<close>), the RTCP status report of SAT>IP
  (\<open>internal/rtsp/rtcp.go\<close>) and the frame that carries either on an RTSP connection
  (\<open>interleavedFrame\<close> of \<open>internal/rtsp/server.go\<close>). Sending is the socket's: the model is the bytes.
\<close>

section \<open>RTP\<close>

definition payloadTypeMP2T :: byte where "payloadTypeMP2T = 33"

record rtp_sender =
  rtpSequence :: u16
  rtpTimestamp :: u32
  rtpSsrc :: u32

definition NewRTPSender :: rtp_sender where
  "NewRTPSender = \<lparr>rtpSequence = 0, rtpTimestamp = 0, rtpSsrc = 0x73617470\<rparr>"

definition Skip :: "rtp_sender \<Rightarrow> rtp_sender" where
  "Skip r = r\<lparr>rtpSequence := rtpSequence r + 1,
     rtpTimestamp := (rtpTimestamp r + 90000 div 25) AND 0xFFFFFFFF\<rparr>"

definition RTP_Packet :: "rtp_sender \<Rightarrow> bytes \<Rightarrow> bytes \<times> rtp_sender" where
  "RTP_Packet r mpegTsChunk =
     ([0x80, payloadTypeMP2T AND 0x7F] @ be16 (rtpSequence r) @ be32 (rtpTimestamp r) @ be32 (rtpSsrc r)
        @ mpegTsChunk, Skip r)"

section \<open>RTCP\<close>

definition rtcpPacketTypeSenderReport :: byte where "rtcpPacketTypeSenderReport = 200"
definition rtcpPacketTypeSourceDescription :: byte where "rtcpPacketTypeSourceDescription = 202"
definition rtcpPacketTypeApp :: byte where "rtcpPacketTypeApp = 204"
definition rtcpAppNameSATIP :: string where "rtcpAppNameSATIP = ''SES1''"

record rtcp_status =
  rsSourceID :: int
  rsTunerID :: int
  rsLevel :: int
  rsLock :: int
  rsQuality :: int
  rsFrequency :: int
  rsPolarity :: string
  rsDeliverySystem :: string
  rsSymbolRate :: int
  rsPIDs :: string

record rtcp_sender =
  rcSsrc :: u32
  rcCname :: string

definition NewRTCPStatusSender :: rtcp_sender where
  "NewRTCPStatusSender = \<lparr>rcSsrc = 0x73617470, rcCname = ''satip-lab''\<rparr>"

definition RTCPStatus_String :: "rtcp_status \<Rightarrow> string" where
  "RTCPStatus_String s =
     ''ver=1.2;src='' @ itoa (rsSourceID s) @ '';tuner='' @ itoa (rsTunerID s) @ '','' @ itoa (rsLevel s)
       @ '','' @ itoa (rsLock s) @ '','' @ itoa (rsQuality s) @ '','' @ itoa (rsFrequency s) @ '',''
       @ rsPolarity s @ '','' @ rsDeliverySystem s @ '','' @ itoa (rsSymbolRate s) @ '';pids='' @ rsPIDs s"

definition padTo32Bit :: "nat \<Rightarrow> nat" where
  "padTo32Bit len = (if len mod 4 = 0 then len else len + 4 - len mod 4)"

definition senderReportPacket :: "rtcp_sender \<Rightarrow> bytes" where
  "senderReportPacket r =
     [0x80, rtcpPacketTypeSenderReport] @ be16 6 @ be32 (rcSsrc r) @ replicate 20 0"

definition sourceDescriptionPacket :: "rtcp_sender \<Rightarrow> bytes" where
  "sourceDescriptionPacket r =
     (let cname = str_bytes (rcCname r);
          len = padTo32Bit (4 + 4 + 2 + length cname + 1)
      in [0x81, rtcpPacketTypeSourceDescription] @ be16 (of_nat (len div 4 - 1)) @ be32 (rcSsrc r)
           @ [1, of_nat (length cname)] @ cname @ replicate (len - 10 - length cname) 0)"

definition appStatusPacket :: "rtcp_sender \<Rightarrow> rtcp_status \<Rightarrow> bytes" where
  "appStatusPacket r status =
     (let statusString = str_bytes (RTCPStatus_String status);
          len = padTo32Bit (16 + length statusString)
      in [0x80, rtcpPacketTypeApp] @ be16 (of_nat (len div 4 - 1)) @ be32 (rcSsrc r)
           @ str_bytes rtcpAppNameSATIP @ [0, 0] @ be16 (of_nat (length statusString)) @ statusString
           @ replicate (len - 16 - length statusString) 0)"

definition RTCP_Packet :: "rtcp_sender \<Rightarrow> rtcp_status \<Rightarrow> bytes" where
  "RTCP_Packet r status = senderReportPacket r @ sourceDescriptionPacket r @ appStatusPacket r status"

section \<open>Interleaved frames\<close>

definition interleavedFrame :: "int \<Rightarrow> bytes \<Rightarrow> bytes" where
  "interleavedFrame channel packet =
     [char_byte (CHR ''$''), byte_of channel, byte_of (drop_bit 8 (int (length packet))),
      byte_of (int (length packet))] @ packet"

section \<open>A run of a sender\<close>

text \<open>What happens to one chunk after the other: \<open>Some\<close> chunk is sent, \<open>None\<close> is dropped, as the
  loss scenarios do it.\<close>

fun rtp_run :: "rtp_sender \<Rightarrow> bytes option list \<Rightarrow> bytes option list" where
  "rtp_run r [] = []"
| "rtp_run r (None # cs) = None # rtp_run (Skip r) cs"
| "rtp_run r (Some chunk # cs) =
     (case RTP_Packet r chunk of (packet, r) \<Rightarrow> Some packet # rtp_run r cs)"

definition rtp_sequence :: "bytes \<Rightarrow> u16" where
  "rtp_sequence p = read_be16 (p ! 2) (p ! 3)"

definition read_be32 :: "bytes \<Rightarrow> nat \<Rightarrow> u32" where
  "read_be32 p i = push_bit 24 (ucast (p ! i)) OR push_bit 16 (ucast (p ! (i + 1)))
     OR push_bit 8 (ucast (p ! (i + 2))) OR ucast (p ! (i + 3))"

lemma read_be32_be32:
  assumes "i = length xs"
  shows "read_be32 (xs @ be32 w @ ys) i = w"
proof -
  have "push_bit 24 (ucast (ucast (drop_bit 24 w) :: byte)) OR push_bit 16 (ucast (ucast (drop_bit 16 w) :: byte))
      OR push_bit 8 (ucast (ucast (drop_bit 8 w) :: byte)) OR ucast (ucast w :: byte) = w"
  proof (rule bit_word_eqI)
    fix n assume "n < LENGTH(32)"
    then show "bit (push_bit 24 (ucast (ucast (drop_bit 24 w) :: byte)) OR push_bit 16 (ucast (ucast (drop_bit 16 w) :: byte))
      OR push_bit 8 (ucast (ucast (drop_bit 8 w) :: byte)) OR ucast (ucast w :: byte) :: u32) n = bit w n"
      by (cases "n < 8"; cases "n < 16"; cases "n < 24") (auto simp: bit_simps)
  qed
  then show ?thesis using assms by (simp add: read_be32_def be32_def nth_append)
qed

lemma Skip_fields:
  "rtpSequence (Skip r) = rtpSequence r + 1" "rtpTimestamp (Skip r) = rtpTimestamp r + 3600"
  "rtpSsrc (Skip r) = rtpSsrc r"
proof -
  have "(0xFFFFFFFF :: u32) = -1" by simp
  then have "x AND 0xFFFFFFFF = (x :: u32)" for x by (simp only: and.right_neutral)
  then show "rtpTimestamp (Skip r) = rtpTimestamp r + 3600" by (simp add: Skip_def)
qed (simp_all add: Skip_def)

text \<open>The fields of a packet.\<close>

lemma rtp_packet_fields:
  "fst (RTP_Packet r chunk) ! 0 = 0x80 \<and> fst (RTP_Packet r chunk) ! 1 = 33 \<and>
   rtp_sequence (fst (RTP_Packet r chunk)) = rtpSequence r \<and>
   read_be32 (fst (RTP_Packet r chunk)) 4 = rtpTimestamp r \<and>
   read_be32 (fst (RTP_Packet r chunk)) 8 = rtpSsrc r \<and> drop 12 (fst (RTP_Packet r chunk)) = chunk"
proof -
  let ?h = "[0x80, payloadTypeMP2T AND 0x7F] @ be16 (rtpSequence r)"
  have "read_be32 (?h @ be32 (rtpTimestamp r) @ be32 (rtpSsrc r) @ chunk) 4 = rtpTimestamp r"
    by (rule read_be32_be32) (simp add: len_simps)
  moreover have "read_be32 ((?h @ be32 (rtpTimestamp r)) @ be32 (rtpSsrc r) @ chunk) 8 = rtpSsrc r"
    by (rule read_be32_be32) (simp add: len_simps)
  ultimately show ?thesis
    by (simp add: RTP_Packet_def rtp_sequence_def be16_def be32_def payloadTypeMP2T_def read_be16_be16)
qed

lemma rtp_run_state:
  "i < length cs \<Longrightarrow> rtp_run r cs ! i = (case cs ! i of None \<Rightarrow> None
     | Some chunk \<Rightarrow> Some (fst (RTP_Packet ((Skip ^^ i) r) chunk)))"
proof (induction cs arbitrary: r i)
  case (Cons c cs)
  show ?case
    using Cons by (cases i; cases c) (auto simp: RTP_Packet_def funpow_swap1 split: option.splits)
qed simp

lemma Skip_iterate:
  "rtpSequence ((Skip ^^ i) r) = rtpSequence r + of_nat i"
  "rtpTimestamp ((Skip ^^ i) r) = rtpTimestamp r + of_nat (3600 * i)" "rtpSsrc ((Skip ^^ i) r) = rtpSsrc r"
  by (induction i) (auto simp: Skip_fields algebra_simps)

text \<open>The RTP packets of a stream: the \<open>i\<close>-th chunk is sent under sequence number \<open>i\<close> modulo
  2^16 and timestamp \<open>3600 i\<close> modulo 2^32, with version 2, payload type 33 and the sender's SSRC, and the
  chunk as its payload. A dropped chunk uses up its number, so that a receiver sees the loss as a gap.\<close>

theorem rtp_stream_numbered:
  "length (rtp_run NewRTPSender cs) = length cs \<and>
   list_all (\<lambda>i. case (cs ! i, rtp_run NewRTPSender cs ! i) of
       (None, None) \<Rightarrow> True
     | (Some chunk, Some packet) \<Rightarrow>
         packet ! 0 = 0x80 \<and> packet ! 1 = 33 \<and> rtp_sequence packet = of_nat i \<and>
         read_be32 packet 4 = of_nat (3600 * i) \<and> read_be32 packet 8 = 0x73617470 \<and>
         drop 12 packet = chunk
     | _ \<Rightarrow> False) [0..<length cs]"
proof
  show "length (rtp_run NewRTPSender cs) = length cs"
  proof -
    have "length (rtp_run r cs) = length cs" for r
      by (induction r cs rule: rtp_run.induct) (auto split: prod.splits)
    then show ?thesis .
  qed
  show "list_all (\<lambda>i. case (cs ! i, rtp_run NewRTPSender cs ! i) of
       (None, None) \<Rightarrow> True
     | (Some chunk, Some packet) \<Rightarrow>
         packet ! 0 = 0x80 \<and> packet ! 1 = 33 \<and> rtp_sequence packet = of_nat i \<and>
         read_be32 packet 4 = of_nat (3600 * i) \<and> read_be32 packet 8 = 0x73617470 \<and>
         drop 12 packet = chunk
     | _ \<Rightarrow> False) [0..<length cs]"
    using rtp_packet_fields [of "(Skip ^^ i) NewRTPSender" for i]
    by (auto simp: list_all_iff rtp_run_state Skip_iterate NewRTPSender_def split: option.splits)
qed

section \<open>The compound status report\<close>

text \<open>A receiver of RTCP walks a compound packet by the length fields, which count 32-bit words less
  one.\<close>

function rtcp_walk :: "bytes \<Rightarrow> bytes list option" where
  "rtcp_walk p =
     (if p = [] then Some []
      else if length p < 4 then None
      else
        let n = 4 * (unat (read_be16 (p ! 2) (p ! 3)) + 1)
        in if length p < n then None
           else case rtcp_walk (drop n p) of None \<Rightarrow> None | Some ps \<Rightarrow> Some (take n p # ps))"
  by auto
termination by (relation "measure length") auto

declare rtcp_walk.simps [simp del]

lemma padTo32Bit_props: "4 dvd padTo32Bit n" "n \<le> padTo32Bit n" "padTo32Bit n < n + 4"
  unfolding padTo32Bit_def by (auto split: if_splits) presburger+

lemma rtcp_walk_cons:
  assumes "length p = 4 * (k + 1)" "k < 2 ^ 16" "read_be16 (p ! 2) (p ! 3) = of_nat k"
  shows "rtcp_walk (p @ rest) = map_option (Cons p) (rtcp_walk rest)"
proof -
  have "unat (read_be16 ((p @ rest) ! 2) ((p @ rest) ! 3)) = k"
    using assms by (simp add: nth_append unat_of_nat)
  then show ?thesis
    using assms(1) by (subst rtcp_walk.simps) (auto simp: Let_def split: option.splits)
qed

lemma padded_words:
  assumes "4 \<le> n"
  shows "padTo32Bit n = 4 * (padTo32Bit n div 4 - 1 + 1)"
  using padTo32Bit_props [of n] assms by (auto elim!: dvdE)

text \<open>C39. The RTCP report of a session is a well-formed compound packet: a receiver that walks it by
  its length fields finds the sender report, the source description and the APP packet named SES1, and
  reads the status string of the session back from the latter, as long as that string fits the 16-bit
  length.\<close>

theorem rtcp_report_wellformed:
  assumes "length (RTCPStatus_String status) < 2 ^ 16" "length (rcCname r) < 2 ^ 8"
  shows "rtcp_walk (RTCP_Packet r status) =
      Some [senderReportPacket r, sourceDescriptionPacket r, appStatusPacket r status] \<and>
    map (\<lambda>p. p ! 1) [senderReportPacket r, sourceDescriptionPacket r, appStatusPacket r status] =
      [200, 202, 204] \<and>
    take 4 (drop 8 (appStatusPacket r status)) = str_bytes ''SES1'' \<and>
    take (unat (read_be16 (appStatusPacket r status ! 14) (appStatusPacket r status ! 15)))
      (drop 16 (appStatusPacket r status)) = str_bytes (RTCPStatus_String status) \<and>
    take (unat (sourceDescriptionPacket r ! 9)) (drop 10 (sourceDescriptionPacket r)) = str_bytes (rcCname r)"
proof -
  let ?c = "str_bytes (rcCname r)" and ?t = "str_bytes (RTCPStatus_String status)"
  let ?m = "padTo32Bit (11 + length ?c)" and ?n = "padTo32Bit (16 + length ?t)"
  have len: "length ?c < 2 ^ 8" "length ?t < 2 ^ 16" using assms by (simp_all add: len_simps)
  note pm = padTo32Bit_props [of "11 + length ?c"] and pn = padTo32Bit_props [of "16 + length ?t"]
  have sr: "rtcp_walk (senderReportPacket r @ rest) = map_option (Cons (senderReportPacket r)) (rtcp_walk rest)" for rest
    by (rule rtcp_walk_cons [where k = 6])
      (simp_all add: senderReportPacket_def len_simps, simp add: be16_def read_be16_def)
  have sd: "rtcp_walk (sourceDescriptionPacket r @ rest) =
      map_option (Cons (sourceDescriptionPacket r)) (rtcp_walk rest)" for rest
  proof (rule rtcp_walk_cons [where k = "?m div 4 - 1"])
    show "length (sourceDescriptionPacket r) = 4 * (?m div 4 - 1 + 1)"
      using pm padded_words [of "11 + length ?c"] by (simp add: sourceDescriptionPacket_def Let_def len_simps)
    show "?m div 4 - 1 < 2 ^ 16" using pm len by simp
    show "read_be16 (sourceDescriptionPacket r ! 2) (sourceDescriptionPacket r ! 3) = of_nat (?m div 4 - 1)"
      by (simp add: sourceDescriptionPacket_def Let_def be16_def read_be16_be16 add.commute)
  qed
  have app: "rtcp_walk (appStatusPacket r status) = Some [appStatusPacket r status]"
  proof -
    have "rtcp_walk (appStatusPacket r status @ []) = map_option (Cons (appStatusPacket r status)) (rtcp_walk [])"
    proof (rule rtcp_walk_cons [where k = "?n div 4 - 1"])
      show "length (appStatusPacket r status) = 4 * (?n div 4 - 1 + 1)"
        using pn padded_words [of "16 + length ?t"]
        by (simp add: appStatusPacket_def Let_def len_simps rtcpAppNameSATIP_def)
      show "?n div 4 - 1 < 2 ^ 16" using pn len by simp
      show "read_be16 (appStatusPacket r status ! 2) (appStatusPacket r status ! 3) = of_nat (?n div 4 - 1)"
        by (simp add: appStatusPacket_def Let_def be16_def read_be16_be16)
    qed
    then show ?thesis by (simp add: rtcp_walk.simps [of "[]"])
  qed
  have "unat (of_nat (length ?t) :: u16) = length ?t" "unat (of_nat (length ?c) :: byte) = length ?c"
    using len by (simp_all add: unat_of_nat)
  then show ?thesis
    using sr sd app
    by (simp add: RTCP_Packet_def, simp add: senderReportPacket_def sourceDescriptionPacket_def
        appStatusPacket_def Let_def be16_def be32_def read_be16_be16 rtcpAppNameSATIP_def str_bytes_def
        rtcpPacketTypeSenderReport_def rtcpPacketTypeSourceDescription_def rtcpPacketTypeApp_def)
qed

definition demo_status :: rtcp_status where
  "demo_status = \<lparr>rsSourceID = 1, rsTunerID = 2, rsLevel = 88, rsLock = 1, rsQuality = 14,
     rsFrequency = 11494, rsPolarity = ''h'', rsDeliverySystem = ''dvbs2'', rsSymbolRate = 22000,
     rsPIDs = ''0,17,5100''\<rparr>"

theorem rtcp_report_wellformed_witness:
  "RTCPStatus_String demo_status = ''ver=1.2;src=1;tuner=2,88,1,14,11494,h,dvbs2,22000;pids=0,17,5100'' \<and>
   rtcp_walk (RTCP_Packet NewRTCPStatusSender demo_status) =
     Some [senderReportPacket NewRTCPStatusSender, sourceDescriptionPacket NewRTCPStatusSender,
       appStatusPacket NewRTCPStatusSender demo_status]"
proof -
  have s: "RTCPStatus_String demo_status = ''ver=1.2;src=1;tuner=2,88,1,14,11494,h,dvbs2,22000;pids=0,17,5100''"
    by (simp add: RTCPStatus_String_def demo_status_def itoa_def nat_str.simps digit_chars
        digit_chars(2) [simplified])
  have "length (RTCPStatus_String demo_status) < 2 ^ 16" by (simp add: s)
  moreover have "length (rcCname NewRTCPStatusSender) < 2 ^ 8" by (simp add: NewRTCPStatusSender_def)
  ultimately show ?thesis
    using s by (intro conjI) (assumption, rule rtcp_report_wellformed [THEN conjunct1])
qed

end
