(* ===== verification/RtspWire.thy ===== *)
theory RtspWire
  imports Rtp
begin

text \<open>
  The text protocol of the RTSP server (\<open>internal/rtsp/server.go\<close>): reading a request from a
  connection, the responses, the Transport header and the session header. A connection's input is the
  list of the bytes that arrive before it ends. The three regular expressions are written out as
  searches. \<open>net.ParseIP\<close> and \<open>IP.String\<close> are a parameter: \<open>parse_ip\<close> gives the printed form of the
  address that a text denotes; an address is kept in its printed form.
\<close>

section \<open>Requests\<close>

definition CR :: char where "CR = CHR 0x0D"
definition LF :: char where "LF = CHR 0x0A"
definition crlf :: string where "crlf = [CR, LF]"

record request =
  rqMethod :: string
  rqURI :: string
  rqHeaders :: "string \<rightharpoonup> string"

definition header :: "request \<Rightarrow> string \<Rightarrow> string" where
  "header req key = (case rqHeaders req key of None \<Rightarrow> [] | Some v \<Rightarrow> v)"

fun parse_header_lines :: "(string \<rightharpoonup> string) \<Rightarrow> string list \<Rightarrow> (string \<rightharpoonup> string)" where
  "parse_header_lines headers [] = headers"
| "parse_header_lines headers (line # rest) =
     (if line = [] then parse_header_lines headers rest
      else
        let idx = index_char (CHR '':'') line in
        if idx \<le> 0 then parse_header_lines headers rest
        else
          let key = to_lower (trim_space (take (nat idx) line));
              val = trim_space (drop (nat idx + 1) line)
          in parse_header_lines (headers(key \<mapsto> val)) rest)"

definition parseRequest :: "string \<Rightarrow> request" where
  "parseRequest raw =
     (let lines = split_str crlf raw;
          parts = split_char (CHR '' '') (hd lines);
          headers = parse_header_lines Map.empty (tl lines);
          uri = (if length parts > 1 then parts ! 1 else ''/'')
      in \<lparr>rqMethod = hd parts, rqURI = uri, rqHeaders = headers\<rparr>)"

text \<open>A frame that interrupts the requests: four bytes of header, then as many as it says.\<close>

definition discardInterleavedFrame :: "string \<Rightarrow> string option" where
  "discardInterleavedFrame input =
     (if length input < 4 then None
      else
        let len = of_char (input ! 2) * 256 + of_char (input ! 3); rest = drop 4 input
        in if length rest < len then None else Some (drop len rest))"

text \<open>\<open>ReadString('\n')\<close>: the line with its line feed, or an error at the end of the input.\<close>

definition read_line :: "string \<Rightarrow> (string \<times> string) option" where
  "read_line input =
     (if LF \<in> set input
      then let n = length (takeWhile (\<lambda>c. c \<noteq> LF) input) + 1 in Some (take n input, drop n input)
      else None)"

lemma discard_shorter: "discardInterleavedFrame input = Some rest \<Longrightarrow> length rest < length input"
  by (auto simp: discardInterleavedFrame_def Let_def split: if_splits)

lemma read_line_shorter: "read_line input = Some (line, rest) \<Longrightarrow> length rest < length input"
  by (cases input) (auto simp: read_line_def Let_def split: if_splits)

function read_request_loop :: "string \<Rightarrow> string \<Rightarrow> (request \<times> string) option" where
  "read_request_loop buffer input =
     (if input = [] then None
      else if hd input = CHR ''$'' then
        (case discardInterleavedFrame input of
           None \<Rightarrow> None
         | Some rest \<Rightarrow> read_request_loop buffer rest)
      else
        (case read_line input of
           None \<Rightarrow> None
         | Some (line, rest) \<Rightarrow>
             let buffer = buffer @ line in
             if suffix (crlf @ crlf) buffer then
               let req = parseRequest buffer;
                   contentLength = fst (atoi_val (header req ''content-length''))
               in if contentLength > 0 then
                    (if int (length rest) < contentLength then None
                     else Some (req, drop (nat contentLength) rest))
                  else Some (req, rest)
             else read_request_loop buffer rest))"
  by auto
termination
  by (relation "measure (\<lambda>(buffer, input). length input)")
    (auto dest: discard_shorter read_line_shorter)

declare read_request_loop.simps [simp del]

definition readRequest :: "string \<Rightarrow> (request \<times> string) option" where
  "readRequest input = read_request_loop [] input"

section \<open>Responses\<close>

definition buildResponse :: "string \<Rightarrow> string \<Rightarrow> string list \<Rightarrow> string" where
  "buildResponse cseq status extra =
     join crlf ([''RTSP/1.0 '' @ status, ''CSeq: '' @ cseq] @ extra @ [[], []])"

definition buildResponseWithBody :: "string \<Rightarrow> string \<Rightarrow> string list \<Rightarrow> string \<Rightarrow> string" where
  "buildResponseWithBody cseq status extra body =
     buildResponse cseq status (extra @ [''Content-Length: '' @ itoa (int (length body))]) @ body"

section \<open>The Transport header\<close>

text \<open>The leftmost match of \<open>name=(\d+)-(\d+)\<close>, in any case of the letters: the two runs of digits.\<close>

fun match_range :: "string \<Rightarrow> string \<Rightarrow> (string \<times> string) option" where
  "match_range name [] = None"
| "match_range name (c # cs) =
     (let s = c # cs; rest = drop (length name + 1) s;
          d1 = takeWhile is_digit rest; rest2 = dropWhile is_digit rest;
          d2 = takeWhile is_digit (tl rest2)
      in if equal_fold (take (length name + 1) s) (name @ ''='') \<and> d1 \<noteq> [] \<and> rest2 \<noteq> [] \<and> hd rest2 = CHR ''-''
            \<and> d2 \<noteq> []
         then Some (d1, d2) else match_range name cs)"

text \<open>The leftmost match of \<open>destination=([^;]+)\<close>.\<close>

fun match_destination :: "string \<Rightarrow> string option" where
  "match_destination [] = None"
| "match_destination (c # cs) =
     (let s = c # cs; v = takeWhile (\<lambda>x. x \<noteq> CHR '';'') (drop 12 s)
      in if equal_fold (take 12 s) ''destination='' \<and> v \<noteq> [] then Some v else match_destination cs)"

datatype transport_mode = transportUDP | transportInterleaved

record transport_spec =
  tsDestinationIP :: "string option"
  tsRtpPort :: int
  tsRtcpPort :: int
  tsMode :: transport_mode
  tsRtpChannel :: int
  tsRtcpChannel :: int
  tsInvalid :: bool

definition parseTransport :: "(string \<Rightarrow> string option) \<Rightarrow> string \<Rightarrow> transport_spec" where
  "parseTransport parse_ip hdr =
     (let spec = \<lparr>tsDestinationIP = None, tsRtpPort = 5000, tsRtcpPort = 5001, tsMode = transportUDP,
            tsRtpChannel = 0, tsRtcpChannel = 1, tsInvalid = False\<rparr>
      in if hdr = [] then spec
         else
           let spec = (if contains_str ''rtp/avp/tcp'' (to_lower hdr)
                       then spec\<lparr>tsMode := transportInterleaved\<rparr> else spec);
               spec = (case match_range ''client_port'' hdr of
                   Some (a, b) \<Rightarrow> spec\<lparr>tsRtpPort := fst (atoi_val a), tsRtcpPort := fst (atoi_val b)\<rparr>
                 | None \<Rightarrow> spec);
               spec = (case match_range ''interleaved'' hdr of
                   Some (a, b) \<Rightarrow> spec\<lparr>tsRtpChannel := fst (atoi_val a), tsRtcpChannel := fst (atoi_val b)\<rparr>
                 | None \<Rightarrow> spec);
               spec = (if tsMode spec = transportInterleaved
                          \<and> (tsRtpChannel spec < 0 \<or> tsRtpChannel spec > 255
                             \<or> tsRtcpChannel spec < 0 \<or> tsRtcpChannel spec > 255)
                       then spec\<lparr>tsInvalid := True\<rparr> else spec)
           in (case match_destination hdr of
                 Some d \<Rightarrow> spec\<lparr>tsDestinationIP := parse_ip (trim_space d)\<rparr>
               | None \<Rightarrow> spec))"

definition destination :: "transport_spec \<Rightarrow> string \<Rightarrow> string" where
  "destination t remoteIP = (case tsDestinationIP t of Some ip \<Rightarrow> ip | None \<Rightarrow> remoteIP)"

definition apiName :: "transport_spec \<Rightarrow> string" where
  "apiName t = (if tsMode t = transportInterleaved then ''interleaved_tcp'' else ''udp'')"

definition apiDestination :: "transport_spec \<Rightarrow> string \<Rightarrow> string" where
  "apiDestination t destinationIP =
     (if tsMode t = transportInterleaved
      then ''interleaved='' @ itoa (tsRtpChannel t) @ ''-'' @ itoa (tsRtcpChannel t)
      else destinationIP @ '':'' @ itoa (tsRtpPort t))"

definition apiRTPPort :: "transport_spec \<Rightarrow> int" where
  "apiRTPPort t = (if tsMode t = transportInterleaved then 0 else tsRtpPort t)"

definition apiRTCPPort :: "transport_spec \<Rightarrow> int" where
  "apiRTCPPort t = (if tsMode t = transportInterleaved then 0 else tsRtcpPort t)"

definition apiRTPChannel :: "transport_spec \<Rightarrow> int option" where
  "apiRTPChannel t = (if tsMode t \<noteq> transportInterleaved then None else Some (tsRtpChannel t))"

definition apiRTCPChannel :: "transport_spec \<Rightarrow> int option" where
  "apiRTCPChannel t = (if tsMode t \<noteq> transportInterleaved then None else Some (tsRtcpChannel t))"

section \<open>Queries and session ids\<close>

definition tuningQueryFromURI :: "string \<Rightarrow> string" where
  "tuningQueryFromURI uri =
     (let idx = index_char (CHR ''?'') uri
      in if idx < 0 \<or> idx = int (length uri) - 1 then [] else drop (nat idx + 1) uri)"

definition sessionIDFrom :: "string \<Rightarrow> string" where
  "sessionIDFrom hdr = (if hdr = [] then [] else trim_space (hd (split_char (CHR '';'') hdr)))"

section \<open>Reading what a client writes\<close>

text \<open>A request as a client renders it, from a method, a URI and header lines, and its body.\<close>

definition render_header :: "string \<times> string \<Rightarrow> string" where
  "render_header kv = fst kv @ '': '' @ snd kv"

definition render_head :: "string \<Rightarrow> string \<Rightarrow> (string \<times> string) list \<Rightarrow> string" where
  "render_head verb uri hs =
     join crlf ([verb @ '' '' @ uri @ '' RTSP/1.0''] @ map render_header hs @ [[], []])"

definition clean_line :: "string \<Rightarrow> bool" where
  "clean_line s \<longleftrightarrow> CR \<notin> set s \<and> LF \<notin> set s"

text \<open>Header lines a client may write: a nonempty key without colon and without space around it, a
  value without space around it, neither with a line break.\<close>

definition header_ok :: "string \<times> string \<Rightarrow> bool" where
  "header_ok kv \<longleftrightarrow> clean_line (fst kv) \<and> clean_line (snd kv) \<and> fst kv \<noteq> [] \<and> CHR '':'' \<notin> set (fst kv) \<and>
     trim_space (fst kv) = fst kv \<and> trim_space (snd kv) = snd kv \<and> hd (fst kv) \<noteq> CHR ''$''"

definition request_ok :: "string \<Rightarrow> string \<Rightarrow> (string \<times> string) list \<Rightarrow> bool" where
  "request_ok verb uri hs \<longleftrightarrow> clean_line verb \<and> clean_line uri \<and> verb \<noteq> [] \<and> hd verb \<noteq> CHR ''$'' \<and>
     CHR '' '' \<notin> set verb \<and> CHR '' '' \<notin> set uri \<and> list_all header_ok hs"

lemma split_go_prefix:
  assumes "\<And>k. k < length w \<Longrightarrow> \<not> prefix sep (drop k (w @ sep @ rest))" "sep \<noteq> []"
  shows "split_go sep acc (w @ sep @ rest) = (rev acc @ w) # split_go sep [] rest"
  using assms(1)
proof (induction w arbitrary: acc)
  case Nil
  then obtain c cs where "sep = c # cs" using assms(2) by (cases sep) auto
  then show ?case by simp
next
  case (Cons x w)
  have "\<not> prefix sep (x # w @ sep @ rest)" using Cons.prems [of 0] by simp
  moreover have "\<not> prefix sep (drop k (w @ sep @ rest))" if "k < length w" for k
    using Cons.prems [of "Suc k"] that by simp
  ultimately show ?case using Cons.IH [of "x # acc"] by simp
qed

lemma split_crlf_line:
  assumes "CR \<notin> set w"
  shows "split_str crlf (w @ crlf @ rest) = w # split_str crlf rest"
proof -
  have "\<not> prefix crlf (drop k (w @ crlf @ rest))" if "k < length w" for k
  proof
    assume "prefix crlf (drop k (w @ crlf @ rest))"
    moreover have "drop k (w @ crlf @ rest) = w ! k # drop (Suc k) w @ crlf @ rest"
      using that by (simp add: Cons_nth_drop_Suc)
    ultimately have "w ! k = CR" by (simp add: crlf_def)
    with assms that show False by (metis nth_mem)
  qed
  from split_go_prefix [OF this, of "[]"] show ?thesis by (simp add: split_str_def crlf_def)
qed

lemma split_crlf_end: "CR \<notin> set w \<Longrightarrow> split_str crlf w = [w]"
proof -
  have "CR \<notin> set w \<Longrightarrow> split_go crlf acc w = [rev acc @ w]" for acc
    by (induction w arbitrary: acc) (auto simp: crlf_def)
  then show "CR \<notin> set w \<Longrightarrow> split_str crlf w = [w]" by (simp add: split_str_def)
qed

lemma split_join_crlf:
  assumes "\<forall>w\<in>set ws. CR \<notin> set w" "ws \<noteq> []"
  shows "split_str crlf (join crlf ws) = ws"
  using assms
proof (induction ws)
  case (Cons w ws)
  then show ?case by (cases ws) (simp_all add: split_crlf_end split_crlf_line)
qed simp

lemma header_line:
  assumes "header_ok (k, v)"
  shows "parse_header_lines m (render_header (k, v) # rest) = parse_header_lines (m(to_lower k \<mapsto> v)) rest"
proof -
  have k: "k \<noteq> []" "CHR '':'' \<notin> set k" "trim_space k = k" "trim_space v = v"
    using assms by (auto simp: header_ok_def)
  have idx: "index_char (CHR '':'') (k @ '': '' @ v) = int (length k)"
    using k(2) by (auto simp: index_char_def takeWhile_append)
  have "trim_space (CHR '' '' # v) = trim_space v"
    by (simp add: trim_space_def is_space_def)
  then show ?thesis using k idx by (simp add: render_header_def Let_def)
qed

text \<open>The header map that a list of lines denotes: the last line of a key counts.\<close>

definition header_map :: "(string \<times> string) list \<Rightarrow> (string \<rightharpoonup> string)" where
  "header_map hs = map_of (rev (map (\<lambda>(k, v). (to_lower k, v)) hs))"

lemma parse_header_lines_all:
  "list_all header_ok hs \<Longrightarrow> parse_header_lines m (map render_header hs @ [[], []]) = m ++ header_map hs"
proof (induction hs arbitrary: m)
  case (Cons kv hs)
  obtain k v where kv: "kv = (k, v)" by fastforce
  have "m(to_lower k \<mapsto> v) ++ header_map hs = m ++ header_map (kv # hs)"
    by (auto simp: header_map_def kv map_add_def fun_eq_iff map_of_append split: option.splits)
  then show ?case using Cons header_line [of k v m] by (simp add: kv)
qed (simp add: header_map_def)

lemma render_lines_no_cr:
  assumes "request_ok verb uri hs"
  shows "\<forall>w\<in>set ([verb @ '' '' @ uri @ '' RTSP/1.0''] @ map render_header hs @ [[], []]). CR \<notin> set w"
  using assms by (auto simp: request_ok_def clean_line_def render_header_def list_all_iff header_ok_def CR_def)

lemma parseRequest_render:
  assumes "request_ok verb uri hs"
  shows "parseRequest (render_head verb uri hs) =
    \<lparr>rqMethod = verb, rqURI = uri, rqHeaders = header_map hs\<rparr>"
proof -
  have "split_char (CHR '' '') (verb @ '' '' @ uri @ '' RTSP/1.0'') = [verb, uri, ''RTSP/1.0'']"
    using assms by (simp add: request_ok_def split_char_append)
  moreover have "split_str crlf (render_head verb uri hs) =
      [verb @ '' '' @ uri @ '' RTSP/1.0''] @ map render_header hs @ [[], []]"
    unfolding render_head_def by (rule split_join_crlf [OF render_lines_no_cr [OF assms]]) simp
  ultimately show ?thesis
    using parse_header_lines_all [of hs Map.empty] assms by (simp add: parseRequest_def request_ok_def)
qed

lemma read_line_crlf: "LF \<notin> set l \<Longrightarrow> read_line (l @ crlf @ rest) = Some (l @ crlf, rest)"
proof -
  assume l: "LF \<notin> set l"
  have "takeWhile (\<lambda>c. c \<noteq> LF) (l @ crlf @ rest) = l @ [CR]"
    using l by (simp add: crlf_def takeWhile_append CR_def LF_def)
  then show ?thesis by (simp add: read_line_def crlf_def)
qed

lemma not_suffix_line:
  assumes "l \<noteq> []" "clean_line l"
  shows "\<not> suffix (crlf @ crlf) (buf @ l @ crlf)"
proof
  assume "suffix (crlf @ crlf) (buf @ l @ crlf)"
  then obtain ys where "buf @ l @ crlf = ys @ crlf @ crlf" by (auto simp: suffix_def)
  then have "buf @ l = ys @ crlf" by simp
  then have "last l = LF" using assms(1) by (metis crlf_def last.simps last_appendR list.discI)
  with assms show False by (metis clean_line_def last_in_set)
qed

lemma read_lines:
  assumes "list_all (\<lambda>l. l \<noteq> [] \<and> clean_line l \<and> hd l \<noteq> CHR ''$'') ls"
  shows "read_request_loop buf (concat (map (\<lambda>l. l @ crlf) ls) @ rest) =
    read_request_loop (buf @ concat (map (\<lambda>l. l @ crlf) ls)) rest"
  using assms
proof (induction ls arbitrary: buf)
  case (Cons l ls)
  let ?more = "concat (map (\<lambda>l. l @ crlf) ls) @ rest"
  have l: "l \<noteq> []" "clean_line l" "hd l \<noteq> CHR ''$''" using Cons.prems by auto
  have "read_line (l @ crlf @ ?more) = Some (l @ crlf, ?more)"
    using l(2) by (intro read_line_crlf) (simp add: clean_line_def)
  then have "read_request_loop buf (l @ crlf @ ?more) = read_request_loop (buf @ l @ crlf) ?more"
    using l not_suffix_line [OF l(1,2), of buf] by (subst read_request_loop.simps) (simp add: Let_def)
  then show ?case using Cons by simp
qed simp

text \<open>A frame of interleaved data, as it arrives.\<close>

definition frame_ok :: "string \<Rightarrow> bool" where
  "frame_ok f \<longleftrightarrow> 4 \<le> length f \<and> hd f = CHR ''$'' \<and>
     length f = 4 + of_char (f ! 2) * 256 + of_char (f ! 3)"

definition byte_char :: "byte \<Rightarrow> char" where "byte_char b = char_of (unat b)"

lemma frame_ok_interleaved:
  assumes "length packet < 2 ^ 16"
  shows "frame_ok (map byte_char (interleavedFrame channel packet))"
proof -
  have byte: "of_char (byte_char (byte_of i)) = nat (i mod 256)" for i
    by (simp add: byte_char_def byte_of_def unat_eq_nat_uint uint_word_of_int nat_mod_as_int)
  have "nat (drop_bit 8 (int (length packet)) mod 256) * 256 + nat (int (length packet) mod 256) = length packet"
    using assms by (simp add: drop_bit_eq_div nat_mod_distrib nat_div_distrib)
  moreover have "byte_char (char_byte (CHR ''$'')) = CHR ''$''" by code_simp
  ultimately show ?thesis by (simp add: frame_ok_def interleavedFrame_def byte)
qed

lemma skip_frames:
  "list_all frame_ok fs \<Longrightarrow> read_request_loop buf (concat fs @ rest) = read_request_loop buf rest"
proof (induction fs)
  case (Cons f fs)
  then have f: "frame_ok f" by simp
  then have "f \<noteq> []" "hd f = CHR ''$''" by (auto simp: frame_ok_def)
  moreover have "discardInterleavedFrame (f @ concat fs @ rest) = Some (concat fs @ rest)"
    using f by (simp add: discardInterleavedFrame_def frame_ok_def nth_append)
  ultimately show ?case using Cons by (subst read_request_loop.simps) (simp add: hd_append)
qed simp

definition content_length :: "(string \<times> string) list \<Rightarrow> nat" where
  "content_length hs = nat (fst (atoi_val (case header_map hs ''content-length'' of None \<Rightarrow> [] | Some v \<Rightarrow> v)))"

lemma render_head_lines:
  "render_head verb uri hs =
    concat (map (\<lambda>l. l @ crlf) ((verb @ '' '' @ uri @ '' RTSP/1.0'') # map render_header hs)) @ crlf"
proof -
  have "join crlf (ls @ [[], []]) = concat (map (\<lambda>l. l @ crlf) ls) @ crlf" for ls
    by (induction ls rule: induct_list012) simp_all
  from this [of "(verb @ '' '' @ uri @ '' RTSP/1.0'') # map render_header hs"] show ?thesis
    by (simp add: render_head_def)
qed

definition body_after :: "int \<Rightarrow> request \<Rightarrow> string \<Rightarrow> (request \<times> string) option" where
  "body_after n req rest =
     (if n > 0 then if int (length rest) < n then None else Some (req, drop (nat n) rest)
      else Some (req, rest))"

lemma body_after_taken: "nat n = length body \<Longrightarrow> body_after n req (body @ rest) = Some (req, rest)"
  by (cases "n > 0") (auto simp: body_after_def)

lemma read_head:
  assumes "request_ok verb uri hs" "content_length hs = length body"
  shows "read_request_loop [] (render_head verb uri hs @ body @ rest) =
    Some (\<lparr>rqMethod = verb, rqURI = uri, rqHeaders = header_map hs\<rparr>, rest)"
proof -
  let ?ls = "(verb @ '' '' @ uri @ '' RTSP/1.0'') # map render_header hs"
  let ?buf = "concat (map (\<lambda>l. l @ crlf) ?ls)"
  let ?req = "\<lparr>rqMethod = verb, rqURI = uri, rqHeaders = header_map hs\<rparr>"
  have ls: "list_all (\<lambda>l. l \<noteq> [] \<and> clean_line l \<and> hd l \<noteq> CHR ''$'') ?ls"
    using assms(1) by (auto simp: request_ok_def list_all_iff header_ok_def clean_line_def render_header_def
        CR_def LF_def hd_append)
  have "read_request_loop [] (render_head verb uri hs @ body @ rest) = read_request_loop ?buf (crlf @ body @ rest)"
    using read_lines [OF ls, of "[]"] by (simp add: render_head_lines)
  also have "\<dots> = Some (?req, rest)"
  proof -
    have "read_line (crlf @ body @ rest) = Some (crlf, body @ rest)" using read_line_crlf [of "[]"] by simp
    moreover have "suffix (crlf @ crlf) (?buf @ crlf)"
    proof -
      have "suffix crlf ?buf" by (cases hs rule: rev_cases) (auto simp: suffix_def)
      then show ?thesis by (auto simp: suffix_def)
    qed
    moreover have "parseRequest (?buf @ crlf) = ?req"
      using parseRequest_render [OF assms(1)] by (simp only: render_head_lines)
    moreover have "crlf @ body @ rest \<noteq> []" "hd (crlf @ body @ rest) \<noteq> CHR ''$''"
      by (simp_all add: crlf_def CR_def)
    moreover have "body_after (fst (atoi_val (header ?req ''content-length''))) ?req (body @ rest) = Some (?req, rest)"
      using assms(2) by (intro body_after_taken) (simp add: header_def content_length_def)
    ultimately show ?thesis
      by (subst read_request_loop.simps) (simp only: if_False if_True option.case prod.case Let_def body_after_def)
  qed
  finally show ?thesis .
qed

text \<open>Framing of the connection: whatever complete interleaved frames come before it, the reader
  takes the next request as the client wrote it, with its headers by lower-case key, and the body that
  its Content-Length announces, and leaves exactly the bytes that follow for the next request.\<close>

theorem readRequest_framing:
  assumes "list_all frame_ok frames" "request_ok verb uri hs" "content_length hs = length body"
  shows "readRequest (concat frames @ render_head verb uri hs @ body @ rest) =
    Some (\<lparr>rqMethod = verb, rqURI = uri, rqHeaders = header_map hs\<rparr>, rest)"
  using skip_frames [OF assms(1)] read_head [OF assms(2,3)] by (simp add: readRequest_def)

theorem readRequest_framing_witness:
  "readRequest (concat [[CHR ''$'', CHR 0x00, CHR 0x00, CHR 0x02, CHR ''a'', CHR ''b'']] @
      render_head ''GET_PARAMETER'' ''rtsp://lab/'' [(''CSeq'', ''7''), (''Content-Length'', ''4'')] @ ''ping'' @ ''PLAY'') =
    Some (\<lparr>rqMethod = ''GET_PARAMETER'', rqURI = ''rtsp://lab/'',
      rqHeaders = header_map [(''CSeq'', ''7''), (''Content-Length'', ''4'')]\<rparr>, ''PLAY'')"
proof (rule readRequest_framing)
  show "list_all frame_ok [[CHR ''$'', CHR 0x00, CHR 0x00, CHR 0x02, CHR ''a'', CHR ''b'']]"
    by (simp add: frame_ok_def)
  show "request_ok ''GET_PARAMETER'' ''rtsp://lab/'' [(''CSeq'', ''7''), (''Content-Length'', ''4'')]"
    by code_simp
  show "content_length [(''CSeq'', ''7''), (''Content-Length'', ''4'')] = length ''ping''"
    by code_simp
qed

end
