(* ===== verification/TsPacket.thy ===== *)
theory TsPacket
  imports GoLib
begin

text \<open>
  MPEG transport stream packets (\<open>internal/ts/service.go\<close>): building a packet, reading its PID and
  the start of its payload, the CRC of the tables, and the two fault injectors \<open>MalformedPSI\<close> and
  \<open>ContinuityCounterErrors\<close>. A payload is a byte list; the loops that walk it in steps of 188 bytes
  and change it in place are recursions that return the changed bytes.
\<close>

section \<open>Reading a packet\<close>

definition PID :: "bytes \<Rightarrow> u16" where
  "PID packet =
     (if length packet < 3 then 0 else read_be16 (packet ! 1 AND 0x1F) (packet ! 2))"

definition payloadOffset :: "bytes \<Rightarrow> nat \<times> bool" where
  "payloadOffset packet =
     (let adaptationControl = drop_bit 4 (packet ! 3) AND 0x03
      in if adaptationControl = 0x01 then (4, True)
         else if adaptationControl = 0x03 then
           (let offset = 5 + unat (packet ! 4) in (offset, offset < length packet))
         else (0, False))"

definition psiTableIDOffset :: "bytes \<Rightarrow> nat \<times> bool" where
  "psiTableIDOffset packet =
     (if length packet \<noteq> 188 \<or> packet ! 0 \<noteq> 0x47 then (0, False)
      else case payloadOffset packet of (offset, ok) \<Rightarrow>
        if \<not> ok \<or> offset \<ge> length packet then (0, False)
        else
          let tableIDOffset = offset + 1 + unat (packet ! offset)
          in (tableIDOffset, tableIDOffset < length packet))"

section \<open>Building a packet\<close>

definition syntheticPacket :: "u16 \<Rightarrow> bool \<Rightarrow> byte \<Rightarrow> bytes \<Rightarrow> bytes" where
  "syntheticPacket pid payloadUnitStart continuity payload =
     (let b1 = ucast (drop_bit 8 pid AND 0x1F);
          b1 = (if payloadUnitStart then b1 OR 0x40 else b1);
          payload = (if length payload > 184 then take 184 payload else payload)
      in [0x47, b1, ucast pid, 0x10 OR (continuity AND 0x0F)] @ payload
           @ replicate (184 - length payload) 0xFF)"

section \<open>The CRC of the tables\<close>

definition crc_bit :: "u32 \<Rightarrow> u32" where
  "crc_bit crc =
     (if crc AND 0x80000000 \<noteq> 0 then push_bit 1 crc XOR 0x04C11DB7 else push_bit 1 crc)"

definition crc_byte :: "u32 \<Rightarrow> byte \<Rightarrow> u32" where
  "crc_byte crc b = (crc_bit ^^ 8) (crc XOR push_bit 24 (ucast b))"

definition mpegCRC32 :: "bytes \<Rightarrow> u32" where
  "mpegCRC32 data = foldl crc_byte 0xFFFFFFFF data"

definition appendCRC :: "bytes \<Rightarrow> bytes" where
  "appendCRC sect =
     (let crc = mpegCRC32 sect
      in sect @ [ucast (drop_bit 24 crc), ucast (drop_bit 16 crc), ucast (drop_bit 8 crc), ucast crc])"

section \<open>Fault injection\<close>

text \<open>The body of the loop of \<open>ContinuityCounterErrors\<close>, for one packet.\<close>

definition continuity_error_packet :: "(u16 \<Rightarrow> int) \<Rightarrow> bytes \<Rightarrow> (u16 \<Rightarrow> int) \<times> bytes" where
  "continuity_error_packet seenByPID packet =
     (if packet ! 0 \<noteq> 0x47 then (seenByPID, packet)
      else
        let pid = PID packet;
            seen = seenByPID pid;
            seenByPID = seenByPID(pid := seen + 1)
        in if go_rem seen 2 = 0
           then (seenByPID, packet[3 := ((packet ! 3) AND 0xF0) OR (((packet ! 3) + 7) AND 0x0F)])
           else (seenByPID, packet))"

text \<open>A loop over the whole packets of a payload that rewrites each and carries a state.\<close>

function each_packet :: "('s \<Rightarrow> bytes \<Rightarrow> 's \<times> bytes) \<Rightarrow> 's \<Rightarrow> bytes \<Rightarrow> 's \<times> bytes" where
  "each_packet f s payload =
     (if length payload < 188 then (s, payload)
      else case f s (take 188 payload) of (s', packet) \<Rightarrow>
        case each_packet f s' (drop 188 payload) of (s'', rest) \<Rightarrow> (s'', packet @ rest))"
  by auto
termination by (relation "measure (\<lambda>(f, s, payload). length payload)") auto

declare each_packet.simps [simp del]

definition ContinuityCounterErrors :: "bytes \<Rightarrow> bytes" where
  "ContinuityCounterErrors payload = snd (each_packet continuity_error_packet (\<lambda>_. 0) payload)"

text \<open>\<open>corruptPAT\<close> and \<open>corruptPMT\<close> stop at the first packet they change; the result is the payload
  after the change with what the function returns.\<close>

definition pat_table :: "bytes \<Rightarrow> nat option" where
  "pat_table packet =
     (if PID packet \<noteq> 0 \<or> (packet ! 1) AND 0x40 = 0 then None
      else case psiTableIDOffset packet of (tableIDOffset, ok) \<Rightarrow>
        if \<not> ok \<or> packet ! tableIDOffset \<noteq> 0x00 \<or> tableIDOffset + 12 > length packet then None
        else Some tableIDOffset)"

definition pmt_table :: "u16 \<Rightarrow> bytes \<Rightarrow> nat option" where
  "pmt_table pmtPID packet =
     (if PID packet \<noteq> pmtPID \<or> (packet ! 1) AND 0x40 = 0 then None
      else case psiTableIDOffset packet of (tableIDOffset, ok) \<Rightarrow>
        if \<not> ok \<or> packet ! tableIDOffset \<noteq> 0x02 then None
        else Some tableIDOffset)"

function corruptPAT :: "bytes \<Rightarrow> bytes \<times> u16 option" where
  "corruptPAT payload =
     (if length payload < 188 then (payload, None)
      else
        let packet = take 188 payload
        in case pat_table packet of
             Some i \<Rightarrow> (packet[i := 0xFF] @ drop 188 payload,
               Some (read_be16 (packet ! (i + 10) AND 0x1F) (packet ! (i + 11))))
           | None \<Rightarrow> (case corruptPAT (drop 188 payload) of (rest, r) \<Rightarrow> (packet @ rest, r)))"
  by auto
termination by (relation "measure length") auto

function corruptPMT :: "u16 \<Rightarrow> bytes \<Rightarrow> bytes \<times> bool" where
  "corruptPMT pmtPID payload =
     (if length payload < 188 then (payload, False)
      else
        let packet = take 188 payload
        in case pmt_table pmtPID packet of
             Some i \<Rightarrow> (packet[i := 0xFF] @ drop 188 payload, True)
           | None \<Rightarrow> (case corruptPMT pmtPID (drop 188 payload) of (rest, r) \<Rightarrow> (packet @ rest, r)))"
  by auto
termination by (relation "measure (\<lambda>(pmtPID, payload). length payload)") auto

declare corruptPAT.simps [simp del] corruptPMT.simps [simp del]

definition MalformedPSI :: "bytes \<Rightarrow> bytes" where
  "MalformedPSI payload =
     (case corruptPAT payload of
        (out, Some pmtPID) \<Rightarrow> fst (corruptPMT pmtPID out)
      | (out, None) \<Rightarrow> out)"

section \<open>Packets\<close>

lemma length_syntheticPacket [len_simps]: "length (syntheticPacket pid start cc payload) = 188"
  by (simp add: syntheticPacket_def Let_def)

text \<open>A payload that is a sequence of packets, seen one packet at a time.\<close>

lemma each_packet_Cons:
  assumes "length packet = 188"
  shows "each_packet f s (packet @ rest) =
    (case f s packet of (s', packet') \<Rightarrow>
       case each_packet f s' rest of (s'', rest') \<Rightarrow> (s'', packet' @ rest'))"
  using assms by (subst each_packet.simps) simp

lemma each_packet_short: "length rest < 188 \<Longrightarrow> each_packet f s rest = (s, rest)"
  by (subst each_packet.simps) simp

text \<open>Every payload is whole packets and a rest shorter than a packet.\<close>

lemma packets_induct [case_names short packet]:
  assumes "\<And>rest. length rest < 188 \<Longrightarrow> P rest"
    and "\<And>packet rest. length packet = 188 \<Longrightarrow> P rest \<Longrightarrow> P (packet @ rest)"
  shows "P payload"
proof (induction "length payload" arbitrary: payload rule: less_induct)
  case less
  show ?case
  proof (cases "length payload < 188")
    case False
    then have "P (drop 188 payload)" using less by simp
    with assms(2) [of "take 188 payload" "drop 188 payload"] False show ?thesis by simp
  qed (rule assms(1))
qed

lemma each_packet_length:
  assumes "\<And>s p. length p = 188 \<Longrightarrow> length (snd (f s p)) = 188"
  shows "length (snd (each_packet f s payload)) = length payload"
proof (induction payload arbitrary: s rule: packets_induct)
  case (packet p rest)
  then show ?case
    using assms [of p s] by (auto simp: each_packet_Cons split: prod.splits) (metis snd_conv)
qed (simp add: each_packet_short)


section \<open>The CRC\<close>

lemma crc_bit_def': "crc_bit crc = push_bit 1 crc XOR (if bit crc 31 then 0x04C11DB7 else 0)"
proof -
  have "crc AND 0x80000000 \<noteq> 0 \<longleftrightarrow> bit crc 31"
    using and_exp_eq_0_iff_not_bit [of crc 31] by simp
  then show ?thesis by (simp add: crc_bit_def)
qed

lemma crc_bit_clear: "\<not> bit crc 31 \<Longrightarrow> crc_bit crc = push_bit 1 crc"
  by (simp add: crc_bit_def')

text \<open>A register whose high byte is clear is shifted by a byte.\<close>

lemma crc_bits_clear:
  "k \<le> 8 \<Longrightarrow> (\<And>i. 24 \<le> i \<Longrightarrow> \<not> bit crc i) \<Longrightarrow> (crc_bit ^^ k) crc = push_bit k crc"
proof (induction k)
  case (Suc k)
  then have "\<not> bit (push_bit k crc) 31" by (simp add: bit_push_bit_iff)
  with Suc show ?case by (simp add: crc_bit_clear)
qed simp

lemma crc_byte_top:
  assumes "b = ucast (drop_bit 24 crc)"
  shows "crc_byte crc b = push_bit 8 crc"
proof -
  have clear: "\<not> bit (crc XOR push_bit 24 (ucast b)) i" if "24 \<le> i" for i
    using that assms by (auto simp: bit_simps dest: bit_imp_le_length)
  have "push_bit 8 (crc XOR push_bit 24 (ucast b)) = push_bit 8 crc"
    by (rule bit_word_eqI) (auto simp: bit_simps)
  moreover have "(crc_bit ^^ 8) (crc XOR push_bit 24 (ucast b)) =
      push_bit 8 (crc XOR push_bit 24 (ucast b))"
    by (rule crc_bits_clear) (simp_all add: clear)
  ultimately show ?thesis by (simp add: crc_byte_def)
qed

lemma crc_append: "mpegCRC32 (xs @ ys) = foldl crc_byte (mpegCRC32 xs) ys"
  by (simp add: mpegCRC32_def)

lemma length_appendCRC [len_simps]: "length (appendCRC s) = length s + 4"
  by (simp add: appendCRC_def Let_def)


lemma appendCRC_zero: "mpegCRC32 (appendCRC sect) = 0"
proof -
  define crc where "crc = mpegCRC32 sect"
  have "crc_byte crc (ucast (drop_bit 24 crc)) = push_bit 8 crc"
    by (rule crc_byte_top) simp
  moreover have "crc_byte (push_bit 8 crc) (ucast (drop_bit 16 crc)) = push_bit 8 (push_bit 8 crc)"
    by (rule crc_byte_top, rule bit_word_eqI) (auto simp: bit_simps)
  moreover have "crc_byte (push_bit 16 crc) (ucast (drop_bit 8 crc)) = push_bit 8 (push_bit 16 crc)"
    by (rule crc_byte_top, rule bit_word_eqI) (auto simp: bit_simps)
  moreover have "crc_byte (push_bit 24 crc) (ucast crc) = push_bit 8 (push_bit 24 crc)"
    by (rule crc_byte_top, rule bit_word_eqI) (auto simp: bit_simps)
  moreover have "push_bit 32 crc = 0" by (rule bit_word_eqI) (auto simp: bit_simps)
  ultimately show ?thesis
    by (simp add: appendCRC_def Let_def crc_append crc_def [symmetric])
qed

text \<open>The checksum that the table builders append makes the CRC of the whole section zero,
  which is what a receiver checks, whatever the section.\<close>

theorem appendCRC_residue: "mpegCRC32 (appendCRC sect) = 0"
  by (rule appendCRC_zero)

text \<open>The register is a permutation: bytes that differ at one place are never confused.\<close>

lemma crc_bit_inj: "crc_bit x = crc_bit y \<Longrightarrow> x = y"
proof -
  assume eq: "crc_bit x = crc_bit y"
  have "\<not> bit (push_bit 1 z) 0" for z :: u32 by (simp only: bit_push_bit_iff) simp
  then have low: "bit (crc_bit z) 0 = bit z 31" for z
    unfolding crc_bit_def' bit_xor_iff by simp
  have top: "bit x 31 = bit y 31" using low [of x] low [of y] eq by simp
  have push: "push_bit 1 x = push_bit 1 y"
  proof -
    have "push_bit 1 z = crc_bit z XOR (if bit z 31 then 0x04C11DB7 else 0)" for z
      by (simp add: crc_bit_def' xor.assoc)
    then show ?thesis using eq top by simp
  qed
  show "x = y"
  proof (rule bit_word_eqI)
    fix n assume "n < LENGTH(32)"
    have "bit (push_bit 1 z) (Suc n) = bit z n" if "n \<noteq> 31" for z :: u32
      using that \<open>n < LENGTH(32)\<close> by (simp only: bit_push_bit_iff) simp
    from this [of x] this [of y] show "bit x n = bit y n"
      using top push by (cases "n = 31") metis+
  qed
qed

lemma crc_bits_inj: "(crc_bit ^^ k) x = (crc_bit ^^ k) y \<Longrightarrow> x = y"
  by (induction k) (auto dest: crc_bit_inj)

lemma crc_byte_inj: "crc_byte x b = crc_byte y b \<Longrightarrow> x = y"
proof -
  let ?p = "push_bit 24 (ucast b) :: u32"
  assume "crc_byte x b = crc_byte y b"
  then have "x XOR ?p = y XOR ?p" unfolding crc_byte_def by (rule crc_bits_inj)
  then have "(x XOR ?p) XOR ?p = (y XOR ?p) XOR ?p" by (rule arg_cong)
  then show "x = y" by (simp add: xor.assoc)
qed

lemma crc_fold_inj: "foldl crc_byte x bs = foldl crc_byte y bs \<Longrightarrow> x = y"
  by (induction bs arbitrary: x y) (auto dest: crc_byte_inj)

lemma crc_byte_inj_byte: "crc_byte x b = crc_byte x b' \<Longrightarrow> b = b'"
proof -
  assume "crc_byte x b = crc_byte x b'"
  then have "x XOR push_bit 24 (ucast b) = x XOR push_bit 24 (ucast b')"
    unfolding crc_byte_def by (rule crc_bits_inj)
  then have "x XOR (x XOR push_bit 24 (ucast b)) = x XOR (x XOR push_bit 24 (ucast b'))" by simp
  then have eq: "push_bit 24 (ucast b) = (push_bit 24 (ucast b') :: u32)"
    by (simp flip: xor.assoc)
  show "b = b'"
  proof (rule bit_word_eqI)
    fix n assume "n < LENGTH(8)"
    then show "bit b n = bit b' n"
      using arg_cong [OF eq, of "\<lambda>w. bit w (24 + n)"] by (simp add: bit_simps)
  qed
qed

lemma crc_byte_detected:
  assumes "b \<noteq> b'"
  shows "mpegCRC32 (xs @ b # ys) \<noteq> mpegCRC32 (xs @ b' # ys)"
proof
  assume "mpegCRC32 (xs @ b # ys) = mpegCRC32 (xs @ b' # ys)"
  then have "foldl crc_byte (crc_byte (mpegCRC32 xs) b) ys =
      foldl crc_byte (crc_byte (mpegCRC32 xs) b') ys" by (simp add: crc_append)
  then have "b = b'" by (rule crc_byte_inj_byte [OF crc_fold_inj])
  with assms show False ..
qed


text \<open>C31. A section in which one byte was changed is always detected: its CRC differs from that of
  the original, wherever the byte is.\<close>

theorem mpegCRC32_detects_byte:
  assumes "b \<noteq> b'"
  shows "mpegCRC32 (xs @ b # ys) \<noteq> mpegCRC32 (xs @ b' # ys)"
  by (rule crc_byte_detected [OF assms])

theorem mpegCRC32_detects_byte_witness: "mpegCRC32 [0x00, 0xB0, 0x0D] \<noteq> mpegCRC32 [0xFF, 0xB0, 0x0D]"
  using mpegCRC32_detects_byte [of "0x00" "0xFF" "[]" "[0xB0, 0x0D]"] by simp

section \<open>Reading back a built packet\<close>

lemma synthetic_bytes [simp]:
  "syntheticPacket pid start cc payload ! 0 = 0x47"
  "syntheticPacket pid start cc payload ! Suc 0 =
     ucast (drop_bit 8 pid AND 0x1F) OR (if start then 0x40 else 0)"
  "syntheticPacket pid start cc payload ! 2 = ucast pid"
  "syntheticPacket pid start cc payload ! 3 = 0x10 OR (cc AND 0x0F)"
  "length (syntheticPacket pid start cc payload) = 188"
  by (simp_all add: syntheticPacket_def Let_def)

text \<open>The bits of the masks of the format. \<open>bit_simps\<close> turns a word literal into an integer.\<close>

lemma mask_bits:
  "bit (0x01 :: int) n \<longleftrightarrow> n < 1" "bit (0x03 :: int) n \<longleftrightarrow> n < 2" "bit (0x0F :: int) n \<longleftrightarrow> n < 4"
  "bit (0x1F :: int) n \<longleftrightarrow> n < 5" "bit (0x7F :: int) n \<longleftrightarrow> n < 7" "bit (0xFF :: int) n \<longleftrightarrow> n < 8"
  "bit (0x1FFF :: int) n \<longleftrightarrow> n < 13"
  using bit_mask_iff [where 'a = int, of 1 n] bit_mask_iff [where 'a = int, of 2 n]
    bit_mask_iff [where 'a = int, of 4 n] bit_mask_iff [where 'a = int, of 5 n]
    bit_mask_iff [where 'a = int, of 7 n] bit_mask_iff [where 'a = int, of 8 n]
    bit_mask_iff [where 'a = int, of 13 n]
  by (simp_all add: mask_eq_exp_minus_1)

lemma exp_bits:
  "bit (0x40 :: int) n \<longleftrightarrow> n = 6" "bit (0x10 :: int) n \<longleftrightarrow> n = 4" "bit (0x80 :: int) n \<longleftrightarrow> n = 7"
  using bit_exp_iff [where 'a = int, of 6 n] bit_exp_iff [where 'a = int, of 4 n]
    bit_exp_iff [where 'a = int, of 7 n]
  by auto

lemma PID_syntheticPacket: "PID (syntheticPacket pid start cc payload) = pid AND 0x1FFF"
  by (rule bit_word_eqI) (auto simp: PID_def read_be16_def bit_simps mask_bits exp_bits)

lemma payloadOffset_syntheticPacket: "payloadOffset (syntheticPacket pid start cc payload) = (4, True)"
proof -
  have "drop_bit 4 (0x10 OR (cc AND 0x0F)) AND 0x03 = (0x01 :: byte)"
    by (rule bit_word_eqI) (auto simp: bit_simps mask_bits exp_bits)
  then show ?thesis by (simp add: payloadOffset_def)
qed

lemma drop4_syntheticPacket:
  "length payload \<le> 184 \<Longrightarrow>
     drop 4 (syntheticPacket pid start cc payload) = payload @ replicate (184 - length payload) 0xFF"
  by (simp add: syntheticPacket_def Let_def)


lemma syntheticPacket_fields:
  "let packet = syntheticPacket pid start cc payload in
     length packet = 188 \<and> packet ! 0 = 0x47 \<and> PID packet = pid AND 0x1FFF \<and>
     (((packet ! 1) AND 0x40 \<noteq> 0) = start) \<and> (packet ! 3) AND 0x0F = cc AND 0x0F \<and>
     payloadOffset packet = (4, True) \<and>
     drop 4 packet = take 184 payload @ replicate (184 - length payload) 0xFF"
proof -
  have "(ucast (drop_bit 8 pid AND 0x1F) OR (if start then 0x40 else 0)) AND 0x40 =
      (if start then 0x40 else (0 :: byte))"
    by (rule bit_word_eqI) (auto simp: bit_simps mask_bits exp_bits)
  moreover have "(0x10 OR (cc AND 0x0F)) AND 0x0F = cc AND 0x0F"
    by (rule bit_word_eqI) (auto simp: bit_simps mask_bits exp_bits)
  moreover have "drop 4 (syntheticPacket pid start cc payload) =
      take 184 payload @ replicate (184 - length payload) 0xFF"
    by (simp add: syntheticPacket_def Let_def)
  ultimately show ?thesis
    by (simp add: PID_syntheticPacket payloadOffset_syntheticPacket Let_def)
qed

text \<open>A built packet is 188 bytes long with sync byte 0x47, and reading it gives back the low 13
  bits of the PID, the start flag, the low 4 bits of the continuity counter and, after the header,
  the first 184 bytes of the payload followed by 0xFF stuffing.\<close>

theorem syntheticPacket_roundtrip:
  "let packet = syntheticPacket pid start cc payload in
     length packet = 188 \<and> packet ! 0 = 0x47 \<and> PID packet = pid AND 0x1FFF \<and>
     (((packet ! 1) AND 0x40 \<noteq> 0) = start) \<and> (packet ! 3) AND 0x0F = cc AND 0x0F \<and>
     payloadOffset packet = (4, True) \<and>
     drop 4 packet = take 184 payload @ replicate (184 - length payload) 0xFF"
  by (rule syntheticPacket_fields)

section \<open>The fault injectors\<close>

definition bump_cc :: "bytes \<Rightarrow> bytes" where
  "bump_cc packet = packet[3 := ((packet ! 3) AND 0xF0) OR (((packet ! 3) + 7) AND 0x0F)]"

lemma map_upt_Suc': "map f [0..<Suc n] = f 0 # map (\<lambda>k. f (Suc k)) [0..<n]"
  by (rule map_upt_Suc)

lemma continuity_errors_run:
  assumes "\<And>pid. 0 \<le> seen pid" "\<forall>p\<in>set ps. length p = 188 \<and> p ! 0 = 0x47"
  shows "snd (each_packet continuity_error_packet seen (concat ps)) =
    concat (map (\<lambda>k. if even (seen (PID (ps ! k)) + int (length (filter (\<lambda>q. PID q = PID (ps ! k)) (take k ps))))
      then bump_cc (ps ! k) else ps ! k) [0..<length ps])"
  using assms
proof (induction ps arbitrary: seen)
  case Nil
  then show ?case by (simp add: each_packet_short)
next
  case (Cons p ps)
  let ?seen = "seen(PID p := seen (PID p) + 1)"
  have IH: "snd (each_packet continuity_error_packet ?seen (concat ps)) =
    concat (map (\<lambda>k. if even (?seen (PID (ps ! k)) + int (length (filter (\<lambda>q. PID q = PID (ps ! k)) (take k ps))))
      then bump_cc (ps ! k) else ps ! k) [0..<length ps])"
    using Cons.prems by (intro Cons.IH) (auto intro: add_nonneg_nonneg)
  have "go_rem (seen (PID p)) 2 = 0 \<longleftrightarrow> even (seen (PID p))"
    using Cons.prems(1) [of "PID p"] by (simp add: go_rem_nonneg even_iff_mod_2_eq_zero)
  then have "continuity_error_packet seen p =
      (?seen, if even (seen (PID p)) then bump_cc p else p)"
    using Cons.prems(2) by (simp add: continuity_error_packet_def bump_cc_def Let_def)
  then have "snd (each_packet continuity_error_packet seen (concat (p # ps))) =
      (if even (seen (PID p)) then bump_cc p else p) @
        snd (each_packet continuity_error_packet ?seen (concat ps))"
    using Cons.prems(2) by (simp add: each_packet_Cons split: prod.splits)
  then show ?case
    unfolding IH list.size(4) add_Suc_right add_0_right map_upt_Suc'
    by (auto intro!: arg_cong [where f = concat] map_cong)
qed

text \<open>\<open>ContinuityCounterErrors\<close> bumps the continuity counter of every second packet of each PID,
  beginning with its first, and changes nothing else of the stream.\<close>

theorem ContinuityCounterErrors_alternate:
  assumes "\<forall>p\<in>set ps. length p = 188 \<and> p ! 0 = 0x47"
  shows "ContinuityCounterErrors (concat ps) =
    concat (map (\<lambda>k. if even (length (filter (\<lambda>q. PID q = PID (ps ! k)) (take k ps)))
      then bump_cc (ps ! k) else ps ! k) [0..<length ps])"
  unfolding ContinuityCounterErrors_def by (subst continuity_errors_run) (use assms in simp_all)

theorem ContinuityCounterErrors_alternate_witness:
  "let a = syntheticPacket 5 True 0 []; b = syntheticPacket 5 False 1 []; c = syntheticPacket 6 False 4 [] in
     ContinuityCounterErrors (concat [a, c, b]) = bump_cc a @ bump_cc c @ b"
proof -
  have "PID (syntheticPacket 5 s cc []) = 5" "PID (syntheticPacket 6 s cc []) = 6" for s cc
    by (simp_all add: PID_syntheticPacket)
  then show ?thesis
    using ContinuityCounterErrors_alternate
      [of "[syntheticPacket 5 True 0 [], syntheticPacket 6 False 4 [], syntheticPacket 5 False 1 []]"]
    by (simp add: Let_def upt_rec)
qed

lemma corruptPAT_Cons:
  "length packet = 188 \<Longrightarrow> corruptPAT (packet @ rest) =
     (case pat_table packet of
        Some i \<Rightarrow> (packet[i := 0xFF] @ rest,
          Some (read_be16 (packet ! (i + 10) AND 0x1F) (packet ! (i + 11))))
      | None \<Rightarrow> (case corruptPAT rest of (rest', r) \<Rightarrow> (packet @ rest', r)))"
  by (subst corruptPAT.simps) (auto split: option.splits)

lemma corruptPMT_Cons:
  "length packet = 188 \<Longrightarrow> corruptPMT pid (packet @ rest) =
     (case pmt_table pid packet of
        Some i \<Rightarrow> (packet[i := 0xFF] @ rest, True)
      | None \<Rightarrow> (case corruptPMT pid rest of (rest', r) \<Rightarrow> (packet @ rest', r)))"
  by (subst corruptPMT.simps) (auto split: option.splits)

lemma corruptPAT_at: "\<exists>i. fst (corruptPAT payload) = payload[i := 0xFF]"
proof (induction payload rule: packets_induct)
  case (short rest)
  then show ?case by (subst corruptPAT.simps) (simp, metis list_update_beyond order_refl)
next
  case (packet p rest)
  then obtain i where i: "fst (corruptPAT rest) = rest[i := 0xFF]" by blast
  show ?case
  proof (cases "pat_table p")
    case None
    then have "fst (corruptPAT (p @ rest)) = (p @ rest)[188 + i := 0xFF]"
      using packet i by (cases "corruptPAT rest") (simp add: corruptPAT_Cons list_update_append)
    then show ?thesis ..
  next
    case (Some j)
    then have "j < length p"
      using packet by (auto simp: pat_table_def psiTableIDOffset_def split: if_splits prod.splits)
    with Some packet have "fst (corruptPAT (p @ rest)) = (p @ rest)[j := 0xFF]"
      by (simp add: corruptPAT_Cons list_update_append1)
    then show ?thesis ..
  qed
qed

lemma corruptPMT_at: "\<exists>i. fst (corruptPMT pid payload) = payload[i := 0xFF]"
proof (induction payload rule: packets_induct)
  case (short rest)
  then show ?case by (subst corruptPMT.simps) (simp, metis list_update_beyond order_refl)
next
  case (packet p rest)
  then obtain i where i: "fst (corruptPMT pid rest) = rest[i := 0xFF]" by blast
  show ?case
  proof (cases "pmt_table pid p")
    case None
    then have "fst (corruptPMT pid (p @ rest)) = (p @ rest)[188 + i := 0xFF]"
      using packet i by (cases "corruptPMT pid rest") (simp add: corruptPMT_Cons list_update_append)
    then show ?thesis ..
  next
    case (Some j)
    then have "j < length p"
      using packet by (auto simp: pmt_table_def psiTableIDOffset_def Let_def split: if_splits prod.splits)
    with Some packet have "fst (corruptPMT pid (p @ rest)) = (p @ rest)[j := 0xFF]"
      by (simp add: corruptPMT_Cons list_update_append1)
    then show ?thesis ..
  qed
qed

text \<open>\<open>MalformedPSI\<close> keeps the length of any payload and overwrites at most two of its bytes.\<close>

lemma MalformedPSI_at: "\<exists>i j. MalformedPSI payload = payload[i := 0xFF, j := 0xFF]"
proof -
  obtain i where i: "fst (corruptPAT payload) = payload[i := 0xFF]" using corruptPAT_at by blast
  show ?thesis
  proof (cases "snd (corruptPAT payload)")
    case None
    then have "MalformedPSI payload = payload[i := 0xFF, i := 0xFF]"
      using i by (cases "corruptPAT payload") (simp add: MalformedPSI_def)
    then show ?thesis by blast
  next
    case (Some pid)
    obtain j where "fst (corruptPMT pid (payload[i := 0xFF])) = payload[i := 0xFF, j := 0xFF]"
      using corruptPMT_at by blast
    then have "MalformedPSI payload = payload[i := 0xFF, j := 0xFF]"
      using i Some by (auto simp: MalformedPSI_def split: prod.splits)
    then show ?thesis by blast
  qed
qed

end
