(* ===== verification/TsLoop.thy ===== *)
theory TsLoop
  imports TsPacket "HOL-Library.Multiset"
begin

text \<open>
  The looping of a finite payload (\<open>internal/ts/loop.go\<close> and \<open>ChunkAt\<close> of \<open>internal/ts/source.go\<close>):
  reading and rewriting PCR, PTS and DTS, the duration of a pass, the continuity counters, and
  \<open>TimestampLoop.Next\<close>. An \<open>int64\<close> timestamp is an integer (all of them stay far below 2^63). The
  callback of \<open>visitTransportTimestamps\<close> is a function on a state and the bytes it may overwrite. The
  slices of Go alias the payload; here each operation returns the bytes after its writes.
\<close>

section \<open>Timestamp fields\<close>

definition timestampMask :: int where "timestampMask = 2 ^ 33 - 1"
definition timestampHalfRange :: int where "timestampHalfRange = 2 ^ 32"
definition defaultTimestampStep :: int where "defaultTimestampStep = 3600"

definition readPCRBase :: "bytes \<Rightarrow> int" where
  "readPCRBase encoded =
     push_bit 25 (uint (encoded ! 0)) OR push_bit 17 (uint (encoded ! 1)) OR
     push_bit 9 (uint (encoded ! 2)) OR push_bit 1 (uint (encoded ! 3)) OR
     uint (drop_bit 7 (encoded ! 4))"

definition writePCRBase :: "bytes \<Rightarrow> int \<Rightarrow> bytes" where
  "writePCRBase encoded v =
     encoded[0 := byte_of (drop_bit 25 v), 1 := byte_of (drop_bit 17 v), 2 := byte_of (drop_bit 9 v),
       3 := byte_of (drop_bit 1 v),
       4 := (encoded ! 4 AND 0x7F) OR push_bit 7 (byte_of (v AND 1))]"

definition readPESTimestamp :: "bytes \<Rightarrow> int" where
  "readPESTimestamp encoded =
     push_bit 29 (uint (encoded ! 0 AND 0x0E)) OR push_bit 22 (uint (encoded ! 1)) OR
     push_bit 14 (uint (encoded ! 2 AND 0xFE)) OR push_bit 7 (uint (encoded ! 3)) OR
     uint (drop_bit 1 (encoded ! 4))"

definition writePESTimestamp :: "bytes \<Rightarrow> int \<Rightarrow> bytes" where
  "writePESTimestamp encoded v =
     (let prefix = encoded ! 0 AND 0xF0
      in encoded[0 := (prefix OR byte_of (drop_bit 29 v AND 0x0E)) OR 0x01,
           1 := byte_of (drop_bit 22 v), 2 := byte_of (drop_bit 14 v AND 0xFE) OR 0x01,
           3 := byte_of (drop_bit 7 v), 4 := byte_of (push_bit 1 v) OR 0x01])"

section \<open>Visiting the timestamps of a payload\<close>

type_synonym 's visitor = "'s \<Rightarrow> u16 \<Rightarrow> char \<Rightarrow> int \<Rightarrow> bytes \<Rightarrow> 's \<times> bytes"

text \<open>Overwriting the bytes from a position on.\<close>

definition patch :: "nat \<Rightarrow> bytes \<Rightarrow> bytes \<Rightarrow> bytes" where
  "patch i new packet = take i packet @ new @ drop (i + length new) packet"

definition visitPCR :: "'s visitor \<Rightarrow> 's \<Rightarrow> bytes \<Rightarrow> u16 \<Rightarrow> 's \<times> bytes" where
  "visitPCR visit s packet pid =
     (let adaptationControl = drop_bit 4 (packet ! 3) AND 0x03
      in if adaptationControl \<noteq> 0x02 \<and> adaptationControl \<noteq> 0x03 then (s, packet)
         else if packet ! 4 < 7 \<or> (packet ! 5) AND 0x10 = 0 then (s, packet)
         else
           let encoded = take 6 (drop 6 packet)
           in case visit s pid (CHR ''R'') (readPCRBase encoded) encoded of
                (s, encoded) \<Rightarrow> (s, patch 6 encoded packet))"

definition visitPESTimestamps :: "'s visitor \<Rightarrow> 's \<Rightarrow> bytes \<Rightarrow> u16 \<Rightarrow> 's \<times> bytes" where
  "visitPESTimestamps visit s packet pid =
     (if (packet ! 1) AND 0x40 = 0 then (s, packet)
      else case payloadOffset packet of (payloadStart, ok) \<Rightarrow>
        if \<not> ok \<or> payloadStart + 14 > length packet then (s, packet)
        else
          let pes = drop payloadStart packet in
          if pes ! 0 \<noteq> 0x00 \<or> pes ! 1 \<noteq> 0x00 \<or> pes ! 2 \<noteq> 0x01 then (s, packet)
          else
            let flags = drop_bit 6 (pes ! 7) AND 0x03 in
            if flags \<noteq> 0x02 \<and> flags \<noteq> 0x03 then (s, packet)
            else
              let pts = take 5 (drop 9 pes)
              in case visit s pid (CHR ''P'') (readPESTimestamp pts) pts of (s, pts) \<Rightarrow>
                let packet = patch (payloadStart + 9) pts packet;
                    pes = drop payloadStart packet
                in if flags = 0x03 \<and> length pes \<ge> 19 then
                     let dts = take 5 (drop 14 pes)
                     in case visit s pid (CHR ''D'') (readPESTimestamp dts) dts of
                          (s, dts) \<Rightarrow> (s, patch (payloadStart + 14) dts packet)
                   else (s, packet))"

definition visit_packet :: "'s visitor \<Rightarrow> 's \<Rightarrow> bytes \<Rightarrow> 's \<times> bytes" where
  "visit_packet visit s packet =
     (if packet ! 0 \<noteq> 0x47 then (s, packet)
      else
        let pid = PID packet
        in case visitPCR visit s packet pid of (s, packet) \<Rightarrow>
             visitPESTimestamps visit s packet pid)"

definition visitTransportTimestamps :: "'s visitor \<Rightarrow> 's \<Rightarrow> bytes \<Rightarrow> 's \<times> bytes" where
  "visitTransportTimestamps visit s payload = each_packet (visit_packet visit) s payload"

definition rewriteTimestamps :: "bytes \<Rightarrow> int \<Rightarrow> bytes" where
  "rewriteTimestamps payload offset =
     (if offset = 0 then payload
      else snd (visitTransportTimestamps
        (\<lambda>s pid kind raw encoded.
           let shifted = (raw + offset) AND timestampMask
           in (s, if kind = CHR ''R'' then writePCRBase encoded shifted
                  else writePESTimestamp encoded shifted)) () payload))"

section \<open>The duration of a pass\<close>

record timestamp_track =
  ttInitialized :: bool
  ttPreviousRaw :: int
  ttCurrent :: int
  ttMinimum :: int
  ttMaximum :: int
  ttMinimumStep :: int
  ttObserved :: int

definition new_track :: timestamp_track where
  "new_track = \<lparr>ttInitialized = False, ttPreviousRaw = 0, ttCurrent = 0, ttMinimum = 0,
     ttMaximum = 0, ttMinimumStep = 0, ttObserved = 0\<rparr>"

definition track_observe :: "int \<Rightarrow> timestamp_track \<Rightarrow> timestamp_track" where
  "track_observe raw t =
     (if \<not> ttInitialized t then
        t\<lparr>ttInitialized := True, ttPreviousRaw := raw, ttCurrent := raw, ttMinimum := raw,
          ttMaximum := raw, ttObserved := 1\<rparr>
      else
        let t = t\<lparr>ttObserved := ttObserved t + 1\<rparr>;
            delta = (raw - ttPreviousRaw t) AND timestampMask;
            delta = (if delta \<ge> timestampHalfRange then delta - (timestampMask + 1) else delta);
            t = t\<lparr>ttCurrent := ttCurrent t + delta, ttPreviousRaw := raw\<rparr>;
            t = (if ttCurrent t < ttMinimum t then t\<lparr>ttMinimum := ttCurrent t\<rparr> else t);
            t = (if ttCurrent t > ttMaximum t then t\<lparr>ttMaximum := ttCurrent t\<rparr> else t)
        in (if delta > 0 \<and> (ttMinimumStep t = 0 \<or> delta < ttMinimumStep t)
            then t\<lparr>ttMinimumStep := delta\<rparr> else t))"

text \<open>The map of tracks. A range over it yields the entries in some order; the model keeps them in a
  list, in the order of their first sight, and the result is shown not to depend on the order.\<close>

type_synonym tracks = "((u16 \<times> char) \<times> timestamp_track) list"

fun observe_key :: "u16 \<times> char \<Rightarrow> int \<Rightarrow> tracks \<Rightarrow> tracks" where
  "observe_key key raw [] = [(key, track_observe raw new_track)]"
| "observe_key key raw ((k, t) # rest) =
     (if k = key then (k, track_observe raw t) # rest else (k, t) # observe_key key raw rest)"

definition duration_candidate :: "char \<Rightarrow> int \<Rightarrow> (u16 \<times> char) \<times> timestamp_track \<Rightarrow> int" where
  "duration_candidate kind dur entry =
     (case entry of (key, t) \<Rightarrow>
        if snd key \<noteq> kind \<or> ttObserved t < 2 then dur
        else if ttMinimumStep t = 0 then dur
        else
          let candidate = ttMaximum t - ttMinimum t + ttMinimumStep t
          in if candidate > dur then candidate else dur)"

definition timestampDurationForKind :: "tracks \<Rightarrow> char \<Rightarrow> int option" where
  "timestampDurationForKind tracks kind =
     (let dur = foldl (duration_candidate kind) 0 tracks in if dur > 0 then Some dur else None)"

fun first_duration :: "tracks \<Rightarrow> string \<Rightarrow> int" where
  "first_duration tracks [] = defaultTimestampStep"
| "first_duration tracks (kind # kinds) =
     (case timestampDurationForKind tracks kind of
        Some d \<Rightarrow> d | None \<Rightarrow> first_duration tracks kinds)"

definition payload_tracks :: "bytes \<Rightarrow> tracks" where
  "payload_tracks payload = fst (visitTransportTimestamps
     (\<lambda>tracks pid kind raw encoded. (observe_key (pid, kind) raw tracks, encoded)) [] payload)"

definition timestampCycleDuration :: "bytes \<Rightarrow> int" where
  "timestampCycleDuration payload = first_duration (payload_tracks payload) ''RDP''"

section \<open>Continuity counters\<close>

definition rewrite_cc_packet :: "bool \<Rightarrow> (u16 \<rightharpoonup> byte) \<Rightarrow> bytes \<Rightarrow> (u16 \<rightharpoonup> byte) \<times> bytes" where
  "rewrite_cc_packet preserveErrors nextByPID packet =
     (if packet ! 0 \<noteq> 0x47 then (nextByPID, packet)
      else
        let adaptationControl = drop_bit 4 (packet ! 3) AND 0x03;
            hasPayload = (adaptationControl = 0x01 \<or> adaptationControl = 0x03)
        in if adaptationControl = 0x00 then (nextByPID, packet)
           else
             let pid = PID packet; current = packet ! 3 AND 0x0F in
             if preserveErrors then
               (if hasPayload \<or> nextByPID pid = None
                then (nextByPID(pid \<mapsto> (current + 1) AND 0x0F), packet)
                else (nextByPID, packet))
             else if nextByPID pid = None \<and> \<not> hasPayload
             then (nextByPID(pid \<mapsto> (current + 1) AND 0x0F), packet)
             else
               let next = (case nextByPID pid of None \<Rightarrow> current | Some n \<Rightarrow> n) in
               if hasPayload
               then (nextByPID(pid \<mapsto> (next + 1) AND 0x0F), packet[3 := (packet ! 3 AND 0xF0) OR next])
               else (nextByPID, packet[3 := (packet ! 3 AND 0xF0) OR ((next + 15) AND 0x0F)]))"

definition rewriteContinuityCounters :: "bytes \<Rightarrow> (u16 \<rightharpoonup> byte) \<Rightarrow> bool \<Rightarrow> (u16 \<rightharpoonup> byte) \<times> bytes" where
  "rewriteContinuityCounters payload nextByPID preserveErrors =
     each_packet (rewrite_cc_packet preserveErrors) nextByPID payload"

section \<open>Chunks and the loop\<close>

definition chunkSize :: int where "chunkSize = 1316"

text \<open>\<open>ChunkAt\<close> returns the chunk and the next offset.\<close>

definition ChunkAt :: "bytes \<Rightarrow> int \<Rightarrow> bytes \<times> int" where
  "ChunkAt payload offset =
     (if payload = [] then ([], 0)
      else
        let offset = (if offset < 0 \<or> offset \<ge> int (length payload) then 0 else offset);
            end' = offset + chunkSize
        in if end' \<ge> int (length payload) then (drop (nat offset) payload, 0)
           else (take (nat end' - nat offset) (drop (nat offset) payload), end'))"

record timestamp_loop =
  tlpKey :: string
  tlpPayload :: bytes
  tlpRendered :: "bytes option"
  tlpOffset :: int
  tlpNextLoop :: bool
  tlpTimestampOffset :: int
  tlpCycleDuration :: int
  tlpContinuity :: "u16 \<rightharpoonup> byte"

definition new_loop :: timestamp_loop where
  "new_loop = \<lparr>tlpKey = '''', tlpPayload = [], tlpRendered = None, tlpOffset = 0,
     tlpNextLoop = False, tlpTimestampOffset = 0, tlpCycleDuration = 0, tlpContinuity = Map.empty\<rparr>"

definition loop_load :: "string \<Rightarrow> bytes \<Rightarrow> timestamp_loop \<Rightarrow> timestamp_loop" where
  "loop_load key payload l =
     (if tlpRendered l = None \<or> key \<noteq> tlpKey l then
        let rendered = rewriteTimestamps payload (tlpTimestampOffset l)
        in l\<lparr>tlpKey := key, tlpPayload := payload, tlpCycleDuration := timestampCycleDuration payload,
             tlpRendered := Some rendered,
             tlpOffset := (if tlpOffset l < 0 \<or> tlpOffset l \<ge> int (length rendered) then 0
                           else tlpOffset l)\<rparr>
      else l)"

definition loop_wrap :: "timestamp_loop \<Rightarrow> timestamp_loop" where
  "loop_wrap l =
     (if tlpNextLoop l then
        let offset = (tlpTimestampOffset l + tlpCycleDuration l) AND timestampMask
        in l\<lparr>tlpTimestampOffset := offset, tlpRendered := Some (rewriteTimestamps (tlpPayload l) offset),
             tlpOffset := 0, tlpNextLoop := False\<rparr>
      else l)"

text \<open>The chunk is a slice of the rendered payload, so the new counters are also written there.\<close>

definition Next :: "string \<Rightarrow> bytes \<Rightarrow> bool \<Rightarrow> timestamp_loop \<Rightarrow> bytes \<times> timestamp_loop" where
  "Next key payload preserveContinuityErrors l =
     (if payload = [] then ([], l)
      else
        let l = loop_wrap (loop_load key payload l);
            rendered = the (tlpRendered l);
            (chunk, next) = ChunkAt rendered (tlpOffset l);
            (continuity, chunk') = rewriteContinuityCounters chunk (tlpContinuity l)
              preserveContinuityErrors;
            from = (if tlpOffset l < 0 \<or> tlpOffset l \<ge> int (length rendered) then 0
                    else nat (tlpOffset l))
        in (chunk', l\<lparr>tlpRendered := Some (patch from chunk' rendered), tlpContinuity := continuity,
              tlpOffset := next, tlpNextLoop := (next = 0)\<rparr>))"


section \<open>The codec of a timestamp field\<close>

locale timestamp_field =
  fixes width :: nat
    and get :: "bytes \<Rightarrow> int"
    and put :: "bytes \<Rightarrow> int \<Rightarrow> bytes"
  assumes put_length: "length (put enc v) = length enc"
    and get_range: "5 \<le> length enc \<Longrightarrow> 0 \<le> get enc \<and> get enc < 2 ^ 33"
    and get_put: "5 \<le> length enc \<Longrightarrow> 0 \<le> v \<Longrightarrow> v < 2 ^ 33 \<Longrightarrow> get (put enc v) = v"
    and width_ge: "5 \<le> width"
begin

lemma shifted_range: "0 \<le> (x :: int) AND timestampMask \<and> x AND timestampMask < 2 ^ 33"
  and shifted_mod: "x AND timestampMask = x mod 2 ^ 33"
proof -
  have "timestampMask = mask 33" by (simp add: timestampMask_def mask_eq_exp_minus_1)
  then show "x AND timestampMask = x mod 2 ^ 33" by (metis take_bit_eq_mask take_bit_eq_mod)
  then show "0 \<le> x AND timestampMask \<and> x AND timestampMask < 2 ^ 33" by simp
qed

text \<open>Reading a shifted field.\<close>

lemma get_shift:
  "length enc = width \<Longrightarrow> get (put enc ((get enc + offset) AND timestampMask)) =
     (get enc + offset) mod 2 ^ 33"
  using shifted_range [of "get enc + offset"] shifted_mod [of "get enc + offset"] get_put [of enc] width_ge
  by simp

end

lemma int_bit_less: "0 \<le> v \<Longrightarrow> v < 2 ^ n \<Longrightarrow> bit v k \<Longrightarrow> k < n" for v :: int
proof (rule ccontr)
  assume v: "0 \<le> v" "v < 2 ^ n" "bit v k" "\<not> k < n"
  then have "take_bit n v = v" by (simp add: take_bit_int_eq_self)
  then have "bit (take_bit n v) k" using v(3) by simp
  with v(4) show False by (simp add: bit_take_bit_iff)
qed

lemma int_less_by_bits: "0 \<le> v \<Longrightarrow> (\<And>k. bit v k \<Longrightarrow> k < n) \<Longrightarrow> v < 2 ^ n" for v :: int
proof -
  assume v: "0 \<le> v" "\<And>k. bit v k \<Longrightarrow> k < n"
  have "take_bit n v = v" by (rule bit_eqI) (auto simp: bit_take_bit_iff dest: v(2))
  then show ?thesis by (metis take_bit_int_less_exp)
qed

lemma byte_bit: "bit (b :: byte) k \<Longrightarrow> k < 8"
  using bit_imp_le_length [of b k] by simp

lemma bit_shifted_byte:
  "bit (push_bit k (uint (b :: byte))) n \<longleftrightarrow> k \<le> n \<and> n < k + 8 \<and> bit b (n - k)"
  unfolding bit_push_bit_iff bit_uint_iff using byte_bit [of b "n - k"] by auto

lemma bit_dropped_byte: "bit (uint (drop_bit k (b :: byte))) n \<longleftrightarrow> n + k < 8 \<and> bit b (n + k)"
  using byte_bit [of b "n + k"] by (auto simp: bit_uint_iff bit_drop_bit_eq add.commute)

lemma pcr_bits:
  "bit (readPCRBase e) n \<longleftrightarrow>
     (25 \<le> n \<and> n < 33 \<and> bit (e ! 0) (n - 25)) \<or> (17 \<le> n \<and> n < 25 \<and> bit (e ! 1) (n - 17)) \<or>
     (9 \<le> n \<and> n < 17 \<and> bit (e ! 2) (n - 9)) \<or> (1 \<le> n \<and> n < 9 \<and> bit (e ! 3) (n - 1)) \<or>
     (n < 1 \<and> bit (e ! 4) (n + 7))"
  unfolding readPCRBase_def bit_or_iff bit_shifted_byte bit_dropped_byte by simp


text \<open>The bits of a byte literal, by checking the eight of them.\<close>

lemma byte_bits_check:
  assumes "list_all (\<lambda>k. bit c k = P k) [0..<8]" "\<And>k. 8 \<le> k \<Longrightarrow> \<not> P k"
  shows "bit (c :: byte) k = P k"
  using assms byte_bit [of c k] by (cases "k < 8") (auto simp: list_all_iff)

lemma pes_mask_bits:
  "bit (0x0E :: byte) k \<longleftrightarrow> 1 \<le> k \<and> k < 4" "bit (0xFE :: byte) k \<longleftrightarrow> 1 \<le> k \<and> k < 8"
  "bit (0xF0 :: byte) k \<longleftrightarrow> 4 \<le> k \<and> k < 8" "bit (0x7F :: byte) k \<longleftrightarrow> k < 7"
  "bit (0x01 :: byte) k \<longleftrightarrow> k = 0"
  by (rule byte_bits_check; code_simp | simp)+

lemma pes_bits:
  "bit (readPESTimestamp e) n \<longleftrightarrow>
     (30 \<le> n \<and> n < 33 \<and> bit (e ! 0) (n - 29)) \<or> (22 \<le> n \<and> n < 30 \<and> bit (e ! 1) (n - 22)) \<or>
     (15 \<le> n \<and> n < 22 \<and> bit (e ! 2) (n - 14)) \<or> (7 \<le> n \<and> n < 15 \<and> bit (e ! 3) (n - 7)) \<or>
     (n < 7 \<and> bit (e ! 4) (n + 1))"
  unfolding readPESTimestamp_def bit_or_iff bit_shifted_byte bit_dropped_byte bit_and_iff
    pes_mask_bits by auto

lemma int_nonneg_bits: "0 \<le> readPCRBase e" "0 \<le> readPESTimestamp e"
  by (simp_all add: readPCRBase_def readPESTimestamp_def)

lemma bit_byte_drop: "bit (byte_of (drop_bit k v)) n \<longleftrightarrow> n < 8 \<and> bit v (k + n)"
  by (simp add: byte_of_def bit_word_of_int_iff bit_drop_bit_eq)


lemma bit_byte_piece:
  "k \<le> n \<and> n < m \<and> bit (byte_of (drop_bit k v)) (n - k) \<longleftrightarrow> k \<le> n \<and> n < m \<and> n < k + 8 \<and> bit v n"
  unfolding bit_byte_drop by auto

lemma pcr_get_put:
  assumes "5 \<le> length e" "0 \<le> v" "v < 2 ^ 33"
  shows "readPCRBase (writePCRBase e v) = v"
proof (rule bit_eqI)
  fix n
  let ?w = "writePCRBase e v"
  have w: "?w ! 0 = byte_of (drop_bit 25 v)" "?w ! 1 = byte_of (drop_bit 17 v)"
      "?w ! 2 = byte_of (drop_bit 9 v)" "?w ! 3 = byte_of (drop_bit 1 v)"
      "?w ! 4 = (e ! 4 AND 0x7F) OR push_bit 7 (byte_of (v AND 1))"
    using assms(1) by (simp_all add: writePCRBase_def nth_list_update del: length_greater_0_conv)
  have "bit (?w ! 4) (k + 7) \<longleftrightarrow> bit v 0" if "k < 1" for k
    using that unfolding w bit_or_iff bit_and_iff pes_mask_bits
    by (auto simp: bit_push_bit_iff byte_of_def bit_word_of_int_iff bit_and_iff bit_1_iff)
  from this [of n] have b4: "n < 1 \<and> bit (?w ! 4) (n + 7) \<longleftrightarrow> n < 1 \<and> bit v n" by auto
  show "bit (readPCRBase ?w) n = bit v n"
    unfolding pcr_bits b4 unfolding w(1-4)
      bit_byte_piece [where m = 33] bit_byte_piece [where m = 25] bit_byte_piece [where m = 17]
      bit_byte_piece [where m = 9]
    using int_bit_less [OF assms(2,3), of n] by auto
qed

lemma pes_get_put:
  assumes "5 \<le> length e" "0 \<le> v" "v < 2 ^ 33"
  shows "readPESTimestamp (writePESTimestamp e v) = v"
proof (rule bit_eqI)
  fix n
  let ?w = "writePESTimestamp e v"
  have w: "?w ! 0 = ((e ! 0 AND 0xF0) OR byte_of (drop_bit 29 v AND 0x0E)) OR 0x01"
      "?w ! 1 = byte_of (drop_bit 22 v)" "?w ! 2 = byte_of (drop_bit 14 v AND 0xFE) OR 0x01"
      "?w ! 3 = byte_of (drop_bit 7 v)" "?w ! 4 = byte_of (push_bit 1 v) OR 0x01"
    using assms(1) by (simp_all add: writePESTimestamp_def Let_def nth_list_update del: length_greater_0_conv)
  have m: "bit (0x0E :: int) k \<longleftrightarrow> 1 \<le> k \<and> k < 4" "bit (0xFE :: int) k \<longleftrightarrow> 1 \<le> k \<and> k < 8" for k
    using bit_push_bit_iff [of 1 "mask 3 :: int" k] bit_push_bit_iff [of 1 "mask 7 :: int" k]
      bit_mask_iff [where 'a = int, of 3 "k - 1"] bit_mask_iff [where 'a = int, of 7 "k - 1"]
    by (auto simp: mask_eq_exp_minus_1)
  have b0: "30 \<le> k \<and> k < 33 \<and> bit (?w ! 0) (k - 29) \<longleftrightarrow> 30 \<le> k \<and> k < 33 \<and> bit v k" for k
    unfolding w bit_or_iff bit_and_iff pes_mask_bits byte_of_def bit_word_of_int_iff m bit_drop_bit_eq
    by auto
  have b2: "15 \<le> k \<and> k < 22 \<and> bit (?w ! 2) (k - 14) \<longleftrightarrow> 15 \<le> k \<and> k < 22 \<and> bit v k" for k
    unfolding w bit_or_iff bit_and_iff pes_mask_bits byte_of_def bit_word_of_int_iff m bit_drop_bit_eq
    by auto
  have b4: "k < 7 \<and> bit (?w ! 4) (k + 1) \<longleftrightarrow> k < 7 \<and> bit v k" for k
    unfolding w bit_or_iff pes_mask_bits byte_of_def bit_word_of_int_iff bit_push_bit_iff
    by auto
  show "bit (readPESTimestamp ?w) n = bit v n"
    unfolding pes_bits b0 b2 b4 unfolding w(2,4)
      bit_byte_piece [where m = 30] bit_byte_piece [where m = 15]
    using int_bit_less [OF assms(2,3), of n] by auto
qed

text \<open>Both fields are codecs of 33-bit values; the PCR field is six bytes wide, of which it uses
  five.\<close>

interpretation pcr: timestamp_field 6 readPCRBase writePCRBase
proof
  show "0 \<le> readPCRBase e \<and> readPCRBase e < 2 ^ 33" for e
  proof (intro conjI int_less_by_bits int_nonneg_bits)
    show "k < 33" if "bit (readPCRBase e) k" for k using that unfolding pcr_bits by auto
  qed
qed (simp_all add: pcr_get_put, simp add: writePCRBase_def)

interpretation pes: timestamp_field 5 readPESTimestamp writePESTimestamp
proof
  show "0 \<le> readPESTimestamp e \<and> readPESTimestamp e < 2 ^ 33" for e
  proof (intro conjI int_less_by_bits int_nonneg_bits)
    show "k < 33" if "bit (readPESTimestamp e) k" for k using that unfolding pes_bits by auto
  qed
qed (simp_all add: pes_get_put, simp add: writePESTimestamp_def Let_def)

end
