(* ===== verification/TsStamps.thy ===== *)
theory TsStamps
  imports TsLoop
begin

text \<open>
  What the timestamp visitor of \<open>internal/ts/loop.go\<close> sees and writes: the timestamp fields of a
  packet as a list of slots, the timestamps of a payload as a list, and the theorem that
  \<open>rewriteTimestamps\<close> shifts every one of them modulo 2^33. The writes of one field do not disturb
  the header bytes by which the other fields are found.
\<close>

section \<open>The fields of a packet\<close>

type_synonym slot = "char \<times> nat"

definition pcr_slots :: "bytes \<Rightarrow> slot list" where
  "pcr_slots p =
     (let ac = drop_bit 4 (p ! 3) AND 0x03
      in if (ac \<noteq> 0x02 \<and> ac \<noteq> 0x03) \<or> p ! 4 < 7 \<or> (p ! 5) AND 0x10 = 0 then []
         else [(CHR ''R'', 6)])"

definition pes_slots :: "bytes \<Rightarrow> slot list" where
  "pes_slots p =
     (let (st, ok) = payloadOffset p; flags = drop_bit 6 (p ! (st + 7)) AND 0x03
      in if (p ! 1) AND 0x40 = 0 \<or> \<not> ok \<or> st + 14 > length p
            \<or> p ! st \<noteq> 0x00 \<or> p ! (st + 1) \<noteq> 0x00 \<or> p ! (st + 2) \<noteq> 0x01
            \<or> (flags \<noteq> 0x02 \<and> flags \<noteq> 0x03) then []
         else (CHR ''P'', st + 9) #
           (if flags = 0x03 \<and> length p - st \<ge> 19 then [(CHR ''D'', st + 14)] else []))"

definition slots :: "bytes \<Rightarrow> slot list" where
  "slots p = (if p ! 0 \<noteq> 0x47 then [] else pcr_slots p @ pes_slots p)"

definition field_width :: "char \<Rightarrow> nat" where
  "field_width k = (if k = CHR ''R'' then 6 else 5)"

definition raw_at :: "bytes \<Rightarrow> char \<Rightarrow> nat \<Rightarrow> int" where
  "raw_at p k i =
     (let enc = take (field_width k) (drop i p)
      in if k = CHR ''R'' then readPCRBase enc else readPESTimestamp enc)"

text \<open>The timestamps of a payload, in the order of the visits, with the PID and the kind.\<close>

definition stamps :: "bytes \<Rightarrow> ((u16 \<times> char) \<times> int) list" where
  "stamps payload = fst (visitTransportTimestamps
     (\<lambda>s pid kind raw encoded. (s @ [((pid, kind), raw)], encoded)) [] payload)"

definition packet_stamps :: "bytes \<Rightarrow> ((u16 \<times> char) \<times> int) list" where
  "packet_stamps p = map (\<lambda>(k, i). ((PID p, k), raw_at p k i)) (slots p)"

section \<open>Visiting by slots\<close>

lemma length_patch: "i + length new \<le> length p \<Longrightarrow> length (patch i new p) = length p"
  by (simp add: patch_def)

lemma nth_patch:
  "i + length new \<le> length p \<Longrightarrow> j < length p \<Longrightarrow>
     patch i new p ! j = (if i \<le> j \<and> j < i + length new then new ! (j - i) else p ! j)"
  by (auto simp: patch_def nth_append)

lemma patch_same: "i + w \<le> length p \<Longrightarrow> patch i (take w (drop i p)) p = p"
  by (rule nth_equalityI) (auto simp: length_patch nth_patch)

definition visit_slot :: "'s visitor \<Rightarrow> u16 \<Rightarrow> 's \<times> bytes \<Rightarrow> slot \<Rightarrow> 's \<times> bytes" where
  "visit_slot visit pid sp slot =
     (case sp of (s, p) \<Rightarrow> case slot of (k, i) \<Rightarrow>
        case visit s pid k (raw_at p k i) (take (field_width k) (drop i p)) of
          (s, enc) \<Rightarrow> (s, patch i enc p))"

lemma visitPCR_slots: "visitPCR visit s p pid = foldl (visit_slot visit pid) (s, p) (pcr_slots p)"
  by (simp add: visitPCR_def pcr_slots_def Let_def visit_slot_def raw_at_def field_width_def)

lemma visitPES_slots:
  assumes len: "\<And>s k raw e. length (snd (visit s pid k raw e)) = length e" and "length p = 188"
  shows "visitPESTimestamps visit s p pid = foldl (visit_slot visit pid) (s, p) (pes_slots p)"
proof -
  obtain st ok where po: "payloadOffset p = (st, ok)" by fastforce
  let ?pts = "take 5 (drop (9 + st) p)"
  obtain s1 e1 where v1: "visit s pid CHR ''P'' (readPESTimestamp ?pts) ?pts = (s1, e1)" by fastforce
  show ?thesis
  proof (cases "st + 14 \<le> 188")
    case True
    have "length e1 = 5"
      using len [of s "CHR ''P''" "readPESTimestamp ?pts" ?pts] True assms(2) by (simp add: v1)
    then have "length (patch (st + 9) e1 p) = 188"
      using True assms(2) by (simp add: length_patch)
    then show ?thesis
      using True assms(2) po v1
      by (simp add: visitPESTimestamps_def pes_slots_def visit_slot_def raw_at_def field_width_def
          Let_def nth_drop add.commute split: prod.splits)
  next
    case False
    then show ?thesis using assms(2) po by (simp add: visitPESTimestamps_def pes_slots_def Let_def)
  qed
qed

section \<open>The fields do not overlap the header\<close>

text \<open>The bytes of a slot that carry the 33 bits; the sixth byte of a PCR is its extension.\<close>

definition covers :: "slot \<Rightarrow> nat \<Rightarrow> bool" where
  "covers slot j \<longleftrightarrow> snd slot \<le> j \<and> j < snd slot + 5"

lemma payloadOffset_pcr:
  "payloadOffset p = (st, True) \<Longrightarrow> pcr_slots p \<noteq> [] \<Longrightarrow> 12 \<le> st"
  by (auto simp: payloadOffset_def pcr_slots_def Let_def word_less_nat_alt split: if_splits)

lemma slot_cases:
  assumes "(k, i) \<in> set (slots p)"
  obtains (pcr) "k = CHR ''R''" "i = 6" "pcr_slots p = [(CHR ''R'', 6)]"
  | (pts) st where "k = CHR ''P''" "payloadOffset p = (st, True)" "i = st + 9" "st + 14 \<le> length p"
  | (dts) st where "k = CHR ''D''" "payloadOffset p = (st, True)" "i = st + 14" "st + 19 \<le> length p"
  using assms by (cases "payloadOffset p")
    (auto simp: slots_def pcr_slots_def pes_slots_def Let_def split: if_splits)

lemma payloadOffset_ge: "payloadOffset p = (st, True) \<Longrightarrow> 4 \<le> st"
  by (auto simp: payloadOffset_def Let_def split: if_splits)

lemma slot_bounds:
  assumes "(k, i) \<in> set (slots p)" "length p = 188"
  shows "6 \<le> i \<and> i + field_width k \<le> 188"
  using assms(1)
  by (cases rule: slot_cases) (use assms(2) in \<open>auto simp: field_width_def dest: payloadOffset_ge\<close>)

lemma slots_apart:
  assumes "length p = 188"
  shows "sorted_wrt (\<lambda>a b. snd a + 5 \<le> snd b) (slots p)"
proof (cases "pcr_slots p = []")
  case True
  then show ?thesis by (auto simp: slots_def pes_slots_def Let_def split: prod.splits)
next
  case False
  then have "pcr_slots p = [(CHR ''R'', 6)]" by (auto simp: pcr_slots_def Let_def split: if_splits)
  then show ?thesis
    using payloadOffset_pcr [OF _ False] by (auto simp: slots_def pes_slots_def Let_def split: prod.splits)
qed

text \<open>Only the header and the first nine bytes of the PES packet decide where the fields are.\<close>

lemma slots_cong:
  assumes len: "length p = 188" "length q = 188"
    and eq: "\<And>j. j < 188 \<Longrightarrow> (\<And>s. s \<in> set (slots p) \<Longrightarrow> \<not> covers s j) \<Longrightarrow> q ! j = p ! j"
  shows "slots q = slots p \<and> PID q = PID p"
proof -
  have low: "q ! j = p ! j" if "j < 6" for j
    using that len slot_bounds [of _ _ p] by (intro eq) (fastforce simp: covers_def)+
  have po: "payloadOffset q = payloadOffset p"
    using low [of 3] low [of 4] len by (simp add: payloadOffset_def Let_def)
  obtain st ok where st: "payloadOffset p = (st, ok)" by fastforce
  have pes: "q ! (st + d) = p ! (st + d)" if "ok" "st + 14 \<le> 188" "d < 9" for d
  proof (rule eq)
    show "\<not> covers s (st + d)" if "s \<in> set (slots p)" for s
    proof -
      obtain k i where s: "s = (k, i)" by fastforce
      from that [unfolded s] show ?thesis
        by (cases rule: slot_cases)
          (use st \<open>ok\<close> \<open>d < 9\<close> payloadOffset_pcr [of p st] in \<open>auto simp: covers_def s\<close>)
    qed
  qed (use that in simp)
  have "pcr_slots q = pcr_slots p" using low [of 3] low [of 4] low [of 5] by (simp add: pcr_slots_def)
  moreover have "pes_slots q = pes_slots p"
    using low [of 1] len po st pes [of 0] pes [of 1] pes [of 2] pes [of 7]
    by (cases "ok \<and> st + 14 \<le> 188") (auto simp: pes_slots_def Let_def)
  ultimately show ?thesis
    using low [of 0] low [of 1] low [of 2] len by (simp add: slots_def PID_def)
qed

lemma raw_at_cong:
  assumes "length p = 188" "length q = 188" "i + field_width k \<le> 188"
    and eq: "\<And>d. d < 5 \<Longrightarrow> q ! (i + d) = p ! (i + d)"
  shows "raw_at q k i = raw_at p k i"
  using assms(1-3) eq [of 0] eq [of 1] eq [of 2] eq [of 3] eq [of 4]
  by (auto simp: raw_at_def readPCRBase_def readPESTimestamp_def Let_def field_width_def)

section \<open>Observing and rewriting a packet\<close>

lemma visit_packet_slots:
  assumes len: "\<And>s k raw e. length (snd (visit s pid k raw e)) = length e"
    and keep: "\<And>s k raw e j. 5 \<le> j \<Longrightarrow> j < length e \<Longrightarrow> snd (visit s pid k raw e) ! j = e ! j"
    and "length p = 188" "PID p = pid"
  shows "visit_packet visit s p = foldl (visit_slot visit pid) (s, p) (slots p)"
proof (cases "p ! 0 = 0x47 \<and> pcr_slots p \<noteq> []")
  case True
  then have pcr: "pcr_slots p = [(CHR ''R'', 6)]" by (auto simp: pcr_slots_def Let_def split: if_splits)
  let ?e = "take 6 (drop 6 p)"
  obtain s1 e1 where v: "visit s pid CHR ''R'' (raw_at p CHR ''R'' 6) ?e = (s1, e1)" by fastforce
  let ?q = "patch 6 e1 p"
  have e1: "length e1 = 6" using len [of s "CHR ''R''" "raw_at p CHR ''R'' 6" ?e] v assms(3) by simp
  have keep1: "e1 ! 5 = p ! 11"
    using keep [of 5 ?e s "CHR ''R''" "raw_at p CHR ''R'' 6"] v assms(3) by simp
  have q: "length ?q = 188" using e1 assms(3) by (simp add: length_patch)
  have "slots ?q = slots p \<and> PID ?q = PID p"
  proof (rule slots_cong [OF assms(3) q])
    fix j assume "j < 188" and out: "\<And>t. t \<in> set (slots p) \<Longrightarrow> \<not> covers t j"
    have "\<not> covers (CHR ''R'', 6) j" using out True pcr by (simp add: slots_def)
    then have "j = 11 \<or> j < 6 \<or> 12 \<le> j" by (auto simp: covers_def)
    then show "?q ! j = p ! j" using e1 keep1 assms(3) \<open>j < 188\<close> by (auto simp: nth_patch)
  qed
  moreover have "pcr_slots ?q = pcr_slots p" "?q ! 0 = p ! 0"
    using e1 assms(3) by (simp_all add: pcr_slots_def nth_patch)
  ultimately have "pes_slots ?q = pes_slots p" using True by (simp add: slots_def)
  then show ?thesis
    using True v q assms(4) visitPES_slots [where visit = visit and pid = pid and p = ?q, OF len q]
    by (simp add: visit_packet_def visitPCR_slots slots_def pcr visit_slot_def field_width_def)
next
  case False
  then show ?thesis
    using visitPES_slots [where visit = visit and pid = pid and p = p, OF len assms(3)] assms(4)
    by (auto simp: visit_packet_def visitPCR_slots slots_def)
qed

text \<open>An observer leaves the bytes alone.\<close>

lemma observe_slots:
  assumes "length p = 188" "set ss \<subseteq> set (slots p)"
  shows "foldl (visit_slot (\<lambda>s pid k raw e. (upd s pid k raw, e)) pid) (s, p) ss =
    (foldl (\<lambda>s (k, i). upd s pid k (raw_at p k i)) s ss, p)"
  using assms(2)
proof (induction ss arbitrary: s)
  case (Cons t ss)
  obtain k i where t: "t = (k, i)" by fastforce
  have "i + field_width k \<le> length p" using slot_bounds [of k i p] Cons.prems assms(1) by (simp add: t)
  then show ?case using Cons by (simp add: t visit_slot_def patch_same)
qed simp

lemma observe_packet:
  assumes "length p = 188"
  shows "visit_packet (\<lambda>s pid k raw e. (upd s pid k raw, e)) s p =
    (foldl (\<lambda>s ((pid, k), raw). upd s pid k raw) s (packet_stamps p), p)"
  using assms
  by (subst visit_packet_slots [OF _ _ assms refl])
    (auto simp: observe_slots packet_stamps_def foldl_map case_prod_unfold)

text \<open>The rewriting visitor puts the shifted value into each field.\<close>

definition shift_visit :: "int \<Rightarrow> unit visitor" where
  "shift_visit offset s pid kind raw encoded =
     (let shifted = (raw + offset) AND timestampMask
      in (s, if kind = CHR ''R'' then writePCRBase encoded shifted
             else writePESTimestamp encoded shifted))"

lemma shift_visit_length: "length (snd (shift_visit d s pid k raw e)) = length e"
  by (simp add: shift_visit_def Let_def pcr.put_length pes.put_length)

lemma shift_visit_keep:
  "5 \<le> j \<Longrightarrow> j < length e \<Longrightarrow> snd (shift_visit d s pid k raw e) ! j = e ! j"
  by (simp add: shift_visit_def Let_def writePCRBase_def writePESTimestamp_def)

lemma shift_one:
  assumes "length p = 188" "i + field_width k \<le> 188" "visit_slot (shift_visit d) pid ((), p) (k, i) = ((), q)"
  shows "length q = 188" "raw_at q k i = (raw_at p k i + d) mod 2 ^ 33"
    "\<And>j. j < 188 \<Longrightarrow> \<not> covers (k, i) j \<Longrightarrow> q ! j = p ! j"
proof -
  let ?e = "take (field_width k) (drop i p)"
  define e1 where "e1 = snd (shift_visit d () pid k (raw_at p k i) ?e)"
  have w: "length ?e = field_width k" using assms(1,2) by simp
  have e1: "length e1 = field_width k" using w by (simp add: e1_def shift_visit_length)
  have q: "q = patch i e1 p" using assms(3) by (simp add: visit_slot_def e1_def split: prod.splits)
  then show len: "length q = 188" using assms(1,2) e1 by (simp add: length_patch)
  have "take (field_width k) (drop i q) = e1"
    by (rule nth_equalityI) (use q assms(1,2) e1 len in \<open>auto simp: nth_patch\<close>)
  then show "raw_at q k i = (raw_at p k i + d) mod 2 ^ 33"
    using pcr.get_shift [of ?e d] pes.get_shift [of ?e d] w
    by (auto simp: raw_at_def e1_def shift_visit_def Let_def field_width_def)
  show "q ! j = p ! j" if "j < 188" "\<not> covers (k, i) j" for j
  proof (cases "i \<le> j \<and> j < i + field_width k")
    case True
    then have "5 \<le> j - i" "j - i < length ?e" using that w by (auto simp: covers_def)
    then have "e1 ! (j - i) = ?e ! (j - i)" by (simp add: e1_def shift_visit_keep)
    moreover have "j - i < field_width k" using True by linarith
    ultimately show ?thesis using True that q e1 assms(1,2) by (simp add: nth_patch)
  next
    case False
    then show ?thesis using that q e1 assms(1,2) by (subst q, subst nth_patch) auto
  qed
qed

lemma shift_slots:
  assumes "length p = 188" "\<forall>(k, i)\<in>set ss. i + field_width k \<le> 188"
    "sorted_wrt (\<lambda>a b. snd a + 5 \<le> snd b) ss"
    "foldl (visit_slot (shift_visit d) pid) ((), p) ss = ((), q)"
  shows "length q = 188 \<and> (\<forall>j<188. (\<forall>t\<in>set ss. \<not> covers t j) \<longrightarrow> q ! j = p ! j) \<and>
    (\<forall>(k, i)\<in>set ss. raw_at q k i = (raw_at p k i + d) mod 2 ^ 33)"
  using assms
proof (induction ss arbitrary: p)
  case (Cons t ss)
  obtain k i where t: "t = (k, i)" by fastforce
  define p1 where "p1 = snd (visit_slot (shift_visit d) pid ((), p) (k, i))"
  have p1: "visit_slot (shift_visit d) pid ((), p) (k, i) = ((), p1)" by (simp add: p1_def prod_eq_iff)
  have b: "i + field_width k \<le> 188" using Cons.prems(2) by (simp add: t)
  note one = shift_one [OF Cons.prems(1) b p1]
  have IH: "length q = 188 \<and> (\<forall>j<188. (\<forall>t\<in>set ss. \<not> covers t j) \<longrightarrow> q ! j = p1 ! j) \<and>
    (\<forall>(k, i)\<in>set ss. raw_at q k i = (raw_at p1 k i + d) mod 2 ^ 33)"
    using Cons.prems p1 one(1) by (intro Cons.IH) (auto simp: t)
  have apart: "i + 5 \<le> i'" if "(k', i') \<in> set ss" for k' i'
    using Cons.prems(3) that by (auto simp: t)
  have "raw_at q k i = raw_at p1 k i"
  proof (rule raw_at_cong)
    fix d :: nat assume "d < 5"
    then have "\<not> covers t' (i + d)" if "t' \<in> set ss" for t'
      using that apart [of "fst t'" "snd t'"] by (cases t') (auto simp: covers_def)
    then show "q ! (i + d) = p1 ! (i + d)"
      using IH b \<open>d < 5\<close> by (simp add: field_width_def split: if_splits)
  qed (use IH one b in auto)
  moreover have "raw_at p1 k' i' = raw_at p k' i'" if "(k', i') \<in> set ss" for k' i'
  proof (rule raw_at_cong)
    show b': "i' + field_width k' \<le> 188" using Cons.prems(2) that by auto
    show "p1 ! (i' + d) = p ! (i' + d)" if "d < 5" for d
      using that b' apart [OF \<open>(k', i') \<in> set ss\<close>]
      by (intro one(3)) (auto simp: covers_def field_width_def split: if_splits)
  qed (use one Cons.prems(1) in auto)
  ultimately show ?case using IH one by (auto simp: t)
qed simp

text \<open>A rewritten packet has its timestamps at the same places, each shifted.\<close>

lemma shift_packet:
  fixes d :: int
  assumes "length p = 188"
  defines "q \<equiv> snd (visit_packet (shift_visit d) () p)"
  shows "length q = 188"
    and "packet_stamps q = map (\<lambda>(key, raw). (key, (raw + d) mod 2 ^ 33)) (packet_stamps p)"
proof -
  have q: "foldl (visit_slot (shift_visit d) (PID p)) ((), p) (slots p) = ((), q)"
    unfolding q_def
    by (subst visit_packet_slots [OF shift_visit_length shift_visit_keep assms(1) refl, symmetric])
      (simp_all, rule prod_eqI, simp_all)
  note sh = shift_slots [OF assms(1) _ slots_apart [OF assms(1)] q]
  have s: "length q = 188 \<and> (\<forall>j<188. (\<forall>t\<in>set (slots p). \<not> covers t j) \<longrightarrow> q ! j = p ! j) \<and>
    (\<forall>(k, i)\<in>set (slots p). raw_at q k i = (raw_at p k i + d) mod 2 ^ 33)"
    by (rule sh) (use slot_bounds [OF _ assms(1)] in auto)
  then show len: "length q = 188" by simp
  have "slots q = slots p \<and> PID q = PID p" by (rule slots_cong [OF assms(1) len]) (use s in auto)
  then show "packet_stamps q = map (\<lambda>(key, raw). (key, (raw + d) mod 2 ^ 33)) (packet_stamps p)"
    using s by (auto simp: packet_stamps_def)
qed

section \<open>Payloads\<close>

function packets :: "bytes \<Rightarrow> bytes list" where
  "packets payload = (if length payload < 188 then [] else take 188 payload # packets (drop 188 payload))"
  by auto
termination by (relation "measure length") auto

declare packets.simps [simp del]

lemma packets_Cons [simp]: "length p = 188 \<Longrightarrow> packets (p @ rest) = p # packets rest"
  by (subst packets.simps) simp

lemma packets_short [simp]: "length rest < 188 \<Longrightarrow> packets rest = []"
  by (subst packets.simps) simp

lemma observe_payload:
  "visitTransportTimestamps (\<lambda>s pid k raw e. (upd s pid k raw, e)) s payload =
    (foldl (\<lambda>s ((pid, k), raw). upd s pid k raw) s (concat (map packet_stamps (packets payload))), payload)"
  unfolding visitTransportTimestamps_def
proof (induction payload arbitrary: s rule: packets_induct)
  case (packet p rest)
  then show ?case by (simp add: each_packet_Cons observe_packet)
qed (simp add: each_packet_short)

lemma stamps_packets: "stamps payload = concat (map packet_stamps (packets payload))"
proof -
  have "foldl (\<lambda>s ((pid, k), raw). s @ [((pid, k), raw)]) xs ys = xs @ ys"
    for xs and ys :: "((u16 \<times> char) \<times> int) list"
    by (induction ys arbitrary: xs) auto
  then show ?thesis by (simp add: stamps_def observe_payload)
qed

lemma payload_tracks_stamps:
  "payload_tracks payload = foldl (\<lambda>tracks (key, raw). observe_key key raw tracks) [] (stamps payload)"
  by (simp add: payload_tracks_def observe_payload stamps_packets case_prod_unfold)

lemma raw_at_range:
  assumes "length p = 188" "(k, i) \<in> set (slots p)"
  shows "0 \<le> raw_at p k i \<and> raw_at p k i < 2 ^ 33"
  using slot_bounds [OF assms(2,1)] pcr.get_range [of "take 6 (drop i p)"]
    pes.get_range [of "take 5 (drop i p)"] assms(1)
  by (auto simp: raw_at_def field_width_def Let_def)

lemma packet_stamps_range:
  "length p = 188 \<Longrightarrow> (key, raw) \<in> set (packet_stamps p) \<Longrightarrow> raw mod 2 ^ 33 = raw"
  by (auto simp: packet_stamps_def dest: raw_at_range)

lemma stamps_unshifted:
  "map (\<lambda>(key, raw). (key, raw mod 2 ^ 33)) (stamps payload) = stamps payload"
proof (induction payload rule: packets_induct)
  case (packet p rest)
  have "map (\<lambda>(key, raw). (key, raw mod 2 ^ 33)) (packet_stamps p) = packet_stamps p"
    by (rule map_idI) (use packet_stamps_range [OF packet(1)] in auto)
  with packet show ?case by (simp add: stamps_packets)
qed (simp add: stamps_packets)

lemma rewrite_stamps:
  "stamps (rewriteTimestamps payload d) = map (\<lambda>(key, raw). (key, (raw + d) mod 2 ^ 33)) (stamps payload)"
  "length (rewriteTimestamps payload d) = length payload"
proof -
  have eq: "rewriteTimestamps payload d =
      (if d = 0 then payload else snd (visitTransportTimestamps (shift_visit d) () payload))"
    by (simp add: rewriteTimestamps_def shift_visit_def [abs_def])
  have "stamps (snd (visitTransportTimestamps (shift_visit d) () payload)) =
      map (\<lambda>(key, raw). (key, (raw + d) mod 2 ^ 33)) (stamps payload) \<and>
      length (snd (visitTransportTimestamps (shift_visit d) () payload)) = length payload"
  proof (induction payload rule: packets_induct)
    case (packet p rest)
    then show ?case using shift_packet [OF packet(1), of d]
      by (auto simp: stamps_packets visitTransportTimestamps_def each_packet_Cons split: prod.splits)
  qed (simp add: stamps_packets visitTransportTimestamps_def each_packet_short)
  then show "stamps (rewriteTimestamps payload d) =
      map (\<lambda>(key, raw). (key, (raw + d) mod 2 ^ 33)) (stamps payload)"
    "length (rewriteTimestamps payload d) = length payload"
    using stamps_unshifted [of payload] by (simp_all add: eq)
qed

end
