(* ===== verification/TsLoopSpec.thy ===== *)
theory TsLoopSpec
  imports TsStamps
begin

text \<open>
  What \<open>TimestampLoop\<close> promises (\<open>internal/ts/loop.go\<close>): a receiver of its chunks sees no
  continuity error, every pass over a payload is the payload again with its timestamps moved on by
  one cycle more, and the cycle of a regular clock track is exactly as long as the track, so that the
  clock runs on across the repetition.
\<close>

section \<open>A receiver's continuity check\<close>

text \<open>The check of a transport stream receiver: the counter of a packet with a payload is one more,
  modulo 16, than the last one seen on its PID; a packet without a payload repeats the last one.\<close>

definition receive_packet :: "(u16 \<rightharpoonup> byte) \<Rightarrow> bytes \<Rightarrow> (u16 \<rightharpoonup> byte) \<times> bool" where
  "receive_packet seen p =
     (let ac = drop_bit 4 (p ! 3) AND 0x03; cc = p ! 3 AND 0x0F
      in if p ! 0 \<noteq> 0x47 \<or> ac = 0 then (seen, True)
         else (seen(PID p \<mapsto> cc),
           case seen (PID p) of None \<Rightarrow> True
           | Some l \<Rightarrow> cc = (if ac = 0x01 \<or> ac = 0x03 then (l + 1) AND 0x0F else l)))"

fun receive :: "(u16 \<rightharpoonup> byte) \<Rightarrow> bytes list \<Rightarrow> (u16 \<rightharpoonup> byte) \<times> bool" where
  "receive seen [] = (seen, True)"
| "receive seen (p # ps) =
     (case receive_packet seen p of (seen', ok) \<Rightarrow>
        case receive seen' ps of (seen'', ok') \<Rightarrow> (seen'', ok \<and> ok'))"

text \<open>The loop's map holds the counter that is due, one more than the last.\<close>

definition low_nibbles :: "(u16 \<rightharpoonup> byte) \<Rightarrow> bool" where
  "low_nibbles m \<longleftrightarrow> (\<forall>pid b. m pid = Some b \<longrightarrow> b AND 0x0F = b)"

definition due :: "(u16 \<rightharpoonup> byte) \<Rightarrow> (u16 \<rightharpoonup> byte)" where
  "due seen = (\<lambda>pid. map_option (\<lambda>l. (l + 1) AND 0x0F) (seen pid))"

lemma low_mask: "(b :: byte) AND 0x0F = take_bit 4 b"
  by (simp add: take_bit_eq_mask mask_numeral)

lemma nibble_step: "((take_bit 4 (l + 1) + 15) :: byte) AND 0x0F = l AND 0x0F"
proof -
  have "uint (take_bit 4 w) = uint w mod 16" for w :: byte
    by (simp only: unsigned_take_bit_eq, simp only: take_bit_eq_mod) simp
  then have "uint (take_bit 4 (take_bit 4 (l + 1) + 15)) = uint (take_bit 4 l)"
    by (simp add: uint_word_ariths mod_mod_cancel mod_simps)
  then show ?thesis by (simp only: low_mask word_uint_eq_iff)
qed

lemma low_bits: "bit (0x0F :: byte) k \<longleftrightarrow> k < 4"
  by (rule byte_bits_check) (simp_all add: upt_rec)

lemma nibble_put:
  assumes "n AND 0x0F = (n :: byte)"
  shows "((b AND 0xF0) OR n) AND 0x0F = n" "drop_bit 4 ((b AND 0xF0) OR n) = drop_bit 4 b"
    "((b AND 0xF0) OR n) AND 0xF0 = b AND 0xF0"
proof -
  have n: "bit n k \<Longrightarrow> k < 4" for k
    by (metis assms bit_and_iff low_bits)
  show "((b AND 0xF0) OR n) AND 0x0F = n"
    by (rule bit_word_eqI) (auto simp only: bit_or_iff bit_and_iff low_bits pes_mask_bits dest: n)
  show "drop_bit 4 ((b AND 0xF0) OR n) = drop_bit 4 b"
    by (rule bit_word_eqI, simp only: bit_drop_bit_eq o_apply bit_or_iff bit_and_iff pes_mask_bits)
      (auto dest: n byte_bit)
  show "((b AND 0xF0) OR n) AND 0xF0 = b AND 0xF0"
    by (rule bit_word_eqI, simp only: bit_or_iff bit_and_iff pes_mask_bits) (auto dest: n)
qed

section \<open>What the counter rewriting keeps\<close>

definition blank_packet :: "bytes \<Rightarrow> bytes" where
  "blank_packet p = (if p ! 0 = 0x47 then p[3 := p ! 3 AND 0xF0] else p)"

definition cc_blank :: "bytes \<Rightarrow> bytes" where
  "cc_blank payload = snd (each_packet (\<lambda>u p. ((), blank_packet p)) () payload)"

lemma rewrite_cc_cases:
  assumes "low_nibbles m" "length p = 188" "rewrite_cc_packet pr m p = (m', q)"
  shows "low_nibbles m'" "q = p \<or> (p ! 0 = 0x47 \<and> (\<exists>n. n AND 0x0F = n \<and> q = p[3 := (p ! 3 AND 0xF0) OR n]))"
proof -
  have next_ok: "(case m (PID p) of None \<Rightarrow> p ! 3 AND 0x0F | Some n \<Rightarrow> n) AND 0x0F =
      (case m (PID p) of None \<Rightarrow> p ! 3 AND 0x0F | Some n \<Rightarrow> n)"
    using assms(1) by (auto simp: low_nibbles_def and.assoc split: option.splits)
  have upd: "low_nibbles (m(PID p \<mapsto> x AND 0x0F))" for x
    using assms(1) by (auto simp: low_nibbles_def and.assoc)
  have mm: "(x AND 0x0F) AND 0x0F = (x AND 0x0F :: byte)" for x by (simp add: and.assoc)
  have ex: "\<exists>n. n AND 0x0F = n \<and> p[3 := b OR (x AND 0x0F)] = p[3 := b OR n]" for b x
    by (rule exI [of _ "x AND 0x0F"]) (simp add: mm)
  show "low_nibbles m'"
    using assms upd by (auto simp: rewrite_cc_packet_def Let_def split: if_splits)
  show "q = p \<or> (p ! 0 = 0x47 \<and> (\<exists>n. n AND 0x0F = n \<and> q = p[3 := (p ! 3 AND 0xF0) OR n]))"
    using assms(3) next_ok mm ex unfolding rewrite_cc_packet_def Let_def
    by (auto split: if_splits)
qed

lemma nibble_packet:
  assumes "length p = 188" "p ! 0 = 0x47" "n AND 0x0F = n"
  defines "q \<equiv> p[3 := (p ! 3 AND 0xF0) OR n]"
  shows "packet_stamps q = packet_stamps p" "blank_packet q = blank_packet p" "PID q = PID p"
    "drop_bit 4 (q ! 3) = drop_bit 4 (p ! 3)" "q ! 0 = p ! 0" "q ! 3 AND 0x0F = n" "length q = 188"
proof -
  have q3: "q ! 3 = (p ! 3 AND 0xF0) OR n" using assms(1) by (simp add: q_def)
  show len: "length q = 188" and pid: "PID q = PID p" and q0: "q ! 0 = p ! 0"
    using assms(1) by (simp_all add: q_def PID_def)
  show hi: "drop_bit 4 (q ! 3) = drop_bit 4 (p ! 3)" and "q ! 3 AND 0x0F = n"
    unfolding q3 by (rule nibble_put [OF assms(3)])+
  show "blank_packet q = blank_packet p"
    using assms(1,2) nibble_put(3) [OF assms(3), of "p ! 3"] by (simp add: q_def blank_packet_def)
  have oth: "q ! j = p ! j" if "j \<noteq> 3" for j using that by (simp add: q_def)
  have po: "payloadOffset q = payloadOffset p"
    using hi oth [of 4] len assms(1) by (simp add: payloadOffset_def Let_def)
  have ge: "4 \<le> st" if "payloadOffset p = (st, True)" for st using that by (rule payloadOffset_ge)
  have "pcr_slots q = pcr_slots p" using hi oth [of 4] oth [of 5] by (simp add: pcr_slots_def Let_def)
  moreover have "pes_slots q = pes_slots p"
  proof (cases "payloadOffset p")
    case (Pair st ok)
    then show ?thesis
      using po oth [of 1] oth [of st] oth [of "st + 1"] oth [of "st + 2"] oth [of "st + 7"] len assms(1) ge
      by (cases ok) (auto simp: pes_slots_def Let_def)
  qed
  ultimately have s: "slots q = slots p" using q0 by (simp add: slots_def)
  have "raw_at q k i = raw_at p k i" if "(k, i) \<in> set (slots p)" for k i
    using slot_bounds [OF that assms(1)] len assms(1) oth by (intro raw_at_cong) auto
  then show "packet_stamps q = packet_stamps p" using s pid by (auto simp: packet_stamps_def)
qed

lemma rewrite_cc_keeps:
  assumes "low_nibbles m" "length p = 188" "rewrite_cc_packet pr m p = (m', q)"
  shows "low_nibbles m'" "length q = 188" "packet_stamps q = packet_stamps p"
    "blank_packet q = blank_packet p"
  using rewrite_cc_cases [OF assms] nibble_packet [OF assms(2)] assms(2) by auto

lemma cc_blank_Cons [simp]: "length p = 188 \<Longrightarrow> cc_blank (p @ rest) = blank_packet p @ cc_blank rest"
  by (simp add: cc_blank_def each_packet_Cons split: prod.splits)

lemma cc_blank_short [simp]: "length rest < 188 \<Longrightarrow> cc_blank rest = rest"
  by (simp add: cc_blank_def each_packet_short)

lemma rewrite_counters_keep:
  assumes "low_nibbles m" "rewriteContinuityCounters payload m pr = (m', q)"
  shows "low_nibbles m' \<and> length q = length payload \<and> stamps q = stamps payload \<and>
    cc_blank q = cc_blank payload"
  using assms unfolding rewriteContinuityCounters_def
proof (induction payload arbitrary: m m' q rule: packets_induct)
  case (packet p rest)
  obtain m1 p1 where 1: "rewrite_cc_packet pr m p = (m1, p1)" by fastforce
  obtain m2 r where 2: "each_packet (rewrite_cc_packet pr) m1 rest = (m2, r)" by fastforce
  note keep = rewrite_cc_keeps [OF packet.prems(1) packet(1) 1]
  have "m' = m2" "q = p1 @ r" using packet.prems(2) packet(1) 1 2 by (simp_all add: each_packet_Cons)
  then show ?case
    using packet.IH [OF keep(1) 2] keep packet(1) by (simp add: stamps_packets)
qed (simp add: each_packet_short)

section \<open>No continuity error\<close>

lemma rewrite_cc_received:
  assumes "low_nibbles seen" "length p = 188" "rewrite_cc_packet False (due seen) p = (m', q)"
  shows "\<exists>seen'. receive_packet seen q = (seen', True) \<and> m' = due seen' \<and> low_nibbles seen'"
proof -
  let ?ac = "drop_bit 4 (p ! 3) AND 0x03"
  let ?n = "case due seen (PID p) of None \<Rightarrow> p ! 3 AND 0x0F | Some n \<Rightarrow> n"
  have n: "?n AND 0x0F = ?n" by (simp add: due_def and.assoc split: option.splits)
  have upd: "low_nibbles (seen(PID p \<mapsto> x AND 0x0F))" for x
    using assms(1) by (auto simp: low_nibbles_def and.assoc)
  have mm: "(x AND 0x0F) AND 0x0F = (x AND 0x0F :: byte)" for x by (simp add: and.assoc)
  consider (skip) "p ! 0 \<noteq> 0x47 \<or> ?ac = 0" | (pay) "p ! 0 = 0x47" "?ac = 0x01 \<or> ?ac = 0x03"
    | (af) "p ! 0 = 0x47" "?ac \<noteq> 0" "?ac \<noteq> 0x01" "?ac \<noteq> 0x03" by blast
  then show ?thesis
  proof cases
    case skip
    then have "q = p" "m' = due seen"
      using assms(3) by (auto simp: rewrite_cc_packet_def Let_def split: if_splits)
    with skip assms(1) show ?thesis by (auto simp: receive_packet_def Let_def)
  next
    case pay
    then have eq: "q = p[3 := (p ! 3 AND 0xF0) OR ?n]" "m' = (due seen)(PID p \<mapsto> (?n + 1) AND 0x0F)"
      using assms(3) by (auto simp: rewrite_cc_packet_def Let_def)
    note np = nibble_packet [OF assms(2) pay(1) n, folded eq(1)]
    have "receive_packet seen q = (seen(PID p \<mapsto> ?n), True)"
      unfolding receive_packet_def using np pay by (auto simp: Let_def due_def split: option.splits)
    moreover have "m' = due (seen(PID p \<mapsto> ?n))" by (auto simp: eq(2) due_def)
    moreover have "low_nibbles (seen(PID p \<mapsto> ?n))" using upd [of ?n] by (simp only: n)
    ultimately show ?thesis by blast
  next
    case af
    show ?thesis
    proof (cases "seen (PID p)")
      case None
      then have "q = p" "m' = (due seen)(PID p \<mapsto> ((p ! 3 AND 0x0F) + 1) AND 0x0F)"
        using af assms(3) by (auto simp: rewrite_cc_packet_def Let_def due_def)
      with None af upd [of "p ! 3"] show ?thesis
        by (intro exI [of _ "seen(PID p \<mapsto> p ! 3 AND 0x0F)"])
          (auto simp: receive_packet_def Let_def due_def)
    next
      case (Some l)
      have l: "l AND 0x0F = l" using assms(1) Some by (auto simp: low_nibbles_def)
      have prev: "(((l + 1) AND 0x0F) + 15) AND 0x0F = l"
        using nibble_step [of l] by (simp only: low_mask l [unfolded low_mask])
      have eq: "q = p[3 := (p ! 3 AND 0xF0) OR l]" "m' = due seen"
        using af assms(3) Some by (auto simp: rewrite_cc_packet_def Let_def due_def prev)
      note np = nibble_packet [OF assms(2) af(1) l, folded eq(1)]
      have "receive_packet seen q = (seen(PID p \<mapsto> l), True)"
        unfolding receive_packet_def using np af Some by (auto simp: Let_def)
      moreover have "seen(PID p \<mapsto> l) = seen" using Some by auto
      ultimately show ?thesis using assms(1) eq(2) by auto
    qed
  qed
qed
lemma rewrite_counters_received:
  assumes "low_nibbles seen" "rewriteContinuityCounters payload (due seen) False = (m', q)"
  shows "\<exists>seen'. receive seen (packets q) = (seen', True) \<and> m' = due seen' \<and> low_nibbles seen'"
  using assms unfolding rewriteContinuityCounters_def
proof (induction payload arbitrary: seen m' q rule: packets_induct)
  case (packet p rest)
  obtain m1 p1 where 1: "rewrite_cc_packet False (due seen) p = (m1, p1)" by fastforce
  obtain m2 r where 2: "each_packet (rewrite_cc_packet False) m1 rest = (m2, r)" by fastforce
  have "low_nibbles (due seen)" by (auto simp: low_nibbles_def due_def and.assoc)
  then have "length p1 = 188" by (rule rewrite_cc_keeps [OF _ packet(1) 1])
  moreover have "m' = m2" "q = p1 @ r"
    using packet.prems(2) packet(1) 1 2 by (simp_all add: each_packet_Cons)
  moreover obtain s1 where "receive_packet seen p1 = (s1, True)" "m1 = due s1" "low_nibbles s1"
    using rewrite_cc_received [OF packet.prems(1) packet(1) 1] by blast
  ultimately show ?case using packet.IH [of s1 m2 r] 2 by auto
qed (simp add: each_packet_short)

lemma receive_append:
  "receive seen (xs @ ys) = (case receive seen xs of (s, ok) \<Rightarrow>
     case receive s ys of (s', ok') \<Rightarrow> (s', ok \<and> ok'))"
  by (induction xs arbitrary: seen) (auto split: prod.splits)

text \<open>A run of calls of \<open>Next\<close>, each with a key, a payload and whether to preserve errors.\<close>

fun loop_run :: "(string \<times> bytes \<times> bool) list \<Rightarrow> timestamp_loop \<Rightarrow> bytes list \<times> timestamp_loop" where
  "loop_run [] l = ([], l)"
| "loop_run ((key, payload, preserve) # calls) l =
     (case Next key payload preserve l of (chunk, l) \<Rightarrow>
        case loop_run calls l of (chunks, l) \<Rightarrow> (chunk # chunks, l))"

lemma Next_continuity:
  assumes "Next key payload preserve l = (chunk, l')"
  shows "(chunk = [] \<and> l' = l) \<or> (\<exists>piece.
    rewriteContinuityCounters piece (tlpContinuity l) preserve = (tlpContinuity l', chunk))"
proof -
  have "tlpContinuity (loop_wrap (loop_load key payload l)) = tlpContinuity l"
    by (simp add: loop_wrap_def loop_load_def Let_def)
  then show ?thesis using assms by (auto simp: Next_def Let_def split: if_splits prod.splits)
qed

lemma loop_run_received:
  assumes "tlpContinuity l = due seen" "low_nibbles seen"
  shows "snd (receive seen (concat (map packets (fst (loop_run (map (\<lambda>(k, p). (k, p, False)) calls) l)))))"
  using assms
proof (induction calls arbitrary: l seen)
  case (Cons call calls)
  obtain k p where call: "call = (k, p)" by fastforce
  obtain c l1 where n: "Next k p False l = (c, l1)" by fastforce
  obtain cs l2 where run: "loop_run (map (\<lambda>(k, p). (k, p, False)) calls) l1 = (cs, l2)" by fastforce
  obtain s1 where s1: "receive seen (packets c) = (s1, True)" "tlpContinuity l1 = due s1" "low_nibbles s1"
    using Next_continuity [OF n] rewrite_counters_received [OF Cons.prems(2)] Cons.prems by fastforce
  show ?case using Cons.IH [OF s1(2,3)] s1(1) by (auto simp: call n run receive_append split: prod.splits)
qed simp

text \<open>C32. A receiver of the chunks of a fresh loop sees no continuity error on any PID, whatever
  payloads the caller plays in whatever order, across the repetitions and the changes of payload, as
  long as the caller does not ask to preserve errors.\<close>

theorem loop_never_discontinuous:
  "snd (receive Map.empty
     (concat (map packets (fst (loop_run (map (\<lambda>(k, p). (k, p, False)) calls) new_loop)))))"
  by (rule loop_run_received) (auto simp: new_loop_def due_def low_nibbles_def)

section \<open>Every pass is the payload again\<close>

lemma stamps_append:
  "188 dvd length a \<Longrightarrow> stamps (a @ b) = stamps a @ stamps b"
proof (induction a rule: packets_induct)
  case (short rest)
  then show ?case by (cases rest) (auto simp: stamps_packets dest: dvd_imp_le)
next
  case (packet p rest)
  then have "188 dvd length rest" by (simp add: dvd_add_right_iff)
  with packet show ?case by (simp add: stamps_packets)
qed

lemma cc_blank_append:
  "188 dvd length a \<Longrightarrow> cc_blank (a @ b) = cc_blank a @ cc_blank b"
proof (induction a rule: packets_induct)
  case (short rest)
  then show ?case by (cases rest) (auto dest: dvd_imp_le)
next
  case (packet p rest)
  then have "188 dvd length rest" by (simp add: dvd_add_right_iff)
  with packet show ?case by simp
qed

text \<open>The loop in the middle of a pass: \<open>j\<close> chunks are out, the rest of the rendered payload is
  still as it was rendered.\<close>

definition mid_pass :: "string \<Rightarrow> bytes \<Rightarrow> int \<Rightarrow> nat \<Rightarrow> timestamp_loop \<Rightarrow> bool" where
  "mid_pass key payload off j l \<longleftrightarrow>
     tlpKey l = key \<and> tlpPayload l = payload \<and> tlpCycleDuration l = timestampCycleDuration payload \<and>
     tlpTimestampOffset l = off \<and> \<not> tlpNextLoop l \<and> tlpOffset l = int (1316 * j) \<and>
     1316 * j < length payload \<and> low_nibbles (tlpContinuity l) \<and>
     (\<exists>r. tlpRendered l = Some r \<and> length r = length payload \<and>
       drop (1316 * j) r = drop (1316 * j) (rewriteTimestamps payload off))"

definition at_pass :: "string \<Rightarrow> bytes \<Rightarrow> int \<Rightarrow> timestamp_loop \<Rightarrow> bool" where
  "at_pass key payload off l \<longleftrightarrow> mid_pass key payload off 0 (loop_wrap (loop_load key payload l))"

lemma mid_pass_prepared: "mid_pass key payload off j l \<Longrightarrow> loop_wrap (loop_load key payload l) = l"
  by (auto simp: mid_pass_def loop_load_def loop_wrap_def)

lemma chunk_split:
  assumes "1316 * j < length r"
  shows "ChunkAt r (int (1316 * j)) =
    (take 1316 (drop (1316 * j) r), if 1316 * Suc j < length r then int (1316 * Suc j) else 0)"
proof -
  have "nat (int (1316 * j) + 1316) - nat (int (1316 * j)) = 1316" by simp
  moreover have "nat (int (1316 * j)) = 1316 * j" by simp
  ultimately show ?thesis using assms by (auto simp: ChunkAt_def chunkSize_def Let_def)
qed

lemma at_pass_wrap:
  assumes "tlpKey l = key" "tlpPayload l = payload" "payload \<noteq> []"
    "tlpCycleDuration l = timestampCycleDuration payload" "tlpRendered l \<noteq> None" "tlpNextLoop l"
    "low_nibbles (tlpContinuity l)"
  shows "at_pass key payload ((tlpTimestampOffset l + timestampCycleDuration payload) mod 2 ^ 33) l"
  using assms
  by (auto simp: at_pass_def mid_pass_def loop_load_def loop_wrap_def rewrite_stamps(2)
      pcr.shifted_mod Let_def)

lemma Next_mid:
  assumes mid: "mid_pass key payload off j (loop_wrap (loop_load key payload l))"
    and nxt: "Next key payload preserve l = (chunk, l')"
  defines "piece \<equiv> take 1316 (drop (1316 * j) (rewriteTimestamps payload off))"
  shows "cc_blank chunk = cc_blank piece" "stamps chunk = stamps piece" "length chunk = length piece"
    "if 1316 * Suc j < length payload then mid_pass key payload off (Suc j) l'
     else at_pass key payload ((off + timestampCycleDuration payload) mod 2 ^ 33) l'"
proof -
  define p where "p = loop_wrap (loop_load key payload l)"
  note mp = mid [folded p_def, unfolded mid_pass_def]
  then obtain r where r: "tlpRendered p = Some r" "length r = length payload"
    "drop (1316 * j) r = drop (1316 * j) (rewriteTimestamps payload off)" by blast
  have j: "1316 * j < length payload" and low: "low_nibbles (tlpContinuity p)"
    and "payload \<noteq> []" using mp by auto
  have piece: "take 1316 (drop (1316 * j) r) = piece" by (simp add: piece_def r(3))
  obtain m1 c1 where cc: "rewriteContinuityCounters piece (tlpContinuity p) preserve = (m1, c1)"
    by fastforce
  note keep = rewrite_counters_keep [OF low cc]
  let ?next = "if 1316 * Suc j < length payload then int (1316 * Suc j) else 0"
  have res: "chunk = c1" "l' = p\<lparr>tlpRendered := Some (patch (1316 * j) c1 r), tlpContinuity := m1,
      tlpOffset := ?next, tlpNextLoop := (?next = 0)\<rparr>"
    using nxt mp \<open>payload \<noteq> []\<close> j chunk_split [of j r, unfolded piece] r(1,2) cc
    by (auto simp: Next_def p_def [symmetric] Let_def simp del: of_nat_mult split: prod.splits)
  show "cc_blank chunk = cc_blank piece" "stamps chunk = stamps piece" "length chunk = length piece"
    using keep res(1) by auto
  show "if 1316 * Suc j < length payload then mid_pass key payload off (Suc j) l'
     else at_pass key payload ((off + timestampCycleDuration payload) mod 2 ^ 33) l'"
  proof (cases "1316 * Suc j < length payload")
    case True
    have len: "length c1 = 1316" using keep True r(2) by (simp add: piece [symmetric])
    have "drop (1316 * Suc j) (patch (1316 * j) c1 r) = drop (1316 * Suc j) r"
      using len True r(2) by (simp add: patch_def add.commute)
    also have "\<dots> = drop 1316 (drop (1316 * j) r)" by simp
    also have "\<dots> = drop (1316 * Suc j) (rewriteTimestamps payload off)" unfolding r(3) by simp
    finally have "drop (1316 * Suc j) (patch (1316 * j) c1 r) = drop (1316 * Suc j) (rewriteTimestamps payload off)" .
    moreover have "length (patch (1316 * j) c1 r) = length payload"
      using len True r(2) by (simp add: length_patch)
    ultimately have "mid_pass key payload off (Suc j) l'"
      using True mp keep by (simp add: mid_pass_def res(2))
    with True show ?thesis by simp
  next
    case False
    have "at_pass key payload ((tlpTimestampOffset l' + timestampCycleDuration payload) mod 2 ^ 33) l'"
      using False mp keep \<open>payload \<noteq> []\<close> by (intro at_pass_wrap) (simp_all add: res(2))
    with False mp show ?thesis by (simp add: res(2))
  qed
qed

definition chunks_per_pass :: "bytes \<Rightarrow> nat" where
  "chunks_per_pass payload = (length payload + 1315) div 1316"

lemma pass_run:
  assumes "mid_pass key payload off j (loop_wrap (loop_load key payload l))"
    "loop_run (replicate ((length payload - 1316 * j + 1315) div 1316) (key, payload, preserve)) l = (cs, l')"
  defines "left \<equiv> drop (1316 * j) (rewriteTimestamps payload off)"
  shows "cc_blank (concat cs) = cc_blank left \<and> stamps (concat cs) = stamps left \<and>
    at_pass key payload ((off + timestampCycleDuration payload) mod 2 ^ 33) l'"
  using assms(1,2) unfolding left_def
proof (induction "length payload - 1316 * j" arbitrary: j l cs l' rule: less_induct)
  case less
  let ?m = "length payload - 1316 * j"
  let ?R = "rewriteTimestamps payload off"
  have j: "1316 * j < length payload" using less.prems(1) by (simp add: mid_pass_def)
  obtain c l1 where c: "Next key payload preserve l = (c, l1)" by fastforce
  note nm = Next_mid [OF less.prems(1) c]
  show ?case
  proof (cases "1316 * Suc j < length payload")
    case True
    have count: "(?m + 1315) div 1316 = Suc ((length payload - 1316 * Suc j + 1315) div 1316)"
      using True by simp
    then obtain cs1 where cs: "cs = c # cs1" and run:
      "loop_run (replicate ((length payload - 1316 * Suc j + 1315) div 1316) (key, payload, preserve)) l1 = (cs1, l')"
      using less.prems(2) [unfolded count] c by (auto split: prod.splits)
    have mid1: "mid_pass key payload off (Suc j) l1" using nm(4) True by simp
    have IH: "cc_blank (concat cs1) = cc_blank (drop (1316 * Suc j) ?R) \<and>
      stamps (concat cs1) = stamps (drop (1316 * Suc j) ?R) \<and>
      at_pass key payload ((off + timestampCycleDuration payload) mod 2 ^ 33) l'"
      using run True mid1 mid_pass_prepared [OF mid1] by (intro less.hyps) auto
    have len: "length c = 1316" using nm(3) True by (simp add: rewrite_stamps(2))
    then have dv: "188 dvd length c" by simp
    let ?piece = "take 1316 (drop (1316 * j) ?R)"
    have dv2: "188 dvd length ?piece" using nm(3) len by simp
    have split: "drop (1316 * j) ?R = ?piece @ drop (1316 * Suc j) ?R"
      by (metis append_take_drop_id drop_drop mult_Suc_right)
    then have "cc_blank (drop (1316 * j) ?R) = cc_blank ?piece @ cc_blank (drop (1316 * Suc j) ?R)"
      "stamps (drop (1316 * j) ?R) = stamps ?piece @ stamps (drop (1316 * Suc j) ?R)"
      by (metis cc_blank_append [OF dv2], metis split stamps_append [OF dv2])
    then show ?thesis
      using IH nm(1,2) by (simp add: cs cc_blank_append [OF dv] stamps_append [OF dv])
  next
    case False
    then have one: "(?m + 1315) div 1316 = Suc 0" using j by (intro div_nat_eqI) auto
    then have "cs = [c]" "l' = l1" using less.prems(2) [unfolded one] c by (auto split: prod.splits)
    moreover have "take 1316 (drop (1316 * j) ?R) = drop (1316 * j) ?R"
      using False by (simp add: rewrite_stamps(2))
    ultimately show ?thesis using nm False by simp
  qed
qed

definition pass_start :: "string \<Rightarrow> bytes \<Rightarrow> bool \<Rightarrow> nat \<Rightarrow> timestamp_loop" where
  "pass_start key payload preserve k =
     snd (loop_run (replicate (k * chunks_per_pass payload) (key, payload, preserve)) new_loop)"

definition pass_stream :: "string \<Rightarrow> bytes \<Rightarrow> bool \<Rightarrow> nat \<Rightarrow> bytes" where
  "pass_stream key payload preserve k =
     concat (fst (loop_run (replicate (chunks_per_pass payload) (key, payload, preserve))
       (pass_start key payload preserve k)))"

lemma loop_run_append:
  "loop_run (xs @ ys) l = (case loop_run xs l of (cs, l1) \<Rightarrow>
     case loop_run ys l1 of (ds, l2) \<Rightarrow> (cs @ ds, l2))"
  by (induction xs l rule: loop_run.induct) (auto split: prod.splits)

lemma pass_start_Suc:
  "pass_start key payload preserve (Suc k) =
     snd (loop_run (replicate (chunks_per_pass payload) (key, payload, preserve))
       (pass_start key payload preserve k))"
proof -
  have "Suc k * chunks_per_pass payload = k * chunks_per_pass payload + chunks_per_pass payload" by simp
  then show ?thesis
    unfolding pass_start_def by (simp only: replicate_add loop_run_append) (simp split: prod.splits)
qed

lemma at_pass_start:
  assumes "payload \<noteq> []"
  shows "at_pass key payload ((int k * timestampCycleDuration payload) mod 2 ^ 33) (pass_start key payload preserve k)"
proof (induction k)
  case 0
  show ?case
    using assms by (auto simp: pass_start_def new_loop_def at_pass_def mid_pass_def loop_load_def loop_wrap_def
        low_nibbles_def rewrite_stamps(2) Let_def)
next
  case (Suc k)
  let ?c = "timestampCycleDuration payload"
  obtain cs l' where run: "loop_run (replicate (chunks_per_pass payload) (key, payload, preserve))
      (pass_start key payload preserve k) = (cs, l')" by fastforce
  have "at_pass key payload (((int k * ?c) mod 2 ^ 33 + ?c) mod 2 ^ 33) l'"
    using pass_run [OF Suc.IH [unfolded at_pass_def]] run by (simp add: chunks_per_pass_def)
  then show ?case
    using run by (simp add: pass_start_Suc mod_add_left_eq mod_add_right_eq ring_distribs add.commute)
qed

lemma pass_stream_eq:
  fixes k :: nat
  assumes "payload \<noteq> []"
  defines "d \<equiv> int k * timestampCycleDuration payload"
  shows "cc_blank (pass_stream key payload preserve k) = cc_blank (rewriteTimestamps payload (d mod 2 ^ 33))"
    and "stamps (pass_stream key payload preserve k) =
      map (\<lambda>(key, raw). (key, (raw + d) mod 2 ^ 33)) (stamps payload)"
proof -
  obtain cs l' where run: "loop_run (replicate (chunks_per_pass payload) (key, payload, preserve))
      (pass_start key payload preserve k) = (cs, l')" by fastforce
  have p: "cc_blank (concat cs) = cc_blank (rewriteTimestamps payload (d mod 2 ^ 33)) \<and>
    stamps (concat cs) = stamps (rewriteTimestamps payload (d mod 2 ^ 33))"
    using pass_run [OF at_pass_start [OF assms(1), unfolded at_pass_def]] run
    by (simp add: chunks_per_pass_def d_def)
  then show "cc_blank (pass_stream key payload preserve k) =
      cc_blank (rewriteTimestamps payload (d mod 2 ^ 33))"
    and "stamps (pass_stream key payload preserve k) =
      map (\<lambda>(key, raw). (key, (raw + d) mod 2 ^ 33)) (stamps payload)"
    using run by (simp_all add: pass_stream_def rewrite_stamps(1) mod_add_right_eq)
qed

text \<open>C33. The loop plays the payload over and over: the chunks of the \<open>k\<close>-th pass together are the
  payload, except for the continuity counters, with every PCR, PTS and DTS moved on by \<open>k\<close> cycles
  modulo 2^33.\<close>

theorem loop_pass_shifts:
  assumes "payload \<noteq> []"
  shows "cc_blank (pass_stream key payload preserve k) = cc_blank (rewriteTimestamps payload
      ((int k * timestampCycleDuration payload) mod 2 ^ 33)) \<and>
    stamps (pass_stream key payload preserve k) =
      map (\<lambda>(key, raw). (key, (raw + int k * timestampCycleDuration payload) mod 2 ^ 33)) (stamps payload)"
  using pass_stream_eq [OF assms] by simp

section \<open>The cycle of a regular clock\<close>

lemma filter_observe_key:
  "filter (\<lambda>(key, t). snd key = kind) (observe_key key raw ts) =
    (if snd key = kind then observe_key key raw (filter (\<lambda>(key, t). snd key = kind) ts)
     else filter (\<lambda>(key, t). snd key = kind) ts)"
  by (induction key raw ts rule: observe_key.induct) auto

lemma filter_observe_fold:
  "filter (\<lambda>(key, t). snd key = kind) (foldl (\<lambda>ts (key, raw). observe_key key raw ts) ts xs) =
    foldl (\<lambda>ts (key, raw). observe_key key raw ts) (filter (\<lambda>(key, t). snd key = kind) ts)
      (filter (\<lambda>(key, raw). snd key = kind) xs)"
  by (induction xs arbitrary: ts) (auto simp: filter_observe_key)

lemma duration_filter:
  "timestampDurationForKind ts kind = timestampDurationForKind (filter (\<lambda>(key, t). snd key = kind) ts) kind"
proof -
  have "foldl (duration_candidate kind) d ts =
      foldl (duration_candidate kind) d (filter (\<lambda>(key, t). snd key = kind) ts)" for d
    by (induction ts arbitrary: d) (auto simp: duration_candidate_def)
  then show ?thesis by (simp add: timestampDurationForKind_def)
qed

text \<open>The duration of a kind does not depend on the order in which the map of tracks is ranged over.\<close>

lemma duration_order:
  assumes "mset ts = mset us"
  shows "timestampDurationForKind ts kind = timestampDurationForKind us kind"
proof -
  have "fold (\<lambda>e d. duration_candidate kind d e) ts = fold (\<lambda>e d. duration_candidate kind d e) us"
    using assms by (intro fold_multiset_equiv) (auto simp: duration_candidate_def Let_def fun_eq_iff)
  then show ?thesis by (simp add: timestampDurationForKind_def foldl_conv_fold)
qed

lemma observe_one_key:
  "foldl (\<lambda>ts (key, raw). observe_key key raw ts) [(key, t)] (map (\<lambda>i. (key, f i)) is) =
    [(key, foldl (\<lambda>t raw. track_observe raw t) t (map f is))]"
  by (induction "is" arbitrary: t) auto

lemma mod_mask: "(x :: int) AND timestampMask = x mod 2 ^ 33"
  by (rule pcr.shifted_mod)

lemma observe_step:
  assumes "(raw - prev) AND timestampMask = s" "0 < s" "s < 2 ^ 32" "lo \<le> cur" "ms = 0 \<or> ms = s"
  shows "track_observe raw \<lparr>ttInitialized = True, ttPreviousRaw = prev, ttCurrent = cur, ttMinimum = lo,
      ttMaximum = cur, ttMinimumStep = ms, ttObserved = k\<rparr> =
    \<lparr>ttInitialized = True, ttPreviousRaw = raw, ttCurrent = cur + s, ttMinimum = lo,
      ttMaximum = cur + s, ttMinimumStep = s, ttObserved = k + 1\<rparr>"
  using assms by (auto simp: track_observe_def timestampHalfRange_def Let_def)

text \<open>The track of a clock that advances by \<open>s\<close>, after \<open>n + 1\<close> observations.\<close>

lemma regular_track:
  assumes "0 < s" "s < 2 ^ 32"
  shows "foldl (\<lambda>t raw. track_observe raw t) new_track (map (\<lambda>i. (r0 + int i * s) mod 2 ^ 33) [0..<Suc n]) =
    \<lparr>ttInitialized = True, ttPreviousRaw = (r0 + int n * s) mod 2 ^ 33,
     ttCurrent = r0 mod 2 ^ 33 + int n * s, ttMinimum = r0 mod 2 ^ 33,
     ttMaximum = r0 mod 2 ^ 33 + int n * s, ttMinimumStep = (if n = 0 then 0 else s), ttObserved = int (Suc n)\<rparr>"
proof (induction n)
  case 0
  then show ?case by (simp add: track_observe_def new_track_def)
next
  case (Suc n)
  let ?M = "2 ^ 33 :: int"
  have "((r0 + int (Suc n) * s) mod ?M - (r0 + int n * s) mod ?M) mod ?M = s mod ?M"
    by (simp only: mod_diff_eq) (simp add: algebra_simps)
  also have "\<dots> = s" using assms by simp
  finally have delta: "((r0 + int (Suc n) * s) mod ?M - (r0 + int n * s) mod ?M) AND timestampMask = s"
    by (simp only: mod_mask)
  have nn: "0 \<le> int n * s" using assms(1) by simp
  have "foldl (\<lambda>t raw. track_observe raw t) new_track (map (\<lambda>i. (r0 + int i * s) mod ?M) [0..<Suc (Suc n)]) =
    track_observe ((r0 + int (Suc n) * s) mod ?M)
      (foldl (\<lambda>t raw. track_observe raw t) new_track (map (\<lambda>i. (r0 + int i * s) mod ?M) [0..<Suc n]))"
    by simp
  also have "\<dots> = track_observe ((r0 + int (Suc n) * s) mod ?M)
    \<lparr>ttInitialized = True, ttPreviousRaw = (r0 + int n * s) mod ?M,
     ttCurrent = r0 mod ?M + int n * s, ttMinimum = r0 mod ?M,
     ttMaximum = r0 mod ?M + int n * s, ttMinimumStep = (if n = 0 then 0 else s), ttObserved = int (Suc n)\<rparr>"
    by (simp only: Suc.IH)
  also have "\<dots> = \<lparr>ttInitialized = True, ttPreviousRaw = (r0 + int (Suc n) * s) mod ?M,
     ttCurrent = r0 mod ?M + int (Suc n) * s, ttMinimum = r0 mod ?M,
     ttMaximum = r0 mod ?M + int (Suc n) * s, ttMinimumStep = (if Suc n = 0 then 0 else s),
     ttObserved = int (Suc (Suc n))\<rparr>"
    using observe_step [OF delta assms, of "r0 mod ?M" "r0 mod ?M + int n * s"
        "if n = 0 then 0 else s" "int (Suc n)"] nn
    by (simp add: ring_distribs)
  finally show ?case .
qed

definition pcr_stamps :: "bytes \<Rightarrow> ((u16 \<times> char) \<times> int) list" where
  "pcr_stamps payload = filter (\<lambda>(key, raw). snd key = CHR ''R'') (stamps payload)"

text \<open>A payload whose PCRs are \<open>n\<close> values of one clock, from \<open>r0\<close> on in steps of \<open>s\<close>.\<close>

definition regular_pcr :: "u16 \<Rightarrow> nat \<Rightarrow> int \<Rightarrow> int \<Rightarrow> bytes \<Rightarrow> bool" where
  "regular_pcr pid n r0 s payload \<longleftrightarrow> 2 \<le> n \<and> 0 < s \<and> s < 2 ^ 32 \<and>
     pcr_stamps payload = map (\<lambda>i. ((pid, CHR ''R''), (r0 + int i * s) mod 2 ^ 33)) [0..<n]"

lemma regular_cycle:
  assumes "regular_pcr pid n r0 s payload"
  shows "timestampCycleDuration payload = int n * s"
proof -
  let ?key = "(pid, CHR ''R'')"
  let ?f = "\<lambda>i. (r0 + int i * s) mod 2 ^ 33"
  obtain m where n: "n = Suc m" "1 \<le> m" and s: "0 < s" "s < 2 ^ 32"
    using assms by (cases n) (auto simp: regular_pcr_def)
  have st: "filter (\<lambda>(key, raw). snd key = CHR ''R'') (stamps payload) = map (\<lambda>i. (?key, ?f i)) [0..<Suc m]"
    using assms by (simp add: regular_pcr_def pcr_stamps_def n(1))
  let ?t = "foldl (\<lambda>t raw. track_observe raw t) new_track (map ?f [0..<Suc m])"
  have "filter (\<lambda>(key, t). snd key = CHR ''R'') (payload_tracks payload) =
      foldl (\<lambda>ts (key, raw). observe_key key raw ts) [] (map (\<lambda>i. (?key, ?f i)) (0 # [1..<Suc m]))"
    unfolding payload_tracks_stamps filter_observe_fold st by (simp add: upt_conv_Cons del: upt_Suc)
  also have "\<dots> = [(?key, ?t)]"
    using observe_one_key [of ?key "track_observe (?f 0) new_track" ?f "[1..<Suc m]"]
    by (simp add: upt_conv_Cons del: upt_Suc)
  finally have tr: "filter (\<lambda>(key, t). snd key = CHR ''R'') (payload_tracks payload) = [(?key, ?t)]" .
  have pos: "0 < int m * s" "0 < int m * s + s" using s n by (auto simp: add_pos_pos)
  have "timestampDurationForKind [(?key, ?t)] CHR ''R'' = Some (int n * s)"
    unfolding regular_track [OF s] using s n pos
    by (simp add: timestampDurationForKind_def duration_candidate_def Let_def ring_distribs add.commute)
  then show ?thesis
    by (simp add: timestampCycleDuration_def duration_filter [of "payload_tracks payload"] tr)
qed

text \<open>C34. The clock runs on across the repetition: when the PCRs of a payload are \<open>n\<close> values of a
  clock in steps of \<open>s\<close>, those of the \<open>k\<close>-th pass are the next \<open>n\<close> values of the same clock, so that
  the whole stream carries \<open>r0, r0 + s, r0 + 2 s, ...\<close> modulo 2^33 without a jump.\<close>

theorem clock_runs_on:
  assumes "regular_pcr pid n r0 s payload"
  shows "pcr_stamps (pass_stream key payload preserve k) =
    map (\<lambda>i. ((pid, CHR ''R''), (r0 + int (k * n + i) * s) mod 2 ^ 33)) [0..<n]"
proof -
  have "payload \<noteq> []"
    using assms by (auto simp: regular_pcr_def pcr_stamps_def stamps_packets)
  then have "pcr_stamps (pass_stream key payload preserve k) =
      map (\<lambda>(key, raw). (key, (raw + int k * (int n * s)) mod 2 ^ 33)) (pcr_stamps payload)"
    by (simp add: pcr_stamps_def pass_stream_eq(2) regular_cycle [OF assms] filter_map o_def
        case_prod_unfold)
  also have "\<dots> = map (\<lambda>i. ((pid, CHR ''R''), (r0 + int (k * n + i) * s) mod 2 ^ 33)) [0..<n]"
  proof -
    have "((r0 + int i * s) mod 2 ^ 33 + int k * (int n * s)) mod 2 ^ 33 =
        (r0 + int (k * n + i) * s) mod 2 ^ 33" for i
      by (simp only: mod_add_left_eq) (simp add: algebra_simps)
    then show ?thesis using assms by (simp add: regular_pcr_def)
  qed
  finally show ?thesis .
qed

text \<open>A payload of two packets that carry nothing but a PCR.\<close>

definition demo_pcr :: "byte \<Rightarrow> bytes" where
  "demo_pcr b = [0x47, 0x01, 0x00, 0x20, 183, 0x10, 0, 0, 0, b, 0, 0] @ replicate 176 0xFF"

lemma demo_pcr_stamps:
  "packet_stamps (demo_pcr b) = [((0x100, CHR ''R''), 2 * uint b)]" "length (demo_pcr b) = 188"
proof -
  have "PID (demo_pcr b) = 0x100" by (simp add: PID_def demo_pcr_def read_be16_def)
  moreover have "slots (demo_pcr b) = [(CHR ''R'', 6)]"
    by (simp add: slots_def demo_pcr_def pcr_slots_def pes_slots_def payloadOffset_def)
  moreover have "raw_at (demo_pcr b) CHR ''R'' 6 = 2 * uint b"
    by (simp add: raw_at_def demo_pcr_def readPCRBase_def field_width_def push_bit_eq_mult)
  ultimately show "packet_stamps (demo_pcr b) = [((0x100, CHR ''R''), 2 * uint b)]"
    by (simp add: packet_stamps_def)
qed (simp add: demo_pcr_def)

definition demo_payload :: bytes where
  "demo_payload = demo_pcr 5 @ demo_pcr 50"

lemma demo_payload_stamps:
  "stamps demo_payload = [((0x100, CHR ''R''), 10), ((0x100, CHR ''R''), 100)]" "demo_payload \<noteq> []"
  by (simp_all add: demo_payload_def stamps_packets demo_pcr_stamps packets_Cons [of _ "[]", simplified])
    (simp add: demo_pcr_def)

lemma demo_payload_regular: "regular_pcr 0x100 2 10 90 demo_payload"
  by (simp add: regular_pcr_def pcr_stamps_def demo_payload_stamps upt_rec)

theorem loop_pass_shifts_witness:
  "stamps (pass_stream ''normal'' demo_payload False 2) =
     [((0x100, CHR ''R''), 370), ((0x100, CHR ''R''), 460)]"
  using loop_pass_shifts [OF demo_payload_stamps(2), of "''normal''" False 2]
    regular_cycle [OF demo_payload_regular]
  by (simp add: demo_payload_stamps)

theorem clock_runs_on_witness:
  "pcr_stamps (pass_stream ''normal'' demo_payload True 3) =
     [((0x100, CHR ''R''), 550), ((0x100, CHR ''R''), 640)]"
  using clock_runs_on [OF demo_payload_regular, of "''normal''" True 3] by (simp add: upt_rec)

end
