(* ===== verification/RtspStream.thy ===== *)
theory RtspStream
  imports RtspWire TsLoopSpec
begin

text \<open>
  The streaming goroutine of a session (\<open>startUDPStreamingLocked\<close> and
  \<open>startInterleavedStreamingLocked\<close> of \<open>internal/rtsp/server.go\<close>): one tick of its ticker as a
  function of the goroutine's variables. The closures that the goroutine calls (the behaviour, the
  payload, the RTCP report, the accounting of a sent packet) act on a world \<open>'w\<close> that is threaded
  through in the order of the calls; the server instantiates it with its own state. Whether a write to
  the socket succeeds is an input.
\<close>

section \<open>Behaviour and payload\<close>

record stream_behavior =
  sbPacketLimit :: int
  sbDropEvery :: int
  sbDropAll :: bool
  sbStartupDelay :: duration
  sbJitterEvery :: int
  sbJitterDelay :: duration

definition plain_behavior :: stream_behavior where
  "plain_behavior = \<lparr>sbPacketLimit = 0, sbDropEvery = 0, sbDropAll = False, sbStartupDelay = 0,
     sbJitterEvery = 0, sbJitterDelay = 0\<rparr>"

record stream_payload =
  splKey :: string
  splData :: bytes
  splPreserve :: bool

definition shouldDrop :: "stream_behavior \<Rightarrow> int \<Rightarrow> bool" where
  "shouldDrop b packetNumber =
     (if sbDropAll b then True else sbDropEvery b > 0 \<and> go_rem packetNumber (sbDropEvery b) = 0)"

definition jitterFor :: "stream_behavior \<Rightarrow> int \<Rightarrow> duration" where
  "jitterFor b packetNumber =
     (if sbJitterEvery b > 0 \<and> go_rem packetNumber (sbJitterEvery b) = 0 then sbJitterDelay b else 0)"

definition rtcpDue :: "time \<Rightarrow> time \<Rightarrow> bool" where
  "rtcpDue now next_rtcp = (is_zero_time next_rtcp \<or> \<not> now < next_rtcp)"

section \<open>A tick\<close>

record streamer =
  smBehaviorSent :: int
  smPacketNumber :: int
  smBehaviorPacketNumber :: int
  smLastBehavior :: stream_behavior
  smBehaviorStartedAt :: time
  smNextRTCP :: time
  smSender :: rtp_sender
  smLoop :: timestamp_loop

definition new_streamer :: "rtp_sender \<Rightarrow> streamer" where
  "new_streamer sender = \<lparr>smBehaviorSent = 0, smPacketNumber = 0, smBehaviorPacketNumber = 0,
     smLastBehavior = plain_behavior, smBehaviorStartedAt = 0, smNextRTCP = 0, smSender = sender,
     smLoop = new_loop\<rparr>"

datatype stream_output = SentRTP bytes | SentRTCP bytes | Slept duration

text \<open>How a tick ends: the goroutine goes on, it has finished, or the connection is lost.\<close>

datatype tick_end = Running streamer | Finished | Lost

record 'w providers =
  pvRTCP :: "'w \<Rightarrow> bytes option \<times> 'w"
  pvBehavior :: "'w \<Rightarrow> stream_behavior \<times> 'w"
  pvPayload :: "'w \<Rightarrow> stream_payload \<times> 'w"
  pvOnPacketSent :: "int \<Rightarrow> 'w \<Rightarrow> 'w"

text \<open>The behaviour of this tick, and the counters that a new behaviour resets.\<close>

definition take_behavior :: "time \<Rightarrow> stream_behavior \<Rightarrow> streamer \<Rightarrow> streamer" where
  "take_behavior now b st =
     (if b \<noteq> smLastBehavior st
      then st\<lparr>smBehaviorSent := 0, smBehaviorPacketNumber := 0, smLastBehavior := b, smBehaviorStartedAt := now\<rparr>
      else st)"

definition starting_up :: "time \<Rightarrow> stream_behavior \<Rightarrow> streamer \<Rightarrow> bool" where
  "starting_up now b st =
     (sbStartupDelay b > 0 \<and> time_sub now (smBehaviorStartedAt st) < sbStartupDelay b)"

text \<open>The part after the RTCP report. \<open>send\<close> says whether the write of these bytes succeeds; \<open>wrap\<close> is
  the framing of the transport, \<open>counted\<close> what is accounted of the bytes written; \<open>strict\<close> is the
  interleaved variant, where a failed write ends the stream.\<close>

definition send_chunk :: "bool \<Rightarrow> (bytes \<Rightarrow> bytes) \<Rightarrow> (bytes \<Rightarrow> bool) \<Rightarrow> 'w providers
    \<Rightarrow> stream_behavior \<Rightarrow> bytes \<Rightarrow> streamer \<Rightarrow> 'w \<Rightarrow> stream_output list \<times> tick_end \<times> 'w" where
  "send_chunk strict wrap send pv b chunk st w =
     (let jitter = jitterFor b (smPacketNumber st);
          slept = (if jitter > 0 then [Slept jitter] else []);
          (packet, sender) = RTP_Packet (smSender st) chunk;
          frame = wrap packet;
          st = st\<lparr>smSender := sender\<rparr>
      in if strict \<and> \<not> send frame then (slept, Lost, w)
         else
           let w = (if send frame then pvOnPacketSent pv (int (length packet)) w else w);
               out = slept @ (if send frame then [SentRTP frame] else []);
               st = st\<lparr>smBehaviorSent := smBehaviorSent st + 1\<rparr>
           in if sbPacketLimit b > 0 \<and> smBehaviorSent st \<ge> sbPacketLimit b then (out, Finished, w)
              else (out, Running st, w))"

definition stream_chunk :: "bool \<Rightarrow> (bytes \<Rightarrow> bytes) \<Rightarrow> (bytes \<Rightarrow> bool) \<Rightarrow> 'w providers
    \<Rightarrow> time \<Rightarrow> streamer \<Rightarrow> 'w \<Rightarrow> stream_output list \<times> tick_end \<times> 'w" where
  "stream_chunk strict wrap send pv now st w =
     (let (b, w) = pvBehavior pv w;
          st = take_behavior now b st
      in if starting_up now b st then ([], Running st, w)
         else
           let (payload, w) = pvPayload pv w;
               (chunk, loop) = Next (splKey payload) (splData payload) (splPreserve payload) (smLoop st);
               st = st\<lparr>smLoop := loop\<rparr>
           in if length chunk > 0 then
                let st = st\<lparr>smPacketNumber := smPacketNumber st + 1,
                         smBehaviorPacketNumber := smBehaviorPacketNumber st + 1\<rparr>
                in if \<not> shouldDrop b (smBehaviorPacketNumber st)
                   then send_chunk strict wrap send pv b chunk st w
                   else ([], Running (st\<lparr>smSender := Skip (smSender st)\<rparr>), w)
              else ([], Running st, w))"

text \<open>Sending an RTCP report: over UDP a failed write is ignored, interleaved it is the result.\<close>

definition sendUDPRTCP :: "(bytes \<Rightarrow> bool) \<Rightarrow> 'w providers \<Rightarrow> 'w \<Rightarrow> stream_output list \<times> 'w" where
  "sendUDPRTCP send pv w =
     (case pvRTCP pv w of (p, w) \<Rightarrow>
        (case p of
           Some (b # bs) \<Rightarrow> if send (b # bs) then [SentRTCP (b # bs)] else []
         | _ \<Rightarrow> [], w))"

definition writeInterleavedRTCP :: "int \<Rightarrow> (bytes \<Rightarrow> bool) \<Rightarrow> 'w providers \<Rightarrow> 'w \<Rightarrow> stream_output list \<times> bool \<times> 'w" where
  "writeInterleavedRTCP rtcpChannel send pv w =
     (case pvRTCP pv w of (p, w) \<Rightarrow>
        (case p of
           Some (b # bs) \<Rightarrow>
             let frame = interleavedFrame rtcpChannel (b # bs) in
             if send frame then ([SentRTCP frame], True, w) else ([], False, w)
         | _ \<Rightarrow> ([], True, w)))"

definition udp_tick :: "int \<Rightarrow> duration \<Rightarrow> (bytes \<Rightarrow> bool) \<Rightarrow> 'w providers
    \<Rightarrow> time \<Rightarrow> streamer \<Rightarrow> 'w \<Rightarrow> stream_output list \<times> tick_end \<times> 'w" where
  "udp_tick rtcpPort interval send pv now st w =
     (let (report, st, w) =
            (if rtcpPort > 0 \<and> rtcpDue now (smNextRTCP st) then
               (case sendUDPRTCP send pv w of (sent, w) \<Rightarrow> (sent, st\<lparr>smNextRTCP := now + interval\<rparr>, w))
             else ([], st, w));
          (out, e, w) = stream_chunk False (\<lambda>p. p) send pv now st w
      in (report @ out, e, w))"

definition interleaved_tick :: "int \<Rightarrow> int \<Rightarrow> duration \<Rightarrow> (bytes \<Rightarrow> bool) \<Rightarrow> 'w providers
    \<Rightarrow> time \<Rightarrow> streamer \<Rightarrow> 'w \<Rightarrow> stream_output list \<times> tick_end \<times> 'w" where
  "interleaved_tick rtpChannel rtcpChannel interval send pv now st w =
     (let (report, lost, st, w) =
            (if rtcpDue now (smNextRTCP st) then
               (case writeInterleavedRTCP rtcpChannel send pv w of (sent, ok, w) \<Rightarrow>
                  if ok then (sent, False, st\<lparr>smNextRTCP := now + interval\<rparr>, w) else (sent, True, st, w))
             else ([], False, st, w))
      in if lost then ([], Lost, w)
         else case stream_chunk True (interleavedFrame rtpChannel) send pv now st w of
           (out, e, w) \<Rightarrow> (report @ out, e, w))"

section \<open>Runs\<close>

text \<open>The ticks of a goroutine at given instants, until it ends.\<close>

fun stream_run :: "(time \<Rightarrow> streamer \<Rightarrow> 'w \<Rightarrow> stream_output list \<times> tick_end \<times> 'w)
    \<Rightarrow> time list \<Rightarrow> streamer \<Rightarrow> 'w \<Rightarrow> stream_output list list \<times> tick_end \<times> 'w" where
  "stream_run tick [] st w = ([], Running st, w)"
| "stream_run tick (now # nows) st w =
     (case tick now st w of
        (out, Running st', w) \<Rightarrow>
          (case stream_run tick nows st' w of (outs, e, w) \<Rightarrow> (out # outs, e, w))
      | (out, e, w) \<Rightarrow> ([out], e, w))"

section \<open>The loop never runs dry\<close>

definition loop_ok :: "timestamp_loop \<Rightarrow> bool" where
  "loop_ok l \<longleftrightarrow> (\<forall>r. tlpRendered l = Some r \<longrightarrow> r \<noteq> [] \<and> tlpPayload l \<noteq> [])"

lemma rewriteTimestamps_Nil [simp]: "rewriteTimestamps payload d = [] \<longleftrightarrow> payload = []"
  using rewrite_stamps(2) [of payload d] by (metis length_0_conv)

lemma ChunkAt_nonempty: "r \<noteq> [] \<Longrightarrow> fst (ChunkAt r off) \<noteq> []"
  by (auto simp: ChunkAt_def chunkSize_def Let_def nat_less_iff)

lemma rewrite_counters_length: "length (snd (rewriteContinuityCounters payload m pr)) = length payload"
  unfolding rewriteContinuityCounters_def
  by (rule each_packet_length) (auto simp: rewrite_cc_packet_def Let_def split: option.splits)

lemma loop_prepared:
  assumes "loop_ok l" "payload \<noteq> []"
  shows "\<exists>r. tlpRendered (loop_wrap (loop_load key payload l)) = Some r \<and> r \<noteq> [] \<and>
    tlpPayload (loop_wrap (loop_load key payload l)) \<noteq> []"
  using assms by (auto simp: loop_ok_def loop_wrap_def loop_load_def Let_def)

lemma Next_nonempty:
  assumes "loop_ok l" "payload \<noteq> []" "Next key payload pr l = (chunk, l')"
  shows "chunk \<noteq> [] \<and> loop_ok l'"
proof -
  define p where "p = loop_wrap (loop_load key payload l)"
  obtain r where r: "tlpRendered p = Some r" "r \<noteq> []" "tlpPayload p \<noteq> []"
    using loop_prepared [OF assms(1,2)] by (auto simp: p_def)
  obtain c nx where c: "ChunkAt r (tlpOffset p) = (c, nx)" by fastforce
  obtain m1 c1 where cc: "rewriteContinuityCounters c (tlpContinuity p) pr = (m1, c1)" by fastforce
  have "c \<noteq> []" using ChunkAt_nonempty [OF r(2), of "tlpOffset p"] c by simp
  then have c1: "c1 \<noteq> []" using rewrite_counters_length [of c "tlpContinuity p" pr] cc by auto
  then have "patch k c1 r \<noteq> []" for k by (simp add: patch_def)
  with c1 show ?thesis
    using assms(2,3) r c cc by (auto simp: Next_def Let_def p_def [symmetric] loop_ok_def)
qed

section \<open>What the behaviours do to a stream\<close>

definition sent_packets :: "stream_output list \<Rightarrow> bytes list" where
  "sent_packets outs = List.map_filter (\<lambda>x. case x of SentRTP p \<Rightarrow> Some p | _ \<Rightarrow> None) outs"

lemma sent_packets_simps [simp]:
  "sent_packets [] = []" "sent_packets (xs @ ys) = sent_packets xs @ sent_packets ys"
  "sent_packets [SentRTP p] = [p]" "sent_packets [SentRTCP q] = []" "sent_packets [Slept d] = []"
  by (simp_all add: sent_packets_def map_filter_def)

definition sent_sequences :: "stream_output list list \<Rightarrow> u16 list" where
  "sent_sequences outs = map rtp_sequence (sent_packets (concat outs))"

lemma rtp_sequence_packet: "rtp_sequence (fst (RTP_Packet r chunk)) = rtpSequence r"
  using rtp_packet_fields [of r chunk] by simp

text \<open>The state of a goroutine after \<open>k\<close> chunks under one behaviour, of which \<open>j\<close> were sent.\<close>

definition streamed :: "stream_behavior \<Rightarrow> nat \<Rightarrow> int \<Rightarrow> streamer \<Rightarrow> bool" where
  "streamed b k j st \<longleftrightarrow> smPacketNumber st = int k \<and> smBehaviorPacketNumber st = int k \<and>
     smBehaviorSent st = j \<and> rtpSequence (smSender st) = of_nat k \<and> loop_ok (smLoop st) \<and>
     (smLastBehavior st = b \<or> (k = 0 \<and> j = 0))"

lemma take_streamed: "streamed b k j st \<Longrightarrow> streamed b k j (take_behavior now b st) \<and>
    smLastBehavior (take_behavior now b st) = b"
  by (auto simp: streamed_def take_behavior_def)

lemma udp_tick_streamed:
  assumes pv: "\<And>w. fst (pvBehavior pv w) = b" "\<And>w. fst (pvPayload pv w) = payload"
    and "splData payload \<noteq> []" "sbStartupDelay b \<le> 0" "streamed b k j st"
    and t: "udp_tick port interval (\<lambda>_. True) pv now st w = (out, e, w')"
  shows "if shouldDrop b (int (Suc k))
    then sent_packets out = [] \<and> (\<exists>st'. e = Running st' \<and> streamed b (Suc k) j st')
    else map rtp_sequence (sent_packets out) = [of_nat k] \<and>
      (if sbPacketLimit b > 0 \<and> j + 1 \<ge> sbPacketLimit b then e = Finished
       else \<exists>st'. e = Running st' \<and> streamed b (Suc k) (j + 1) st')"
proof -
  obtain rep st1 w1 where rep: "(if port > 0 \<and> rtcpDue now (smNextRTCP st) then
        (case sendUDPRTCP (\<lambda>_. True) pv w of (sent, w) \<Rightarrow> (sent, st\<lparr>smNextRTCP := now + interval\<rparr>, w))
      else ([], st, w)) = (rep, st1, w1)" by (metis prod_cases3)
  have rep0: "sent_packets rep = []" and st1: "streamed b k j st1"
    using rep assms(5) by (auto simp: streamed_def sendUDPRTCP_def split: if_splits prod.splits option.splits list.splits)
  obtain w2 where b: "pvBehavior pv w1 = (b, w2)" using pv(1) [of w1] by (metis prod.collapse)
  obtain w3 where p: "pvPayload pv w2 = (payload, w3)" using pv(2) [of w2] by (metis prod.collapse)
  define st2 where "st2 = take_behavior now b st1"
  have st2: "streamed b k j st2" "smLastBehavior st2 = b" using take_streamed [OF st1] by (simp_all add: st2_def)
  obtain c l where c: "Next (splKey payload) (splData payload) (splPreserve payload) (smLoop st2) = (c, l)"
    by fastforce
  have cl: "c \<noteq> []" "loop_ok l"
    using Next_nonempty [OF _ assms(3) c] st2 by (auto simp: streamed_def)
  let ?st3 = "st2\<lparr>smLoop := l, smPacketNumber := smPacketNumber st2 + 1,
     smBehaviorPacketNumber := smBehaviorPacketNumber st2 + 1\<rparr>"
  have sc: "stream_chunk False (\<lambda>p. p) (\<lambda>_. True) pv now st1 w1 =
      (if \<not> shouldDrop b (int (Suc k)) then send_chunk False (\<lambda>p. p) (\<lambda>_. True) pv b c ?st3 w3
       else ([], Running (?st3\<lparr>smSender := Skip (smSender ?st3)\<rparr>), w3))"
    using b p c cl st2 assms(4)
    by (simp add: stream_chunk_def st2_def [symmetric] starting_up_def streamed_def add.commute)
  have t2: "(out, e, w') = (case stream_chunk False (\<lambda>p. p) (\<lambda>_. True) pv now st1 w1 of
      (o2, e2, w2) \<Rightarrow> (rep @ o2, e2, w2))"
    using t by (simp add: udp_tick_def rep [simplified])
  obtain pk where pk: "RTP_Packet (smSender st2) c = (pk, Skip (smSender st2))" "rtp_sequence pk = of_nat k"
    using rtp_sequence_packet [of "smSender st2" c] st2 by (simp add: RTP_Packet_def streamed_def)
  show ?thesis
    using t2 rep0 st2 cl pk
    by (auto simp: sc send_chunk_def Let_def streamed_def Skip_fields split: if_splits)
qed

lemma sent_sequences_Cons: "sent_sequences (out # outs) = map rtp_sequence (sent_packets out) @ sent_sequences outs"
  by (simp add: sent_sequences_def)

lemma stream_run_streamed:
  assumes pv: "\<And>w. fst (pvBehavior pv w) = b" "\<And>w. fst (pvPayload pv w) = payload"
    and "splData payload \<noteq> []" "sbStartupDelay b \<le> 0" "streamed b k j st"
    "sbPacketLimit b > 0 \<Longrightarrow> j < sbPacketLimit b"
  shows "sent_sequences (fst (stream_run (udp_tick port interval (\<lambda>_. True) pv) nows st w)) =
    map of_nat ((if sbPacketLimit b > 0 then take (nat (sbPacketLimit b - j)) else id)
      (filter (\<lambda>i. \<not> shouldDrop b (int (Suc i))) [k..<k + length nows]))"
  using assms(5,6)
proof (induction nows arbitrary: k j st w)
  case Nil
  then show ?case by (simp add: sent_sequences_def)
next
  case (Cons now nows)
  let ?f = "\<lambda>i. \<not> shouldDrop b (int (Suc i))"
  obtain out e w1 where t: "udp_tick port interval (\<lambda>_. True) pv now st w = (out, e, w1)"
    by (metis prod_cases3)
  have upt: "[k..<k + length (now # nows)] = k # [Suc k..<Suc k + length nows]"
    by (simp add: upt_conv_Cons del: upt_Suc)
  note tick = udp_tick_streamed [OF pv assms(3,4) Cons.prems(1) t]
  show ?case
  proof (cases "shouldDrop b (int (Suc k))")
    case True
    then obtain st' where st': "e = Running st'" "streamed b (Suc k) j st'" "sent_packets out = []"
      using tick by auto
    show ?thesis
      unfolding upt using Cons.IH [OF st'(2) Cons.prems(2), of w1] True st'
      by (cases "stream_run (udp_tick port interval (\<lambda>_. True) pv) nows st' w1")
        (simp add: t sent_sequences_Cons del: upt_Suc)
  next
    case False
    then have seq: "map rtp_sequence (sent_packets out) = [of_nat k]" using tick by simp
    show ?thesis
    proof (cases "sbPacketLimit b > 0 \<and> j + 1 \<ge> sbPacketLimit b")
      case True
      then have "e = Finished" "sbPacketLimit b - j = 1" using tick False Cons.prems(2) by auto
      then show ?thesis unfolding upt using False True seq
        by (simp add: t sent_sequences_def del: upt_Suc)
    next
      case more: False
      then obtain st' where st': "e = Running st'" "streamed b (Suc k) (j + 1) st'" using tick False by auto
      have lim: "sbPacketLimit b > 0 \<Longrightarrow> j + 1 < sbPacketLimit b" using more by auto
      have n: "nat (sbPacketLimit b - j) = Suc (nat (sbPacketLimit b - (j + 1)))" if "sbPacketLimit b > 0"
        using lim [OF that] by simp
      show ?thesis
        unfolding upt using Cons.IH [OF st'(2) lim, of w1] False st' seq n
        by (cases "stream_run (udp_tick port interval (\<lambda>_. True) pv) nows st' w1")
          (simp add: t sent_sequences_Cons del: upt_Suc)
    qed
  qed
qed

text \<open>C40. What a behaviour does to a stream: of the chunks that the ticks of a session produce, numbered
  from 0, exactly those are sent that the behaviour does not drop, up to its packet limit, and each
  under its own sequence number. So \<open>rtp_loss\<close> loses every third packet and the receiver sees the gap,
  \<open>rtp_blackhole\<close> sends nothing, and \<open>rtp_stop\<close> ends the stream after its burst.\<close>

theorem stream_follows_behavior:
  assumes "\<And>w. fst (pvBehavior pv w) = b" "\<And>w. fst (pvPayload pv w) = payload"
    "splData payload \<noteq> []" "sbStartupDelay b \<le> 0"
  shows "sent_sequences (fst (stream_run (udp_tick port interval (\<lambda>_. True) pv) nows (new_streamer NewRTPSender) w)) =
    map of_nat ((if sbPacketLimit b > 0 then take (nat (sbPacketLimit b)) else id)
      (filter (\<lambda>i. \<not> shouldDrop b (int (Suc i))) [0..<length nows]))"
proof -
  have "streamed b 0 0 (new_streamer NewRTPSender)"
    by (simp add: streamed_def new_streamer_def NewRTPSender_def new_loop_def loop_ok_def)
  from stream_run_streamed [OF assms this, of port interval nows w] show ?thesis by simp
qed

definition demo_providers :: "stream_behavior \<Rightarrow> unit providers" where
  "demo_providers b = \<lparr>pvRTCP = (\<lambda>w. (Some [0x80], w)), pvBehavior = (\<lambda>w. (b, w)),
     pvPayload = (\<lambda>w. (\<lparr>splKey = ''normal'', splData = demo_payload, splPreserve = False\<rparr>, w)),
     pvOnPacketSent = (\<lambda>_ w. w)\<rparr>"

theorem stream_follows_behavior_witness:
  "sent_sequences (fst (stream_run (udp_tick 5001 1000 (\<lambda>_. True) (demo_providers (plain_behavior\<lparr>sbDropEvery := 3\<rparr>)))
     [10, 20, 30, 40, 50, 60, 70] (new_streamer NewRTPSender) ())) = [0, 1, 3, 4, 6] \<and>
   sent_sequences (fst (stream_run (udp_tick 5001 1000 (\<lambda>_. True) (demo_providers (plain_behavior\<lparr>sbPacketLimit := 3\<rparr>)))
     [10, 20, 30, 40, 50, 60, 70] (new_streamer NewRTPSender) ())) = [0, 1, 2]"
proof -
  have "sent_sequences (fst (stream_run (udp_tick 5001 1000 (\<lambda>_. True) (demo_providers b))
      [10, 20, 30, 40, 50, 60, 70] (new_streamer NewRTPSender) ())) =
    map of_nat ((if sbPacketLimit b > 0 then take (nat (sbPacketLimit b)) else id)
      (filter (\<lambda>i. \<not> shouldDrop b (int (Suc i))) [0..<length [10, 20, 30, 40, 50, 60, 70 :: time]]))"
    if "sbStartupDelay b \<le> 0" for b
    by (rule stream_follows_behavior [where payload = "\<lparr>splKey = ''normal'', splData = demo_payload, splPreserve = False\<rparr>"])
      (simp_all add: demo_providers_def demo_payload_stamps that)
  then show ?thesis by (simp add: plain_behavior_def shouldDrop_def go_rem_nonneg upt_rec)
qed

end
