(* ===== verification/GoTime.thy ===== *)
theory GoTime
  imports GoLib
begin

text \<open>
  The calendar part of package \<open>time\<close>: the proleptic Gregorian date and the clock of an instant. Go's
  zero time is 0001-01-01 00:00 UTC, so the days since then are the instant divided by a day. A
  location is the offset from UTC that it has at each instant.
\<close>

section \<open>Definitions\<close>

type_synonym location = "time \<Rightarrow> duration"

definition day :: duration where "day = 24 * hour"

definition leap_year :: "int \<Rightarrow> bool" where
  "leap_year y \<longleftrightarrow> y mod 4 = 0 \<and> (y mod 100 \<noteq> 0 \<or> y mod 400 = 0)"

text \<open>Days from 0001-01-01 to the first of January of a year.\<close>

definition days_before_year :: "int \<Rightarrow> int" where
  "days_before_year y = 365 * (y - 1) + (y - 1) div 4 - (y - 1) div 100 + (y - 1) div 400"

definition year_of_day :: "int \<Rightarrow> int" where
  "year_of_day d =
     (let y = 1 + (400 * d) div 146097
      in if d < days_before_year y then y - 1
         else if days_before_year (y + 1) \<le> d then y + 1 else y)"

definition month_lengths :: "int \<Rightarrow> int list" where
  "month_lengths y = [31, if leap_year y then 29 else 28, 31, 30, 31, 30, 31, 31, 30, 31, 30, 31]"

fun month_day :: "int \<Rightarrow> int \<Rightarrow> int list \<Rightarrow> int \<times> int" where
  "month_day m d [] = (m, d + 1)"
| "month_day m d (len # lens) = (if d < len then (m, d + 1) else month_day (m + 1) (d - len) lens)"

definition civil_date :: "int \<Rightarrow> int \<times> int \<times> int" where
  "civil_date d =
     (let y = year_of_day d; (m, dom) = month_day 1 (d - days_before_year y) (month_lengths y)
      in (y, m, dom))"

definition clock_hour :: "time \<Rightarrow> int" where "clock_hour t = (t mod day) div hour"
definition clock_minute :: "time \<Rightarrow> int" where "clock_minute t = (t mod hour) div minute"
definition clock_second :: "time \<Rightarrow> int" where "clock_second t = (t mod minute) div second"

text \<open>\<open>t.Date()\<close> in UTC, and \<open>t.Format("20060102150405")\<close>.\<close>

definition date_of :: "time \<Rightarrow> int \<times> int \<times> int" where
  "date_of t = civil_date (t div day)"

definition format_stamp :: "time \<Rightarrow> string" where
  "format_stamp t =
     (case date_of t of (y, m, d) \<Rightarrow>
        pad_int 4 y @ pad_int 2 m @ pad_int 2 d @ pad_int 2 (clock_hour t)
        @ pad_int 2 (clock_minute t) @ pad_int 2 (clock_second t))"

section \<open>Years\<close>

lemma div_pred:
  fixes y n :: int
  assumes "0 < n"
  shows "(y - 1) div n = (if y mod n = 0 then y div n - 1 else y div n)"
proof (cases "y mod n = 0")
  case True
  then have "y - 1 = n * (y div n - 1) + (n - 1)"
    using mult_div_mod_eq [of n y] by (simp add: algebra_simps)
  then show ?thesis using assms True by (intro int_div_pos_eq [of _ _ _ "n - 1", THEN trans]) auto
next
  case False
  then have "y - 1 = n * (y div n) + (y mod n - 1)"
    using mult_div_mod_eq [of n y] by (simp add: algebra_simps)
  moreover have "0 \<le> y mod n - 1" "y mod n - 1 < n"
    using False pos_mod_sign [OF assms, of y] pos_mod_bound [OF assms, of y] by linarith+
  ultimately have "(y - 1) div n = y div n" by (rule int_div_pos_eq)
  then show ?thesis using False by simp
qed

lemma days_in_year:
  "days_before_year (y + 1) = days_before_year y + (if leap_year y then 366 else 365)"
proof -
  have "y mod 400 = 0 \<Longrightarrow> y mod 100 = 0" "y mod 100 = 0 \<Longrightarrow> y mod 4 = 0"
    using dvd_trans [of 100 400 y] dvd_trans [of 4 100 y] by (simp_all add: mod_eq_0_iff_dvd)
  then show ?thesis
    by (auto simp: days_before_year_def leap_year_def div_pred)
qed

lemma days_before_year_bounds:
  "146097 * (y - 1) - 699 \<le> 400 * days_before_year y \<and>
   400 * days_before_year y \<le> 146097 * (y - 1) + 396"
proof -
  define q where "q = y - 1"
  define a b c where "a = q div 4" and "b = q div 100" and "c = q div 400"
  have "4 * a \<le> q" "q \<le> 4 * a + 3" "100 * b \<le> q" "q \<le> 100 * b + 99" "400 * c \<le> q" "q \<le> 400 * c + 399"
    unfolding a_def b_def c_def by presburger+
  then show ?thesis
    unfolding days_before_year_def q_def [symmetric] a_def [symmetric] b_def [symmetric] c_def [symmetric]
    by (intro conjI) (simp_all add: algebra_simps)
qed

text \<open>The year of a day is the one whose days hold it.\<close>

lemma year_of_day_range:
  "days_before_year (year_of_day d) \<le> d \<and> d < days_before_year (year_of_day d + 1)"
proof -
  define y where "y = 1 + (400 * d) div 146097"
  have y: "146097 * (y - 1) \<le> 400 * d" "400 * d < 146097 * y"
  proof -
    define k where "k = (400 * d) div 146097"
    have "146097 * k \<le> 400 * d" "400 * d < 146097 * k + 146097"
      using pos_mod_bound [of 146097 "400 * d"] pos_mod_sign [of 146097 "400 * d"]
        mult_div_mod_eq [of 146097 "400 * d"] unfolding k_def [symmetric] by auto
    then show "146097 * (y - 1) \<le> 400 * d" "400 * d < 146097 * y"
      unfolding y_def k_def [symmetric] by (simp_all add: algebra_simps)
  qed
  have low: "days_before_year (y - 1) \<le> d"
    using days_before_year_bounds [of "y - 1"] y by (simp add: algebra_simps)
  have high: "d < days_before_year (y + 2)"
    using days_before_year_bounds [of "y + 2"] y by (simp add: algebra_simps)
  have year: "year_of_day d = (if d < days_before_year y then y - 1
      else if days_before_year (y + 1) \<le> d then y + 1 else y)"
    unfolding year_of_day_def Let_def y_def ..
  have "y - 1 + 1 = y" "y + 1 + 1 = y + 2" by simp_all
  then show ?thesis unfolding year using low high by (simp add: add.commute split: if_split)
qed

text \<open>The month walk over any list of month lengths that covers the day.\<close>

lemma month_day_range:
  "0 \<le> d \<Longrightarrow> d < sum_list lens \<Longrightarrow>
     \<exists>k<length lens. month_day m d lens = (m + int k, d - sum_list (take k lens) + 1) \<and>
       sum_list (take k lens) \<le> d \<and> d < sum_list (take (Suc k) lens)"
proof (induction lens arbitrary: m d)
  case (Cons len lens)
  show ?case
  proof (cases "d < len")
    case True
    with Cons.prems show ?thesis by (intro exI [of _ 0]) simp
  next
    case False
    then obtain k where "k < length lens" "month_day (m + 1) (d - len) lens =
        (m + 1 + int k, d - len - sum_list (take k lens) + 1)"
        "sum_list (take k lens) \<le> d - len" "d - len < sum_list (take (Suc k) lens)"
      using Cons.IH [of "d - len" "m + 1"] Cons.prems by auto
    with False show ?thesis by (intro exI [of _ "Suc k"]) auto
  qed
qed simp

lemma sum_month_lengths: "sum_list (month_lengths y) = (if leap_year y then 366 else 365)"
  by (simp add: month_lengths_def)

text \<open>The date of a day, as the number of days in the months before it.\<close>

lemma civil_date_split:
  obtains y k where "civil_date d = (y, 1 + int k, d - days_before_year y
      - sum_list (take k (month_lengths y)) + 1)"
    "k < 12" "days_before_year y + sum_list (take k (month_lengths y)) \<le> d"
    "d < days_before_year y + sum_list (take (Suc k) (month_lengths y))"
proof -
  define y where "y = year_of_day d"
  have "0 \<le> d - days_before_year y" "d - days_before_year y < sum_list (month_lengths y)"
    using year_of_day_range [of d] by (simp_all add: y_def days_in_year sum_month_lengths)
  then obtain k where "k < length (month_lengths y)"
      "month_day 1 (d - days_before_year y) (month_lengths y) =
        (1 + int k, d - days_before_year y - sum_list (take k (month_lengths y)) + 1)"
      "sum_list (take k (month_lengths y)) \<le> d - days_before_year y"
      "d - days_before_year y < sum_list (take (Suc k) (month_lengths y))"
    using month_day_range [of "d - days_before_year y" "month_lengths y" 1] by blast
  then show thesis
    by (intro that [of y k]) (simp_all add: civil_date_def y_def [symmetric] Let_def month_lengths_def)
qed

section \<open>Clocks\<close>

lemma clock_ranges:
  "0 \<le> clock_hour t \<and> clock_hour t < 24" "0 \<le> clock_minute t \<and> clock_minute t < 60"
  "0 \<le> clock_second t \<and> clock_second t < 60"
proof -
  have "a mod (k * b) div b < k" if "0 < b" "0 < k" for a b k :: int
  proof -
    have x: "a mod (k * b) < b * k" using that by (simp add: mult.commute)
    have "b * (a mod (k * b) div b) \<le> a mod (k * b)"
      using mult_div_mod_eq [of b "a mod (k * b)"] pos_mod_sign [OF that(1), of "a mod (k * b)"]
      by linarith
    then have "b * (a mod (k * b) div b) < b * k" using x by (rule le_less_trans)
    then show ?thesis using that(1) by (simp add: mult_less_cancel_left_pos)
  qed
  note less = this
  have pos: "0 < hour" "0 < minute" "0 < second"
    by (simp_all add: hour_def minute_def second_def millisecond_def)
  show "0 \<le> clock_hour t \<and> clock_hour t < 24" "0 \<le> clock_minute t \<and> clock_minute t < 60"
    "0 \<le> clock_second t \<and> clock_second t < 60"
    using less [of hour 24 t] less [of minute 60 t] less [of second 60 t] pos
    by (simp_all add: clock_hour_def clock_minute_def clock_second_def day_def hour_def minute_def
        pos_imp_zdiv_nonneg_iff)
qed

end
