(* ===== verification/TsPsi.thy ===== *)
theory TsPsi
  imports TsPacket GoTime
begin

text \<open>
  The synthetic transport stream of a service (\<open>internal/ts/service.go\<close>): the PAT, PMT, SDT, NIT and
  EIT sections, the PES payloads, and the packets they are put into. Go's \<open>int\<close> values of the service
  profile are integers; \<open>byte(x)\<close> keeps the low 8 bits. The \<open>float64\<close> products of
  \<open>modifiedJulianDate\<close> are exact, or further from an integer than the rounding error, so their
  truncations are integer divisions.
\<close>

section \<open>Profiles and descriptors\<close>

record service_profile =
  spID :: string
  spName :: string
  spServiceID :: int
  spPMTPID :: int
  spVideoPID :: int
  spAudioPID :: int

text \<open>\<open>EITOptions\<close>; a \<open>time.Time\<close> is an instant and the location it is shown in.\<close>

record eit_options =
  eitNow :: time
  eitLocation :: location
  eitSuppress :: bool

definition maxShortEventTitleBytes :: nat where "maxShortEventTitleBytes = 146"

definition hi_byte :: "int \<Rightarrow> byte" where "hi_byte i = byte_of (drop_bit 8 i)"

text \<open>The high four bits of a 12-bit length field.\<close>

definition len_hi :: "nat \<Rightarrow> byte" where "len_hi n = of_nat (drop_bit 8 n AND 0x0F)"

definition cappedDescriptorString :: "bytes \<Rightarrow> nat \<Rightarrow> bytes" where
  "cappedDescriptorString val cap = (if length val > cap then take cap val else val)"

definition serviceDescriptor :: "string \<Rightarrow> string \<Rightarrow> bytes" where
  "serviceDescriptor provider service =
     (let providerBytes = cappedDescriptorString (str_bytes provider) 32;
          serviceBytes = cappedDescriptorString (str_bytes service) 64;
          descriptor = [0x48, 0x00, 0x19, of_nat (length providerBytes)] @ providerBytes
            @ [of_nat (length serviceBytes)] @ serviceBytes
      in descriptor[1 := of_nat (length descriptor - 2)])"

definition networkNameDescriptor :: "string \<Rightarrow> bytes" where
  "networkNameDescriptor name =
     (let nameBytes = cappedDescriptorString (str_bytes name) 64
      in [0x40, of_nat (length nameBytes)] @ nameBytes)"

definition shortEventDescriptor :: "string \<Rightarrow> bytes" where
  "shortEventDescriptor title =
     (let titleBytes = str_bytes title;
          titleBytes = (if length titleBytes > maxShortEventTitleBytes
                        then take maxShortEventTitleBytes titleBytes else titleBytes);
          descriptor = [0x4D, 0x00, char_byte (CHR ''e''), char_byte (CHR ''n''),
            char_byte (CHR ''g''), of_nat (length titleBytes)] @ titleBytes @ [0x00]
      in descriptor[1 := of_nat (length descriptor - 2)])"

section \<open>Sections\<close>

definition patSection :: "service_profile \<Rightarrow> bytes" where
  "patSection p = appendCRC
     [0x00, 0xB0, 0x0D, 0x00, 0x01, 0xC1, 0x00, 0x00,
      hi_byte (spServiceID p), byte_of (spServiceID p),
      0xE0 OR hi_byte (spPMTPID p), byte_of (spPMTPID p)]"

definition pmtSection :: "service_profile \<Rightarrow> bytes" where
  "pmtSection p = appendCRC
     [0x02, 0xB0, 0x17, hi_byte (spServiceID p), byte_of (spServiceID p), 0xC1, 0x00, 0x00,
      0xE0 OR hi_byte (spVideoPID p), byte_of (spVideoPID p),
      0xF0, 0x00,
      0x02, 0xE0 OR hi_byte (spVideoPID p), byte_of (spVideoPID p), 0xF0, 0x00,
      0x03, 0xE0 OR hi_byte (spAudioPID p), byte_of (spAudioPID p), 0xF0, 0x00]"

text \<open>The last steps of the builders: write the section length into bytes 1 and 2, add the CRC.\<close>

definition finishSection :: "byte \<Rightarrow> bytes \<Rightarrow> bytes" where
  "finishSection flags sect =
     (let sectionLength = length sect - 3 + 4
      in appendCRC (sect[1 := flags OR len_hi sectionLength, 2 := of_nat sectionLength]))"

definition sdtSection :: "service_profile \<Rightarrow> bool \<Rightarrow> bytes" where
  "sdtSection p eitPresentFollowing =
     (let descriptor = serviceDescriptor ''satip-lab'' (spName p);
          loopLength = length descriptor;
          eitFlags = (if eitPresentFollowing then 0xFC OR 0x02 else 0xFC)
      in finishSection 0xF0
           ([0x42, 0xF0, 0x00, 0x00, 0x01, 0xC1, 0x00, 0x00, 0x00, 0x01, 0xFF,
             hi_byte (spServiceID p), byte_of (spServiceID p), eitFlags,
             0x80 OR len_hi loopLength, of_nat loopLength] @ descriptor))"

definition nitSection :: bytes where
  "nitSection =
     (let networkDescriptor = networkNameDescriptor ''satip-lab DVB-S2'';
          networkLoopLength = length networkDescriptor
      in finishSection 0xF0
           ([0x40, 0xF0, 0x00, 0x00, 0x01, 0xC1, 0x00, 0x00,
             0xF0 OR len_hi networkLoopLength, of_nat networkLoopLength] @ networkDescriptor
            @ [0xF0, 0x06, 0x00, 0x01, 0x00, 0x01, 0xF0, 0x00]))"

definition bcdByte :: "int \<Rightarrow> byte" where
  "bcdByte v = byte_of (push_bit 4 (go_quot v 10) OR go_rem v 10)"

definition modifiedJulianDate :: "int \<times> int \<times> int \<Rightarrow> int" where
  "modifiedJulianDate date =
     (case date of (year, month, d) \<Rightarrow>
        let (year, month) = (if month \<le> 2 then (year - 1, month + 12) else (year, month))
        in go_quot (36525 * year) 100 + go_quot (306001 * (month + 1)) 10000 + d - 14956)"

definition eventID :: "string \<Rightarrow> time \<Rightarrow> u16" where
  "eventID serviceID start =
     (let crc = mpegCRC32 (str_bytes (serviceID @ ''-'' @ format_stamp start));
          i = ucast (crc AND 0xFFFF)
      in if i = 0 then 1 else i)"

definition densityForSyntheticService :: "string \<Rightarrow> duration" where
  "densityForSyntheticService serviceID =
     (if serviceID = ''zdf-hd'' then 30 * minute
      else if serviceID = ''arte-hd'' then 45 * minute
      else if serviceID = ''phoenix-hd'' then 90 * minute
      else if serviceID = ''3sat-hd'' then 2 * hour
      else hour)"

definition eitSection :: "service_profile \<Rightarrow> int \<Rightarrow> int \<Rightarrow> int \<Rightarrow> location \<Rightarrow> time \<Rightarrow> duration \<Rightarrow> bytes" where
  "eitSection p sectionNumber lastSectionNumber runningStatus loc start dur =
     (let shown = start + loc start;
          descriptor = shortEventDescriptor (spName p @ '' Lab Programme '' @ pad_int 2 (clock_hour shown)
            @ '':'' @ pad_int 2 (clock_minute shown));
          evid = eventID (spID p) start;
          mjd = modifiedJulianDate (date_of start);
          loopLength = length descriptor
      in finishSection 0xB0
           ([0x4E, 0xB0, 0x00, hi_byte (spServiceID p), byte_of (spServiceID p), 0xC1,
             byte_of sectionNumber, byte_of lastSectionNumber, 0x00, 0x01, 0x00, 0x01,
             byte_of lastSectionNumber, 0x4E]
            @ [ucast (drop_bit 8 evid), ucast evid, hi_byte mjd, byte_of mjd,
               bcdByte (clock_hour start), bcdByte (clock_minute start), bcdByte (clock_second start),
               bcdByte (go_quot dur hour), bcdByte (go_rem (go_quot dur minute) 60),
               bcdByte (go_rem (go_quot dur second) 60),
               byte_of (push_bit 5 (runningStatus AND 0x07)) OR len_hi loopLength, of_nat loopLength]
            @ descriptor))"

text \<open>The default clock is 2026-03-29T01:30:00+01:00, in whichever location the host shows it.\<close>

definition defaultEITNow :: time where
  "defaultEITNow = (days_before_year 2026 + 31 + 28 + 28) * day + 30 * minute"

definition EITPresentFollowingSections :: "service_profile \<Rightarrow> location \<Rightarrow> eit_options \<Rightarrow> bytes list" where
  "EITPresentFollowingSections p host opts =
     (let (now, loc) = (if is_zero_time (eitNow opts) then (defaultEITNow, host)
                        else (eitNow opts, eitLocation opts));
          presentDuration = densityForSyntheticService (spID p);
          followingStart = now + presentDuration;
          followingDuration = densityForSyntheticService (spID p)
      in [eitSection p 0 1 4 loc now presentDuration,
          eitSection p 1 1 1 loc followingStart followingDuration])"

section \<open>The transport stream\<close>

definition psiPayload :: "bytes \<Rightarrow> bytes" where
  "psiPayload sect = 0x00 # sect"

definition pesPayload :: "byte \<Rightarrow> bytes \<Rightarrow> bytes" where
  "pesPayload streamID marker =
     (let packetLen = length marker + 3
      in [0x00, 0x00, 0x01, streamID, of_nat (drop_bit 8 packetLen), of_nat packetLen,
          0x80, 0x00, 0x00] @ marker)"

definition pid_of :: "int \<Rightarrow> u16" where "pid_of i = word_of_int i"

definition media_marker :: "service_profile \<Rightarrow> string \<Rightarrow> nat \<Rightarrow> bytes" where
  "media_marker p kind i =
     str_bytes (''satip-lab:'' @ spID p @ '':'' @ spName p @ '':'' @ kind @ '':'' @ pad_int 6 (int i))"

definition media_packets :: "service_profile \<Rightarrow> nat \<Rightarrow> bytes list" where
  "media_packets p i =
     [syntheticPacket (pid_of (spVideoPID p)) (i = 0) (of_nat (i mod 16))
        (pesPayload 0xE0 (media_marker p ''video'' i)),
      syntheticPacket (pid_of (spAudioPID p)) (i = 0) (of_nat (i mod 16))
        (pesPayload 0xC0 (media_marker p ''audio'' i))]"

definition psi_packets :: "service_profile \<Rightarrow> location \<Rightarrow> eit_options \<Rightarrow> bytes list" where
  "psi_packets p host eit =
     [syntheticPacket 0 True 0 (psiPayload (patSection p)),
      syntheticPacket (pid_of (spPMTPID p)) True 0 (psiPayload (pmtSection p))]
     @ (if eitSuppress eit then []
        else map (\<lambda>(i, sect). syntheticPacket 0x12 True (of_nat (i mod 16)) (psiPayload sect))
               (enumerate 0 (EITPresentFollowingSections p host eit)))
     @ [syntheticPacket 0x11 True 0 (psiPayload (sdtSection p (\<not> eitSuppress eit))),
        syntheticPacket 0x10 True 0 (psiPayload nitSection)]"

definition SyntheticServiceTransportWithOptions :: "service_profile \<Rightarrow> location \<Rightarrow> eit_options \<Rightarrow> bytes" where
  "SyntheticServiceTransportWithOptions p host eit =
     concat (psi_packets p host eit @ concat (map (media_packets p) [0..<300]))"

definition SyntheticServiceTransport :: "service_profile \<Rightarrow> location \<Rightarrow> bytes" where
  "SyntheticServiceTransport p host = SyntheticServiceTransportWithOptions p host
     \<lparr>eitNow = defaultEITNow, eitLocation = host, eitSuppress = False\<rparr>"


section \<open>Bytes\<close>

lemma length_cappedDescriptorString [len_simps]: "length (cappedDescriptorString v n) = min n (length v)"
  by (simp add: cappedDescriptorString_def)

lemma read_len: "n < 4096 \<Longrightarrow> flags AND 0x0F = 0 \<Longrightarrow>
    unat (read_be16 ((flags OR len_hi n) AND 0x0F) (of_nat n)) = n"
proof -
  assume n: "n < 4096" and flags: "flags AND 0x0F = 0"
  have big: "\<not> bit n k" if "12 \<le> k" for k
  proof -
    have "n < 2 ^ k" using n power_increasing [of 12 k "2::nat"] that by simp
    then show ?thesis by (simp add: bit_iff_odd)
  qed
  then have small: "k - 8 < 4" if "bit n k" for k using that by (cases "12 \<le> k") auto
  have flag: "\<not> bit flags k" if "k < 4" for k
    using arg_cong [OF flags, of "\<lambda>w. bit w k"] that by (simp add: bit_simps mask_bits)
  have m: "bit (15 :: nat) k \<longleftrightarrow> k < 4" for k
    using bit_mask_iff [where 'a = nat, of 4 k] by (simp add: mask_eq_exp_minus_1)
  have "read_be16 ((flags OR len_hi n) AND 0x0F) (of_nat n) = of_nat n"
    by (rule bit_word_eqI)
      (auto simp: read_be16_def len_hi_def bit_simps mask_bits m flag small)
  then show ?thesis using n by (simp add: unat_of_nat)
qed

lemma read_pid: "read_be16 ((0xE0 OR hi_byte i) AND 0x1F) (byte_of i) = pid_of i AND 0x1FFF"
proof -
  have e: "bit (0xE0 :: int) n \<longleftrightarrow> 5 \<le> n \<and> n < 8" for n
    using bit_push_bit_iff [where 'a = int, of 5 "mask 3" n] bit_mask_iff [where 'a = int, of 3 "n - 5"]
    by (simp add: mask_eq_exp_minus_1) arith
  show ?thesis
    by (rule bit_word_eqI)
      (auto simp: read_be16_def hi_byte_def byte_of_def pid_of_def bit_simps mask_bits e)
qed

section \<open>Sections\<close>

text \<open>What a table parser checks of a section: the 12-bit length and the CRC.\<close>

definition section_length :: "bytes \<Rightarrow> nat" where
  "section_length s = unat (read_be16 (s ! 1 AND 0x0F) (s ! 2))"

definition section_wf :: "bytes \<Rightarrow> bool" where
  "section_wf s \<longleftrightarrow> 3 + section_length s = length s \<and> mpegCRC32 s = 0 \<and> length s \<le> 183"

lemma appendCRC_nth: "i < length s \<Longrightarrow> appendCRC s ! i = s ! i"
  by (simp add: appendCRC_def Let_def nth_append)

lemma section_wf_finish:
  assumes "3 \<le> length s" "length s \<le> 179" "flags AND 0x0F = 0"
  shows "section_wf (finishSection flags s)"
proof -
  let ?n = "length s - 3 + 4"
  have "section_length (finishSection flags s) = ?n"
    using assms read_len [of ?n flags]
    by (simp add: section_length_def finishSection_def Let_def appendCRC_nth)
  then show ?thesis
    using assms by (simp add: section_wf_def finishSection_def Let_def appendCRC_zero len_simps)
qed


lemma length_serviceDescriptor: "length (serviceDescriptor a b) \<le> 101"
  by (simp add: serviceDescriptor_def Let_def len_simps)

lemma length_shortEventDescriptor: "length (shortEventDescriptor title) \<le> 153"
  by (simp add: shortEventDescriptor_def Let_def len_simps maxShortEventTitleBytes_def)

lemma flag_bits: "(0xF0 :: byte) AND 0x0F = 0" "(0xB0 :: byte) AND 0x0F = 0"
  by simp_all

lemma section_wf_pat: "section_wf (patSection p)"
  by (simp add: section_wf_def patSection_def appendCRC_zero section_length_def appendCRC_nth
      len_simps read_be16_def)

lemma section_wf_pmt: "section_wf (pmtSection p)"
  by (simp add: section_wf_def pmtSection_def appendCRC_zero section_length_def appendCRC_nth
      len_simps read_be16_def)

lemma section_wf_sdt: "section_wf (sdtSection p e)"
  unfolding sdtSection_def Let_def
  by (rule section_wf_finish) (use length_serviceDescriptor [of "''satip-lab''" "spName p"] in simp_all)

lemma section_wf_nit: "section_wf nitSection"
  unfolding nitSection_def Let_def
  by (rule section_wf_finish)
    (simp_all add: networkNameDescriptor_def Let_def len_simps)

lemma section_wf_eit: "section_wf (eitSection p n l r loc start dur)"
  unfolding eitSection_def Let_def
  by (rule section_wf_finish)
    (simp_all add: le_diff_conv2 order_trans [OF length_shortEventDescriptor])

text \<open>The sections that a transport stream carries.\<close>

definition psi_sections :: "service_profile \<Rightarrow> location \<Rightarrow> eit_options \<Rightarrow> bytes list" where
  "psi_sections p host eit =
     [patSection p, pmtSection p] @ EITPresentFollowingSections p host eit @
     [sdtSection p (\<not> eitSuppress eit), nitSection]"

text \<open>C29. Every PSI and SI section that the simulator builds, for any profile and any event title,
  carries its own length in its 12-bit length field, has CRC zero, and is at most 183 bytes long, so
  that it fits into one transport packet behind the pointer byte.\<close>

theorem psi_sections_wf: "list_all section_wf (psi_sections p host eit)"
  by (simp add: psi_sections_def EITPresentFollowingSections_def Let_def section_wf_pat section_wf_pmt
      section_wf_sdt section_wf_nit section_wf_eit split: prod.splits)

text \<open>A receiver finds the section at the start of the payload of its packet.\<close>

lemma psi_packet:
  assumes "length s \<le> 183" "s \<noteq> []"
  shows "psiTableIDOffset (syntheticPacket pid True cc (psiPayload s)) = (5, True)"
    and "take (length s) (drop 5 (syntheticPacket pid True cc (psiPayload s))) = s"
    and "i < length s \<Longrightarrow> syntheticPacket pid True cc (psiPayload s) ! (5 + i) = s ! i"
proof -
  let ?p = "syntheticPacket pid True cc (psiPayload s)"
  have d4: "drop 4 ?p = 0x00 # s @ replicate (183 - length s) 0xFF"
    using assms by (subst drop4_syntheticPacket) (simp_all add: psiPayload_def)
  then have "drop 1 (drop 4 ?p) = s @ replicate (183 - length s) 0xFF" by simp
  then have d5: "drop 5 ?p = s @ replicate (183 - length s) 0xFF" by (simp only: drop_drop) simp
  have "?p ! 4 = drop 4 ?p ! 0" by simp
  then have "?p ! 4 = 0" by (simp add: d4)
  then show "psiTableIDOffset ?p = (5, True)"
    by (simp add: psiTableIDOffset_def payloadOffset_syntheticPacket)
  show "take (length s) (drop 5 ?p) = s" by (simp add: d5)
  assume "i < length s"
  moreover have "?p ! (5 + i) = drop 5 ?p ! i" by simp
  ultimately show "?p ! (5 + i) = s ! i" by (simp add: d5 nth_append)
qed


section \<open>The transport stream\<close>

definition transport_packets :: "service_profile \<Rightarrow> location \<Rightarrow> eit_options \<Rightarrow> bytes list" where
  "transport_packets p host eit = psi_packets p host eit @ concat (map (media_packets p) [0..<300])"

lemma transport_concat: "SyntheticServiceTransportWithOptions p host eit = concat (transport_packets p host eit)"
  by (simp add: SyntheticServiceTransportWithOptions_def transport_packets_def)

definition wire_pid :: "int \<Rightarrow> u16" where "wire_pid i = pid_of i AND 0x1FFF"

lemma psi_packets_pids:
  "map PID (psi_packets p host eit) =
     [0, wire_pid (spPMTPID p)] @ (if eitSuppress eit then [] else [0x12, 0x12]) @ [0x11, 0x10]"
  by (simp add: psi_packets_def PID_syntheticPacket wire_pid_def EITPresentFollowingSections_def Let_def
      split: prod.splits)

lemma packet_shape: "q \<in> set (transport_packets p host eit) \<Longrightarrow> length q = 188 \<and> q ! 0 = 0x47"
  by (auto simp: transport_packets_def psi_packets_def media_packets_def split: if_splits)

lemma media_pids: "map PID (concat (map (media_packets p) is)) =
    concat (map (\<lambda>i. [wire_pid (spVideoPID p), wire_pid (spAudioPID p)]) is)"
  by (induction "is") (simp_all add: media_packets_def PID_syntheticPacket wire_pid_def)

definition cc_of :: "bytes \<Rightarrow> byte" where "cc_of q = (q ! 3) AND 0x0F"

lemma cc_of_synthetic: "cc_of (syntheticPacket pid start cc payload) = cc AND 0x0F"
  unfolding cc_of_def synthetic_bytes
  by (rule bit_word_eqI) (auto simp: bit_simps mask_bits exp_bits)

lemma cc_mod: "(of_nat (i mod 16) :: byte) AND 0x0F = of_nat (i mod 16)"
proof -
  have "\<not> bit (i mod 16) k" if "4 \<le> k" for k
  proof -
    have "i mod 16 < 2 ^ k" using power_increasing [of 4 k "2::nat"] that by (simp add: less_le_trans)
    then show ?thesis by (simp add: bit_iff_odd)
  qed
  then have "k < 4" if "bit (i mod 16) k" for k using that not_le by blast
  then show ?thesis by (intro bit_word_eqI) (auto simp: bit_simps mask_bits)
qed

text \<open>The stream of a service is 188-byte packets with sync byte 0x47: the PAT on PID 0, the PMT
  on the profile's PMT PID, the two EIT sections on PID 0x12 unless they are suppressed, SDT on 0x11,
  NIT on 0x10, then 300 video and audio packets in turn.\<close>

theorem transport_layout:
  "SyntheticServiceTransportWithOptions p host eit = concat (transport_packets p host eit) \<and>
   list_all (\<lambda>q. length q = 188 \<and> q ! 0 = 0x47) (transport_packets p host eit) \<and>
   map PID (transport_packets p host eit) =
     [0, wire_pid (spPMTPID p)] @ (if eitSuppress eit then [] else [0x12, 0x12]) @ [0x11, 0x10] @
     concat (map (\<lambda>i. [wire_pid (spVideoPID p), wire_pid (spAudioPID p)]) [0..<300])"
proof (intro conjI)
  show "list_all (\<lambda>q. length q = 188 \<and> q ! 0 = 0x47) (transport_packets p host eit)"
    using packet_shape by (simp add: list_all_iff)
  show "map PID (transport_packets p host eit) =
     [0, wire_pid (spPMTPID p)] @ (if eitSuppress eit then [] else [0x12, 0x12]) @ [0x11, 0x10] @
     concat (map (\<lambda>i. [wire_pid (spVideoPID p), wire_pid (spAudioPID p)]) [0..<300])"
    unfolding transport_packets_def map_append psi_packets_pids media_pids by simp
qed (rule transport_concat)

lemma media_filter:
  assumes "v \<noteq> a" "v = wire_pid (spVideoPID p)" "a = wire_pid (spAudioPID p)"
  shows "map cc_of (filter (\<lambda>q. PID q = v) (concat (map (media_packets p) is))) =
      map (\<lambda>i. of_nat (i mod 16)) is"
    and "map cc_of (filter (\<lambda>q. PID q = a) (concat (map (media_packets p) is))) =
      map (\<lambda>i. of_nat (i mod 16)) is"
  using assms(1) unfolding assms(2,3)
  by (induction "is") (auto simp: media_packets_def PID_syntheticPacket wire_pid_def cc_of_synthetic cc_mod)

text \<open>When the video and audio PIDs differ from each other and from the PIDs of the tables, a
  receiver that filters either of them sees 300 packets whose continuity counters count up modulo 16
  from 0, so the synthetic stream has no discontinuity.\<close>

theorem elementary_streams_continuous:
  assumes "wire_pid (spVideoPID p) \<noteq> wire_pid (spAudioPID p)"
    and "pid \<in> {wire_pid (spVideoPID p), wire_pid (spAudioPID p)}"
    and "pid \<notin> {0, wire_pid (spPMTPID p), 0x12, 0x11, 0x10}"
  shows "map cc_of (filter (\<lambda>q. PID q = pid) (transport_packets p host eit)) =
    map (\<lambda>i. of_nat (i mod 16)) [0..<300]"
proof -
  have "PID q \<noteq> pid" if "q \<in> set (psi_packets p host eit)" for q
  proof -
    have "PID q \<in> set (map PID (psi_packets p host eit))" using that by simp
    then show ?thesis using assms(3) unfolding psi_packets_pids by (auto split: if_splits)
  qed
  then have "filter (\<lambda>q. PID q = pid) (psi_packets p host eit) = []" by (simp add: filter_empty_conv)
  then show ?thesis
    using assms(2) media_filter [OF assms(1) refl refl, of "[0..<300]"]
    by (auto simp: transport_packets_def)
qed


definition demo_profile :: service_profile where
  "demo_profile = \<lparr>spID = ''one'', spName = ''One'', spServiceID = 100, spPMTPID = 100,
     spVideoPID = 101, spAudioPID = 102\<rparr>"

definition demo_eit :: eit_options where
  "demo_eit = \<lparr>eitNow = defaultEITNow, eitLocation = (\<lambda>_. hour), eitSuppress = False\<rparr>"

theorem elementary_streams_continuous_witness:
  "map cc_of (filter (\<lambda>q. PID q = 101) (transport_packets demo_profile (\<lambda>_. 0) demo_eit)) =
     map (\<lambda>i. of_nat (i mod 16)) [0..<300]"
proof -
  have "wire_pid 100 = 100" "wire_pid 101 = 101" "wire_pid 102 = 102"
    by (simp_all add: wire_pid_def pid_of_def)
  then show ?thesis
    using elementary_streams_continuous [of demo_profile 101 "\<lambda>_. 0" demo_eit]
    by (simp add: demo_profile_def)
qed

section \<open>What the tables say\<close>

lemma pat_nth:
  "patSection p ! 0 = 0" "patSection p ! 10 = 0xE0 OR hi_byte (spPMTPID p)"
  "patSection p ! 11 = byte_of (spPMTPID p)" "length (patSection p) = 16"
  by (simp_all add: patSection_def appendCRC_nth len_simps)

lemma pmt_nth: "pmtSection p ! 0 = 2" "length (pmtSection p) = 26"
  by (simp_all add: pmtSection_def appendCRC_nth len_simps)

lemma read_service: "read_be16 (hi_byte i) (byte_of i) = word_of_int i"
  by (rule bit_word_eqI) (auto simp: read_be16_def hi_byte_def byte_of_def bit_simps)

text \<open>The tables announce the stream: the PAT maps the profile's service id to its PMT PID, and
  the PMT gives the video PID as the PCR PID and as its first stream (type 2), the audio PID as its
  second (type 3); each is the PID that the packets of that stream carry.\<close>

theorem tables_announce:
  "let pat = patSection p; pmt = pmtSection p in
     read_be16 (pat ! 8) (pat ! 9) = word_of_int (spServiceID p) \<and>
     read_be16 (pat ! 10 AND 0x1F) (pat ! 11) = wire_pid (spPMTPID p) \<and>
     read_be16 (pmt ! 3) (pmt ! 4) = word_of_int (spServiceID p) \<and>
     read_be16 (pmt ! 8 AND 0x1F) (pmt ! 9) = wire_pid (spVideoPID p) \<and>
     pmt ! 12 = 0x02 \<and> read_be16 (pmt ! 13 AND 0x1F) (pmt ! 14) = wire_pid (spVideoPID p) \<and>
     pmt ! 17 = 0x03 \<and> read_be16 (pmt ! 18 AND 0x1F) (pmt ! 19) = wire_pid (spAudioPID p)"
  by (simp add: patSection_def pmtSection_def appendCRC_nth read_pid read_service wire_pid_def Let_def)

lemma transport_split:
  obtains rest where "transport_packets p host eit =
    syntheticPacket 0 True 0 (psiPayload (patSection p)) #
    syntheticPacket (pid_of (spPMTPID p)) True 0 (psiPayload (pmtSection p)) # rest"
  by (simp add: transport_packets_def psi_packets_def)

lemma start_flag: "(syntheticPacket pid True cc payload ! 1) AND 0x40 \<noteq> 0"
  using syntheticPacket_fields [of pid True cc payload] by (simp add: Let_def)

lemma pat_table_packet:
  "pat_table (syntheticPacket 0 True 0 (psiPayload (patSection p))) = Some 5"
  using psi_packet(1) [of "patSection p" 0 0] psi_packet(3) [of "patSection p" 0 0 0] start_flag [of 0 0]
  by (simp add: pat_table_def PID_syntheticPacket pat_nth flip: length_0_conv)

lemma pmt_table_packet:
  "pmt_table (wire_pid (spPMTPID p)) (syntheticPacket (pid_of (spPMTPID p)) True 0 (psiPayload (pmtSection p))) = Some 5"
  using psi_packet(1) [of "pmtSection p" "pid_of (spPMTPID p)" 0] start_flag
    psi_packet(3) [of "pmtSection p" 0 "pid_of (spPMTPID p)" 0]
  by (simp add: pmt_table_def PID_syntheticPacket pmt_nth wire_pid_def flip: length_0_conv)

lemma first_byte_detected:
  assumes "mpegCRC32 s = 0" "0 < length s" "s ! 0 \<noteq> 0xFF"
  shows "mpegCRC32 (s[0 := 0xFF]) \<noteq> 0"
proof (cases s)
  case (Cons b ys)
  then show ?thesis using crc_byte_detected [of b "0xFF" "[]" ys] assms by simp
qed (use assms in simp)

text \<open>On the stream of any service \<open>MalformedPSI\<close> overwrites exactly the table ids of the PAT and
  the PMT, bytes 5 and 193 of the stream, with 0xFF; after that neither table has CRC zero, so a
  receiver that checks it drops them.\<close>

theorem MalformedPSI_transport:
  "MalformedPSI (SyntheticServiceTransportWithOptions p host eit) =
     (SyntheticServiceTransportWithOptions p host eit)[5 := 0xFF, 193 := 0xFF] \<and>
   mpegCRC32 ((patSection p)[0 := 0xFF]) \<noteq> 0 \<and> mpegCRC32 ((pmtSection p)[0 := 0xFF]) \<noteq> 0"
proof (intro conjI)
  let ?pat = "syntheticPacket 0 True 0 (psiPayload (patSection p))"
  let ?pmt = "syntheticPacket (pid_of (spPMTPID p)) True 0 (psiPayload (pmtSection p))"
  obtain rest where split: "transport_packets p host eit = ?pat # ?pmt # rest"
    by (rule transport_split)
  have at: "?pat ! 15 = 0xE0 OR hi_byte (spPMTPID p)" "?pat ! 16 = byte_of (spPMTPID p)"
    using psi_packet(3) [of "patSection p" 10 0 0] psi_packet(3) [of "patSection p" 11 0 0] pat_nth
    by (simp_all flip: length_0_conv)
  have pat: "corruptPAT (?pat @ ?pmt @ concat rest) =
      (?pat[5 := 0xFF] @ ?pmt @ concat rest, Some (wire_pid (spPMTPID p)))"
    using at read_pid [of "spPMTPID p"] by (simp add: corruptPAT_Cons pat_table_packet wire_pid_def)
  have none: "pmt_table pid (?pat[5 := 0xFF]) = None" for pid
  proof -
    have "psiTableIDOffset (?pat[5 := 0xFF]) = psiTableIDOffset ?pat"
      by (simp add: psiTableIDOffset_def payloadOffset_def Let_def)
    then show ?thesis using psi_packet(1) [of "patSection p" 0 0] pat_nth
      by (simp add: pmt_table_def flip: length_0_conv)
  qed
  have pmt: "fst (corruptPMT (wire_pid (spPMTPID p)) (?pat[5 := 0xFF] @ ?pmt @ concat rest)) =
      ?pat[5 := 0xFF] @ ?pmt[5 := 0xFF] @ concat rest"
    by (simp add: corruptPMT_Cons none pmt_table_packet)
  show "MalformedPSI (SyntheticServiceTransportWithOptions p host eit) =
     (SyntheticServiceTransportWithOptions p host eit)[5 := 0xFF, 193 := 0xFF]"
    unfolding transport_concat split
    by (simp add: MalformedPSI_def pat pmt list_update_append)
  show "mpegCRC32 ((patSection p)[0 := 0xFF]) \<noteq> 0" "mpegCRC32 ((pmtSection p)[0 := 0xFF]) \<noteq> 0"
    using first_byte_detected [of "patSection p"] first_byte_detected [of "pmtSection p"]
      section_wf_pat [of p] section_wf_pmt [of p] pat_nth [of p] pmt_nth [of p]
    by (simp_all add: section_wf_def)
qed


section \<open>Event times\<close>

text \<open>The Modified Julian Date of an instant: whole days since 1858-11-17 00:00 UTC.\<close>

definition mjd :: "time \<Rightarrow> int" where "mjd t = t div day - 678575"

lemma mjd_epoch: "civil_date 678575 = (1858, 11, 17)"
  by (simp add: civil_date_def year_of_day_def days_before_year_def month_lengths_def
      leap_year_def Let_def)

lemma quot_year: "0 \<le> y \<Longrightarrow> go_quot (36525 * y) 100 = 365 * y + y div 4"
proof -
  assume "0 \<le> y"
  then have "go_quot (36525 * y) 100 = (25 * (1461 * y)) div (25 * 4)" by (simp add: go_quot_nonneg)
  also have "\<dots> = (1461 * y) div 4" by (rule div_mult_mult1) simp
  also have "(1461 * y) div 4 = (y + 365 * y * 4) div 4" by (rule arg_cong [where f = "\<lambda>x. x div 4"]) simp
  also have "\<dots> = 365 * y + y div 4" by (subst div_mult_self1) simp_all
  finally show ?thesis .
qed

lemma days_before_next:
  assumes "1900 \<le> y" "y < 2100"
  shows "days_before_year (y + 1) = 365 * y + y div 4 - 15"
proof (cases "y < 2000")
  case True
  then have "y div 100 = 19" "y div 400 = 4"
    using assms int_div_pos_eq [of y 100 19 "y - 1900"] int_div_pos_eq [of y 400 4 "y - 1600"] by auto
  then show ?thesis by (simp add: days_before_year_def)
next
  case False
  then have "y div 100 = 20" "y div 400 = 5"
    using assms int_div_pos_eq [of y 100 20 "y - 2000"] int_div_pos_eq [of y 400 5 "y - 2000"] by auto
  then show ?thesis by (simp add: days_before_year_def)
qed

lemma twelve: "k < 12 \<Longrightarrow> k = 0 \<or> k = 1 \<or> k = 2 \<or> k = 3 \<or> k = 4 \<or> k = 5 \<or> k = 6 \<or> k = 7 \<or>
    k = 8 \<or> k = 9 \<or> k = 10 \<or> k = (11 :: nat)"
  by arith

definition month_base :: "nat \<Rightarrow> int" where
  "month_base k = [0, 31, 59, 90, 120, 151, 181, 212, 243, 273, 304, 334] ! k"

lemma month_sums:
  "k < 12 \<Longrightarrow> sum_list (take k (month_lengths y)) =
     month_base k + (if 2 \<le> k \<and> leap_year y then 1 else 0)"
  by (drule twelve) (elim disjE; simp add: month_lengths_def month_base_def)

lemma month_quots:
  "2 \<le> k \<Longrightarrow> k < 12 \<Longrightarrow> go_quot (306001 * (1 + int k + 1)) 10000 = month_base k + 63"
  by (drule twelve) (elim disjE; simp add: go_quot_def month_base_def)


lemma modifiedJulianDate_value:
  assumes low: "days_before_year 1900 + 59 \<le> d" and high: "d < days_before_year 2100 + 59"
  shows "modifiedJulianDate (civil_date d) = d - 14512"
proof -
  obtain y k where date: "civil_date d = (y, 1 + int k, d - days_before_year y
        - sum_list (take k (month_lengths y)) + 1)"
      and k: "k < 12" "days_before_year y + sum_list (take k (month_lengths y)) \<le> d"
        "d < days_before_year y + sum_list (take (Suc k) (month_lengths y))"
    by (rule civil_date_split)
  have len: "0 \<le> sum_list (take k (month_lengths y))"
      "days_before_year y + sum_list (take (Suc k) (month_lengths y)) \<le> days_before_year (y + 1)"
  proof -
    show "0 \<le> sum_list (take k (month_lengths y))"
      using twelve [OF k(1)] by (elim disjE; simp add: month_lengths_def)
    show "days_before_year y + sum_list (take (Suc k) (month_lengths y)) \<le> days_before_year (y + 1)"
      using twelve [OF k(1)] by (elim disjE; simp add: days_in_year month_lengths_def)
  qed
  have y: "1900 \<le> y" "y \<le> 2100"
    using days_before_year_bounds [of y] days_before_year_bounds [of "y + 1"] low high k len
    by (simp_all add: days_before_year_def [of 1900] days_before_year_def [of 2100])
  show ?thesis
  proof (cases "k < 2")
    case True
    have "1901 \<le> y"
    proof (rule ccontr)
      assume "\<not> 1901 \<le> y"
      then have "y = 1900" using y by simp
      then show False using low k(3) True
        by (auto simp: month_lengths_def leap_year_def less_2_cases_iff)
    qed
    then have "days_before_year (y - 1 + 1) = 365 * (y - 1) + (y - 1) div 4 - 15"
      using y by (intro days_before_next) simp_all
    moreover have "go_quot (306001 * (1 + int k + 12 + 1)) 10000 = month_base k + 428"
      using True by (auto simp: go_quot_def month_base_def less_2_cases_iff)
    moreover have "sum_list (take k (month_lengths y)) = month_base k"
      using month_sums [OF k(1)] True by simp
    ultimately show ?thesis
      using True quot_year [of "y - 1"] \<open>1901 \<le> y\<close>
      by (simp add: date modifiedJulianDate_def del: of_nat_add)
  next
    case False
    have "y < 2100"
    proof (rule ccontr)
      assume "\<not> y < 2100"
      then have "y = 2100" using y by simp
      then show False using high k(2) False month_sums [OF k(1), of y] twelve [OF k(1)]
        by (auto simp: month_base_def leap_year_def)
    qed
    then have "days_before_year (y + 1) = 365 * y + y div 4 - 15" using y by (intro days_before_next)
    then have "days_before_year y + (if leap_year y then 1 else 0) = 365 * y + y div 4 - 380"
      by (simp add: days_in_year split: if_splits)
    moreover have "go_quot (306001 * (1 + int k + 1)) 10000 = month_base k + 63"
      using month_quots [of k] False k(1) by simp
    moreover have "sum_list (take k (month_lengths y)) = month_base k + (if leap_year y then 1 else 0)"
      using month_sums [OF k(1)] False by simp
    ultimately show ?thesis
      using False quot_year [of y] y by (simp add: date modifiedJulianDate_def split: if_splits)
  qed
qed

text \<open>C30. From March 1900 to February 2100 \<open>modifiedJulianDate\<close> is 664063 days ahead of the Modified
  Julian Date, because it subtracts 14956 from a formula in the full year, where the formula in the
  year since 1900 adds it. The 16 bits that an EIT section transmits are therefore never those of the
  date of the event: they are 8703 days ahead modulo 2^16.\<close>

theorem modifiedJulianDate_off:
  assumes "days_before_year 1900 + 59 \<le> t div day" "t div day < days_before_year 2100 + 59"
  shows "modifiedJulianDate (date_of t) = mjd t + 664063 \<and>
    read_be16 (hi_byte (modifiedJulianDate (date_of t))) (byte_of (modifiedJulianDate (date_of t))) =
      word_of_int (mjd t) + 8703 \<and>
    read_be16 (hi_byte (modifiedJulianDate (date_of t))) (byte_of (modifiedJulianDate (date_of t))) \<noteq>
      word_of_int (mjd t)"
proof -
  have eq: "modifiedJulianDate (date_of t) = mjd t + 664063"
    using modifiedJulianDate_value [OF assms] by (simp add: date_of_def mjd_def)
  have "(word_of_int (mjd t + 664063) :: u16) = word_of_int (mjd t) + 664063" by simp
  also have "(664063 :: u16) = 8703" by simp
  finally have off: "(word_of_int (mjd t + 664063) :: u16) = word_of_int (mjd t) + 8703" .
  have "(8703 :: u16) \<noteq> 0" by simp
  then show ?thesis unfolding eq read_service off by simp
qed

text \<open>The example of the default clock: 2026-03-29 has Modified Julian Date 61128, the section says 4295.\<close>

theorem modifiedJulianDate_off_witness:
  "mjd defaultEITNow = 61128 \<and>
   read_be16 (hi_byte (modifiedJulianDate (date_of defaultEITNow)))
     (byte_of (modifiedJulianDate (date_of defaultEITNow))) = 4295"
proof -
  note clock = defaultEITNow_def mjd_def day_def hour_def minute_def second_def millisecond_def
    days_before_year_def
  have day: "mjd defaultEITNow = 61128" by (simp add: clock)
  have "days_before_year 1900 + 59 \<le> defaultEITNow div day"
      "defaultEITNow div day < days_before_year 2100 + 59"
    by (simp_all add: clock)
  from modifiedJulianDate_off [OF this]
  have "read_be16 (hi_byte (modifiedJulianDate (date_of defaultEITNow)))
      (byte_of (modifiedJulianDate (date_of defaultEITNow))) = word_of_int (mjd defaultEITNow) + 8703"
    by blast
  with day show ?thesis by simp
qed


text \<open>Binary-coded decimal times.\<close>

definition bcd_val :: "byte \<Rightarrow> int" where
  "bcd_val b = uint (drop_bit 4 b) * 10 + uint (b AND 0x0F)"

lemma bcd_all: "list_all (\<lambda>v. bcd_val (bcdByte v) = v) [0..99]"
  by code_simp

lemma bcd_roundtrip: "0 \<le> v \<Longrightarrow> v < 100 \<Longrightarrow> bcd_val (bcdByte v) = v"
  using bcd_all by (simp add: list_all_iff)

lemma eit_nth:
  "eitSection p n l r loc start dur ! 18 = bcdByte (clock_hour start)"
  "eitSection p n l r loc start dur ! 19 = bcdByte (clock_minute start)"
  "eitSection p n l r loc start dur ! 20 = bcdByte (clock_second start)"
  "eitSection p n l r loc start dur ! 21 = bcdByte (go_quot dur hour)"
  "eitSection p n l r loc start dur ! 22 = bcdByte (go_rem (go_quot dur minute) 60)"
  "eitSection p n l r loc start dur ! 23 = bcdByte (go_rem (go_quot dur second) 60)"
  "eitSection p n l r loc start dur ! 6 = byte_of n"
  by (simp_all add: eitSection_def finishSection_def Let_def appendCRC_nth)

lemma density_values:
  "densityForSyntheticService sid \<in> {30 * minute, 45 * minute, 90 * minute, 2 * hour, hour}"
  by (simp add: densityForSyntheticService_def)

lemma density_hms:
  assumes "dur \<in> {30 * minute, 45 * minute, 90 * minute, 2 * hour, hour}"
  shows "bcd_val (bcdByte (go_quot dur hour)) * hour + bcd_val (bcdByte (go_rem (go_quot dur minute) 60)) * minute
    + bcd_val (bcdByte (go_rem (go_quot dur second) 60)) * second = dur"
proof -
  have q: "0 \<le> go_quot dur hour \<and> go_quot dur hour < 100"
      "0 \<le> go_rem (go_quot dur minute) 60 \<and> go_rem (go_quot dur minute) 60 < 100"
      "0 \<le> go_rem (go_quot dur second) 60 \<and> go_rem (go_quot dur second) 60 < 100"
      "go_quot dur hour * hour + go_rem (go_quot dur minute) 60 * minute
        + go_rem (go_quot dur second) 60 * second = dur"
    using assms
    by (auto simp: go_quot_def go_rem_def hour_def minute_def second_def millisecond_def)
  then show ?thesis by (simp add: bcd_roundtrip)
qed

text \<open>The two EIT sections are the present event, starting at the given instant, and the following
  event, starting when the present one ends: their start times decode from BCD to the UTC clock of
  those instants, and both durations decode to the service's density.\<close>

theorem eit_present_following:
  assumes "\<not> is_zero_time (eitNow opts)"
  shows "\<exists>present following.
    EITPresentFollowingSections p host opts = [present, following] \<and>
    present ! 6 = 0 \<and> following ! 6 = 1 \<and>
    map bcd_val (take 3 (drop 18 present)) =
      [clock_hour (eitNow opts), clock_minute (eitNow opts), clock_second (eitNow opts)] \<and>
    (let next = eitNow opts + densityForSyntheticService (spID p) in
       map bcd_val (take 3 (drop 18 following)) = [clock_hour next, clock_minute next, clock_second next]) \<and>
    (\<forall>s\<in>{present, following}.
       bcd_val (s ! 21) * hour + bcd_val (s ! 22) * minute + bcd_val (s ! 23) * second =
         densityForSyntheticService (spID p))"
proof -
  let ?s = "eitNow opts" and ?dur = "densityForSyntheticService (spID p)"
  let ?a = "eitSection p 0 1 4 (eitLocation opts) ?s ?dur"
  let ?b = "eitSection p 1 1 1 (eitLocation opts) (?s + ?dur) ?dur"
  have take3: "take 3 (drop 18 xs) = [xs ! 18, xs ! 19, xs ! 20]" if "21 \<le> length xs" for xs :: bytes
    using that by (simp add: take_Suc_conv_app_nth numeral_eq_Suc)
  have long: "21 \<le> length (eitSection p n l r loc st du)" for n l r loc st du
    by (simp add: eitSection_def finishSection_def Let_def len_simps)
  have clock: "bcd_val (bcdByte (clock_hour t)) = clock_hour t" "bcd_val (bcdByte (clock_minute t)) = clock_minute t"
      "bcd_val (bcdByte (clock_second t)) = clock_second t" for t
    using clock_ranges [of t] by (simp_all add: bcd_roundtrip)
  show ?thesis
  proof (rule exI [of _ ?a], rule exI [of _ ?b], intro conjI)
    show "EITPresentFollowingSections p host opts = [?a, ?b]"
      using assms by (simp add: EITPresentFollowingSections_def Let_def)
    show "\<forall>s\<in>{?a, ?b}. bcd_val (s ! 21) * hour + bcd_val (s ! 22) * minute + bcd_val (s ! 23) * second = ?dur"
      using density_hms [OF density_values, of "spID p"] by (simp add: eit_nth)
  qed (simp_all add: eit_nth byte_of_def take3 long clock Let_def)
qed

theorem eit_present_following_witness:
  "\<exists>present following. EITPresentFollowingSections demo_profile (\<lambda>_. 0) demo_eit = [present, following] \<and>
     map bcd_val (take 3 (drop 18 present)) = [0, 30, 0] \<and>
     map bcd_val (take 3 (drop 18 following)) = [1, 30, 0]"
proof -
  note clock = demo_eit_def demo_profile_def defaultEITNow_def densityForSyntheticService_def
    days_before_year_def clock_hour_def clock_minute_def clock_second_def day_def hour_def
    minute_def second_def millisecond_def is_zero_time_def
  have "\<not> is_zero_time (eitNow demo_eit)" by (simp add: clock)
  from eit_present_following [OF this, of demo_profile "\<lambda>_. 0"] show ?thesis
    by (auto simp: clock)
qed

end
