(* ===== verification/TsSource.thy ===== *)
theory TsSource
  imports TsPsi
begin

text \<open>
  The choice of the payload that is streamed for a service (\<open>internal/ts/source.go\<close>). The file
  system is a parameter: \<open>read\<close> is \<open>os.ReadFile\<close>, from a path to an error or the bytes. The lexical
  path functions of \<open>path/filepath\<close> that the code calls (Base, Join with its Clean) are defined
  here, for a Unix host.
\<close>

section \<open>Package path/filepath\<close>

definition slash :: char where "slash = CHR ''/''"

text \<open>Base: the last element, "." for an empty path, "/" for one of slashes only.\<close>

definition path_base :: "string \<Rightarrow> string" where
  "path_base p =
     (if p = [] then ''.''
      else
        let q = rev (dropWhile (\<lambda>c. c = slash) (rev p))
        in if q = [] then [slash] else rev (takeWhile (\<lambda>c. c \<noteq> slash) (rev q)))"

text \<open>Clean: drop empty and "." elements, and every ".." with the element before it; a ".." with none
  before it stays in a relative path and goes in a rooted one.\<close>

fun clean_elements :: "bool \<Rightarrow> string list \<Rightarrow> string list \<Rightarrow> string list" where
  "clean_elements rooted acc [] = rev acc"
| "clean_elements rooted acc (e # es) =
     (if e = [] \<or> e = ''.'' then clean_elements rooted acc es
      else if e = ''..'' then
        (case acc of
           [] \<Rightarrow> clean_elements rooted (if rooted then [] else [''..'']) es
         | a # as \<Rightarrow>
             if a = ''..'' then clean_elements rooted (''..'' # acc) es
             else clean_elements rooted as es)
      else clean_elements rooted (e # acc) es)"

definition path_elements :: "string \<Rightarrow> string list" where
  "path_elements p = clean_elements (p \<noteq> [] \<and> hd p = slash) [] (split_char slash p)"

definition path_clean :: "string \<Rightarrow> string" where
  "path_clean p =
     (if p = [] then ''.''
      else
        let body = join [slash] (path_elements p)
        in if hd p = slash then slash # body else if body = [] then ''.'' else body)"

definition path_join2 :: "string \<Rightarrow> string \<Rightarrow> string" where
  "path_join2 a b =
     (if a \<noteq> [] then path_clean (a @ [slash] @ b) else if b \<noteq> [] then path_clean b else [])"

section \<open>Source\<close>

datatype read_error = NotExist | OtherReadError string

datatype source_error = ReadFailed read_error | EmptyMedia string

definition DefaultSampleAssetDir :: string where "DefaultSampleAssetDir = ''assets''"
definition SampleProfileSynthetic :: string where "SampleProfileSynthetic = ''synthetic''"
definition SampleProfileH264AACShort :: string where "SampleProfileH264AACShort = ''h264_aac_short''"
definition SampleProfileH264Silent :: string where "SampleProfileH264Silent = ''h264_silent''"

record source =
  srcPath :: string
  srcMediaDir :: string
  srcSampleProfile :: string
  srcSampleAssetDir :: string

type_synonym files = "string \<Rightarrow> read_error + bytes"

definition syntheticNullTransport :: bytes where
  "syntheticNullTransport = concat (replicate 800 ([0x47, 0x1F, 0xFF, 0x10] @ replicate 184 0))"

definition LoadPayload :: "files \<Rightarrow> source \<Rightarrow> bytes" where
  "LoadPayload read s =
     (case read (srcPath s) of
        Inr (b # bs) \<Rightarrow> b # bs
      | _ \<Rightarrow> syntheticNullTransport)"

definition serviceMediaFilename :: "string \<Rightarrow> string" where
  "serviceMediaFilename serviceID =
     (let id = trim_space serviceID in if id = [] then [] else path_base id @ ''.ts'')"

definition loadMediaDirPayload :: "files \<Rightarrow> source \<Rightarrow> service_profile \<Rightarrow> source_error + bytes option" where
  "loadMediaDirPayload read s p =
     (if trim_space (srcMediaDir s) = [] then Inr None
      else
        let filename = serviceMediaFilename (spID p) in
        if filename = [] then Inr None
        else
          let path = path_join2 (srcMediaDir s) filename
          in case read path of
               Inl NotExist \<Rightarrow> Inr None
             | Inl e \<Rightarrow> Inl (ReadFailed e)
             | Inr [] \<Rightarrow> Inl (EmptyMedia path)
             | Inr data \<Rightarrow> Inr (Some data))"

definition sampleAssetName :: "source \<Rightarrow> service_profile \<Rightarrow> string option" where
  "sampleAssetName s p =
     (if spID p \<noteq> ''zdf-hd'' then None
      else if srcSampleProfile s = SampleProfileH264AACShort then Some ''h264_aac_short.ts''
      else if srcSampleProfile s = SampleProfileH264Silent then Some ''h264_silent.ts''
      else None)"

definition sampleAssetDir :: "source \<Rightarrow> string" where
  "sampleAssetDir s = (if srcSampleAssetDir s \<noteq> [] then srcSampleAssetDir s else DefaultSampleAssetDir)"

definition LoadServicePayloadWithOptions ::
  "files \<Rightarrow> source \<Rightarrow> service_profile \<Rightarrow> location \<Rightarrow> eit_options \<Rightarrow> source_error + bytes" where
  "LoadServicePayloadWithOptions read s p host eit =
     (case read (srcPath s) of
        Inr (b # bs) \<Rightarrow> Inr (b # bs)
      | _ \<Rightarrow>
          (case loadMediaDirPayload read s p of
             Inl e \<Rightarrow> Inl e
           | Inr (Some media) \<Rightarrow> Inr media
           | Inr None \<Rightarrow>
               (case sampleAssetName s p of
                  Some sampleName \<Rightarrow>
                    (case read (path_join2 (sampleAssetDir s) sampleName) of
                       Inl e \<Rightarrow> Inl (ReadFailed e) | Inr data \<Rightarrow> Inr data)
                | None \<Rightarrow> Inr (SyntheticServiceTransportWithOptions p host eit))))"

definition LoadServicePayload ::
  "files \<Rightarrow> source \<Rightarrow> service_profile \<Rightarrow> location \<Rightarrow> source_error + bytes" where
  "LoadServicePayload read s p host =
     LoadServicePayloadWithOptions read s p host \<lparr>eitNow = defaultEITNow, eitLocation = host, eitSuppress = False\<rparr>"

section \<open>Media files stay in their directory\<close>

lemma clean_elements_append:
  "clean_elements rooted acc (xs @ ys) = clean_elements rooted (rev (clean_elements rooted acc xs)) ys"
  by (induction rooted acc xs rule: clean_elements.induct) (auto split: list.splits)

lemma clean_elements_one:
  "e \<noteq> [] \<Longrightarrow> e \<noteq> ''.'' \<Longrightarrow> e \<noteq> ''..'' \<Longrightarrow> clean_elements rooted acc [e] = rev acc @ [e]"
  by simp

lemma path_base_slash: "slash \<notin> set (path_base p) \<or> path_base p = [slash]"
  by (auto simp: path_base_def Let_def slash_def dest: set_takeWhileD)

lemma split_char_concat: "split_char c (a @ c # b) = split_char c a @ split_char c b"
  by (induction a) (auto split: list.splits)

lemma path_elements_under:
  assumes "dir \<noteq> []" "split_char slash name = [[], n] \<or> split_char slash name = [n]" "3 \<le> length n"
  shows "path_elements (dir @ [slash] @ name) = path_elements dir @ [n]"
proof -
  have n: "n \<noteq> []" "n \<noteq> ''.''" "n \<noteq> ''..''" using assms(3) by auto
  have "split_char slash (dir @ [slash] @ name) = split_char slash dir @ split_char slash name"
    by (simp add: split_char_concat)
  then show ?thesis
    using assms(1,2) clean_elements_one [OF n]
    by (auto simp: path_elements_def clean_elements_append)
qed

lemma media_name:
  assumes "serviceMediaFilename sid \<noteq> []"
  obtains n where "split_char slash (serviceMediaFilename sid) = [[], n] \<or>
      split_char slash (serviceMediaFilename sid) = [n]" "3 \<le> length n" "slash \<notin> set n"
proof -
  define b where "b = path_base (trim_space sid)"
  have name: "serviceMediaFilename sid = b @ ''.ts''"
    using assms by (auto simp: serviceMediaFilename_def Let_def b_def split: if_splits)
  consider "slash \<notin> set b" | "b = [slash]" using path_base_slash [of "trim_space sid"] b_def by blast
  then show thesis
  proof cases
    case 1
    then have "slash \<notin> set (b @ ''.ts'')" by (simp add: slash_def)
    then have "split_char slash (b @ ''.ts'') = [b @ ''.ts'']" by (rule split_char_no_sep)
    with 1 show thesis by (intro that [of "b @ ''.ts''"]) (simp_all add: name slash_def)
  next
    case 2
    then show thesis by (intro that [of "''.ts''"]) (simp_all add: name slash_def)
  qed
qed

text \<open>The path of one element below a directory, after cleaning.\<close>

definition path_under :: "string \<Rightarrow> string \<Rightarrow> string" where
  "path_under dir n =
     (if hd dir = slash then [slash] else []) @ join [slash] (path_elements dir @ [n])"



end
