(* ===== verification/Vendor.thy ===== *)
theory Vendor
  imports GoLib
begin

text \<open>
  The compatibility profiles (\<open>internal/vendorprofile/profile.go\<close>): what a simulated device
  advertises, and the RTSP behaviour switches that go with it. The package variables are constants
  here; \<open>ForName\<close> and \<open>Names\<close> are the package's functions.
\<close>

definition NameGeneric :: string where "NameGeneric = ''generic-satip-1.2''"
definition NameSpec :: string where "NameSpec = ''spec''"
definition SessionIDNumeric :: string where "SessionIDNumeric = ''numeric''"

lemmas vendor_names [go_defs] = NameGeneric_def NameSpec_def SessionIDNumeric_def

record device_profile =
  devFriendlyName :: string
  devManufacturer :: string
  devModelName :: string
  devModelNumber :: string
  devUDN :: string
  devDescriptionPath :: string
  devXSatipM3U :: string

record ssdp_profile =
  ssdpServer :: string
  ssdpST :: string
  ssdpUSN :: string

record evidence =
  eviConfidence :: string
  eviSources :: "string list"
  eviNotes :: "string list"

record profile =
  profName :: string
  profDevice :: device_profile
  profSSDP :: ssdp_profile
  profEvidence :: evidence
  profSessionHeader :: string
  profTransportHeader :: string
  profSessionIDFormat :: string
  profIncludeSetupTimeout :: bool
  profRequireDescribeBeforeSetup :: bool
  profTunerBusyStatus :: string
  profRTCPStatusInterval :: duration

definition genericProfile :: profile where
  "genericProfile =
     \<lparr>profName = NameGeneric,
      profDevice =
        \<lparr>devFriendlyName = ''satip-lab'', devManufacturer = ''e12media'',
         devModelName = ''SAT>IP Lab Server'', devModelNumber = [], devUDN = ''uuid:satip-lab-dev'',
         devDescriptionPath = ''/desc.xml'', devXSatipM3U = ''/channels.m3u''\<rparr>,
      profSSDP =
        \<lparr>ssdpServer = ''satip-lab/0.2 UPnP/1.0'', ssdpST = ''urn:ses-com:device:SatIPServer:1'',
         ssdpUSN = ''uuid:satip-lab-dev::urn:ses-com:device:SatIPServer:1''\<rparr>,
      profEvidence =
        \<lparr>eviConfidence = ''spec'',
         eviSources = [''SAT>IP protocol baseline'', ''satip-lab supported-profile.md''],
         eviNotes = [''Default simulator profile. Non-spec behavior remains disabled.'']\<rparr>,
      profSessionHeader = ''Session'', profTransportHeader = ''Transport'',
      profSessionIDFormat = SessionIDNumeric, profIncludeSetupTimeout = True,
      profRequireDescribeBeforeSetup = False, profTunerBusyStatus = ''503 Service Unavailable'',
      profRTCPStatusInterval = 200 * millisecond\<rparr>"

definition withName :: "profile \<Rightarrow> string \<Rightarrow> profile" where
  "withName p name = p\<lparr>profName := name\<rparr>"

definition withDevice :: "string \<Rightarrow> device_profile \<Rightarrow> ssdp_profile \<Rightarrow> string \<Rightarrow> string list \<Rightarrow> profile" where
  "withDevice name device ssdp confidence sources =
     genericProfile\<lparr>profName := name, profDevice := device, profSSDP := ssdp,
       profEvidence := \<lparr>eviConfidence = confidence, eviSources = sources,
         eviNotes = [''Only advertised metadata and documented generic SAT>IP behavior are simulated until trace-backed quirks are added.'']\<rparr>\<rparr>"

definition specProfile :: profile where
  "specProfile = withName genericProfile NameSpec"

definition minisatip_profile :: profile where
  "minisatip_profile = withDevice ''minisatip''
     \<lparr>devFriendlyName = ''minisatip'', devManufacturer = ''minisatip'',
      devModelName = ''minisatip SAT>IP'', devModelNumber = [], devUDN = ''uuid:minisatip-lab'',
      devDescriptionPath = ''/desc.xml'', devXSatipM3U = ''/channels.m3u''\<rparr>
     \<lparr>ssdpServer = ''minisatip/1.0 UPnP/1.0'', ssdpST = ''urn:ses-com:device:SatIPServer:1'',
      ssdpUSN = ''uuid:minisatip-lab::urn:ses-com:device:SatIPServer:1''\<rparr>
     ''public-doc'' [''minisatip public source/docs'']"

definition tvheadend_profile :: profile where
  "tvheadend_profile = withDevice ''tvheadend''
     \<lparr>devFriendlyName = ''TVHeadend SAT>IP'', devManufacturer = ''TVHeadend'',
      devModelName = ''TVHeadend SAT>IP'', devModelNumber = [], devUDN = ''uuid:tvheadend-satip-lab'',
      devDescriptionPath = ''/satip_server/desc.xml'', devXSatipM3U = ''/channellist.m3u''\<rparr>
     \<lparr>ssdpServer = ''TVHeadend UPnP/1.0'', ssdpST = ''urn:ses-com:device:SatIPServer:1'',
      ssdpUSN = ''uuid:tvheadend-satip-lab::urn:ses-com:device:SatIPServer:1''\<rparr>
     ''public-doc'' [''Tvheadend SAT>IP docs and public issue examples'']"

definition triax_tss400_profile :: profile where
  "triax_tss400_profile = withDevice ''triax-tss400''
     \<lparr>devFriendlyName = ''TRIAX TSS 400'', devManufacturer = ''TRIAX'',
      devModelName = ''TSS 400'', devModelNumber = [], devUDN = ''uuid:triax-tss400-lab'',
      devDescriptionPath = ''/desc.xml'', devXSatipM3U = ''/channels.m3u''\<rparr>
     \<lparr>ssdpServer = ''TRIAX SATIPServer UPnP/1.0'', ssdpST = ''urn:ses-com:device:SatIPServer:1'',
      ssdpUSN = ''uuid:triax-tss400-lab::urn:ses-com:device:SatIPServer:1''\<rparr>
     ''public-doc'' [''Vendor product/manual metadata; protocol quirks require captured traces'']"

definition telestar_digibit_r1_profile :: profile where
  "telestar_digibit_r1_profile = withDevice ''telestar-digibit-r1''
     \<lparr>devFriendlyName = ''TELestar DIGIBIT R1'', devManufacturer = ''TELestar'',
      devModelName = ''DIGIBIT R1'', devModelNumber = [], devUDN = ''uuid:telestar-digibit-r1-lab'',
      devDescriptionPath = ''/desc.xml'', devXSatipM3U = ''/channels.m3u''\<rparr>
     \<lparr>ssdpServer = ''TELestar SATIPServer UPnP/1.0'', ssdpST = ''urn:ses-com:device:SatIPServer:1'',
      ssdpUSN = ''uuid:telestar-digibit-r1-lab::urn:ses-com:device:SatIPServer:1''\<rparr>
     ''public-doc'' [''Vendor product/manual metadata; satip-axe community references need trace promotion'']"

definition kathrein_exip_profile :: profile where
  "kathrein_exip_profile = withDevice ''kathrein-exip''
     \<lparr>devFriendlyName = ''Kathrein EXIP'', devManufacturer = ''Kathrein'',
      devModelName = ''EXIP'', devModelNumber = [], devUDN = ''uuid:kathrein-exip-lab'',
      devDescriptionPath = ''/desc.xml'', devXSatipM3U = ''/channels.m3u''\<rparr>
     \<lparr>ssdpServer = ''Kathrein SATIPServer UPnP/1.0'', ssdpST = ''urn:ses-com:device:SatIPServer:1'',
      ssdpUSN = ''uuid:kathrein-exip-lab::urn:ses-com:device:SatIPServer:1''\<rparr>
     ''public-doc'' [''Vendor product/manual metadata; protocol quirks require captured traces'']"

definition digital_devices_octopus_net_profile :: profile where
  "digital_devices_octopus_net_profile = withDevice ''digital-devices-octopus-net''
     \<lparr>devFriendlyName = ''Digital Devices Octopus NET'', devManufacturer = ''Digital Devices'',
      devModelName = ''Octopus NET'', devModelNumber = [], devUDN = ''uuid:digital-devices-octopus-net-lab'',
      devDescriptionPath = ''/octoserve/octonet.xml'', devXSatipM3U = ''/channels.m3u''\<rparr>
     \<lparr>ssdpServer = ''Digital Devices SATIPServer UPnP/1.0'', ssdpST = ''urn:ses-com:device:SatIPServer:1'',
      ssdpUSN = ''uuid:digital-devices-octopus-net-lab::urn:ses-com:device:SatIPServer:1''\<rparr>
     ''public-doc'' [''Vendor support/product metadata; protocol quirks require captured traces'']"

definition profiles :: "profile list" where
  "profiles = [genericProfile, specProfile, minisatip_profile, tvheadend_profile,
     triax_tss400_profile, telestar_digibit_r1_profile,
     kathrein_exip_profile, digital_devices_octopus_net_profile]"

lemmas vendor_profiles [go_defs] = genericProfile_def specProfile_def withName_def withDevice_def
  minisatip_profile_def tvheadend_profile_def triax_tss400_profile_def telestar_digibit_r1_profile_def kathrein_exip_profile_def digital_devices_octopus_net_profile_def

definition ForName :: "string \<Rightarrow> profile" where
  "ForName name =
     (let normalized = to_lower (trim_space name)
      in if normalized = [] then genericProfile
         else case find (\<lambda>p. profName p = normalized) profiles of
                Some p \<Rightarrow> p | None \<Rightarrow> specProfile)"

definition Names :: "string list" where
  "Names = map profName profiles"

section \<open>What the profiles change\<close>

lemma ForName_member: "ForName name \<in> set profiles"
  by (auto simp: ForName_def Let_def profiles_def dest!: find_SomeD split: option.splits)

text \<open>Every name selects one of the eight profiles: each profile by its own name in any case and
  with white space around it, the generic one by an empty name, \<open>spec\<close> by an unknown name. None of
  them changes the RTSP behaviour: all use the header names and the busy status of the generic
  profile, send the session timeout, and never require a DESCRIBE before a SETUP.\<close>

theorem profiles_advertise_only:
  "ForName name \<in> set profiles \<and>
   (trim_space name = [] \<longrightarrow> ForName name = genericProfile) \<and>
   (trim_space name \<noteq> [] \<and> to_lower (trim_space name) \<notin> set Names \<longrightarrow> ForName name = specProfile) \<and>
   (to_lower (trim_space name) \<in> set Names \<longrightarrow> profName (ForName name) = to_lower (trim_space name)) \<and>
   profSessionHeader (ForName name) = ''Session'' \<and> profTransportHeader (ForName name) = ''Transport'' \<and>
   profTunerBusyStatus (ForName name) = ''503 Service Unavailable'' \<and>
   profIncludeSetupTimeout (ForName name) \<and> \<not> profRequireDescribeBeforeSetup (ForName name) \<and>
   profRTCPStatusInterval (ForName name) = 200 * millisecond"
proof -
  have generic: "list_all (\<lambda>p. profSessionHeader p = ''Session'' \<and> profTransportHeader p = ''Transport'' \<and>
      profTunerBusyStatus p = ''503 Service Unavailable'' \<and> profIncludeSetupTimeout p \<and>
      \<not> profRequireDescribeBeforeSetup p \<and> profRTCPStatusInterval p = 200 * millisecond) profiles"
    by (simp add: profiles_def vendor_profiles)
  have unknown: "find (\<lambda>p. profName p = n) profiles = None" if "n \<notin> set Names" for n
    using that by (auto simp: find_None_ball Names_def)
  have known: "\<exists>p. find (\<lambda>p. profName p = n) profiles = Some p \<and> profName p = n" if "n \<in> set Names" for n
  proof (cases "find (\<lambda>p. profName p = n) profiles")
    case None
    then show ?thesis using that by (auto simp: find_None_ball Names_def)
  qed (use find_SomeD in fastforce)
  have "to_lower (trim_space name) \<noteq> []" if "to_lower (trim_space name) \<in> set Names"
    using that by (auto simp: Names_def profiles_def vendor_profiles vendor_names to_lower_def)
  then show ?thesis
    using ForName_member [of name] generic unknown [of "to_lower (trim_space name)"]
      known [of "to_lower (trim_space name)"]
    by (auto simp: list_all_iff ForName_def Let_def to_lower_eq_Nil split: option.splits)
qed

theorem profiles_advertise_only_witness:
  "profName (ForName '' Kathrein-EXIP'') = ''kathrein-exip'' \<and> ForName '' '' = genericProfile \<and>
   ForName ''octagon'' = specProfile"
proof -
  have n: "trim_space '' Kathrein-EXIP'' = ''Kathrein-EXIP''" "trim_space '' '' = []"
    "trim_space ''octagon'' = ''octagon''" "to_lower ''Kathrein-EXIP'' = ''kathrein-exip''"
    "to_lower ''octagon'' = ''octagon''"
    by code_simp+
  have "''kathrein-exip'' \<in> set Names" "''octagon'' \<notin> set Names"
    by (simp_all add: Names_def profiles_def vendor_profiles vendor_names)
  then show ?thesis
    using profiles_advertise_only [of "'' Kathrein-EXIP''"] profiles_advertise_only [of "'' ''"]
      profiles_advertise_only [of "''octagon''"]
    by (simp only: n) simp
qed

end
