(* ===== verification/Config.thy ===== *)
theory Config
  imports Vendor
begin

text \<open>
  The configuration (\<open>internal/config/config.go\<close>): its schema as it is published, how it is read
  from the environment, and the URLs and the profile that the rest of the program derives from it.
  The environment is \<open>os.Getenv\<close>: a function from names to values, empty where a variable is unset.
\<close>

definition SatIPSearchTarget :: string where "SatIPSearchTarget = ''urn:ses-com:device:SatIPServer:1''"
definition SchemaVersion :: string where "SchemaVersion = ''2.2''"

datatype startup_scenario = StartNormal | StartTunerBusy

record config =
  cfgBindAddress :: string
  cfgPublicHost :: string
  cfgHTTPPort :: int
  cfgRTSPPort :: int
  cfgPublicHTTPPort :: int
  cfgPublicRTSPPort :: int
  cfgTunerCount :: int
  cfgSSDPort :: int
  cfgCatalogPath :: string
  cfgTopologyPath :: string
  cfgTransportStreamPath :: string
  cfgMediaDir :: string
  cfgSampleProfile :: string
  cfgProfile :: string
  cfgVendorProfile :: string
  cfgEPGClock :: string
  cfgScenario :: startup_scenario

record schema_variable =
  svName :: string
  svDefault :: string
  svType :: string
  svDescription :: string
  svEnum :: "string list"

record schema_document =
  sdVersion :: string
  sdVariables :: "schema_variable list"

definition schema_var :: "string \<Rightarrow> string \<Rightarrow> string \<Rightarrow> string \<Rightarrow> string list \<Rightarrow> schema_variable" where
  "schema_var name def ty descr enum =
     \<lparr>svName = name, svDefault = def, svType = ty, svDescription = descr, svEnum = enum\<rparr>"

definition schema_variables :: "schema_variable list" where
  "schema_variables =
     [schema_var ''SATIP_LAB_BIND'' ''0.0.0.0'' ''string''
        ''Listen address for HTTP, RTSP, and SSDP sockets.''
        [],
      schema_var ''SATIP_LAB_PUBLIC_HOST'' ''127.0.0.1'' ''string''
        ''Host advertised in SSDP LOCATION and generated SAT>IP URLs.''
        [],
      schema_var ''SATIP_LAB_HTTP_PORT'' ''8875'' ''integer''
        ''HTTP listen port for desc.xml, M3U, status, and lab API.''
        [],
      schema_var ''SATIP_LAB_RTSP_PORT'' ''554'' ''integer''
        ''RTSP listen port.''
        [],
      schema_var ''SATIP_LAB_PUBLIC_HTTP_PORT'' ''0'' ''integer''
        ''Advertised HTTP port; 0 uses SATIP_LAB_HTTP_PORT.''
        [],
      schema_var ''SATIP_LAB_PUBLIC_RTSP_PORT'' ''0'' ''integer''
        ''Advertised RTSP port in M3U URLs; 0 uses SATIP_LAB_RTSP_PORT.''
        [],
      schema_var ''SATIP_LAB_TUNERS'' ''2'' ''integer''
        ''Synthetic SAT>IP tuner count.''
        [],
      schema_var ''SATIP_LAB_SSDP_PORT'' ''1900'' ''integer''
        ''SSDP UDP port; 0 disables SSDP.''
        [],
      schema_var ''SATIP_LAB_CATALOG'' [] ''string''
        ''Optional YAML channel catalog path; empty uses the built-in five-service DACH catalog.''
        [],
      schema_var ''SATIP_LAB_TOPOLOGY'' [] ''string''
        ''Optional YAML topology fixture path for deterministic multi-device client tests.''
        [],
      schema_var ''SATIP_LAB_TS_PATH'' [] ''string''
        ''Optional MPEG-TS file to loop for all services; empty uses generated TS.''
        [],
      schema_var ''SATIP_LAB_MEDIA_DIR'' [] ''string''
        ''Optional directory of per-service MPEG-TS loops named <service-id>.ts; missing files fall back to generated TS.''
        [],
      schema_var ''SATIP_LAB_SAMPLE_PROFILE'' ''synthetic'' ''string''
        ''Built-in service sample profile used when SATIP_LAB_TS_PATH is empty.''
        [''synthetic'', ''h264_aac_short'', ''h264_silent''],
      schema_var ''SATIP_LAB_PROFILE'' NameGeneric ''string''
        ''Compatibility profile for SSDP, device XML path/metadata, M3U, and RTSP behavior.''
        Names,
      schema_var ''SATIP_LAB_VENDOR_PROFILE'' NameSpec ''string''
        ''RTSP behavior profile selector alias. SATIP_LAB_PROFILE is preferred.''
        Names,
      schema_var ''SATIP_LAB_EPG_CLOCK'' ''fixed:2026-03-29T01:30:00+01:00'' ''string''
        ''EPG lab clock: fixed:<rfc3339> for deterministic XMLTV output or real for wall-clock demos.''
        [],
      schema_var ''SATIP_LAB_SCENARIO'' ''normal'' ''string''
        ''Startup RTSP scenario.''
        [''normal'', ''tuner_busy'']]"

definition Schema :: schema_document where
  "Schema = \<lparr>sdVersion = SchemaVersion, sdVariables = schema_variables\<rparr>"

section \<open>Reading the environment\<close>

type_synonym environment = "string \<Rightarrow> string"

definition envOr :: "environment \<Rightarrow> string \<Rightarrow> string \<Rightarrow> string" where
  "envOr env key fallback = (let v = env key in if v \<noteq> [] then v else fallback)"

definition envProfile :: "environment \<Rightarrow> string" where
  "envProfile env =
     (let v = env ''SATIP_LAB_PROFILE'' in
      if v \<noteq> [] then v
      else
        let v = env ''SATIP_LAB_VENDOR_PROFILE'' in
        if v \<noteq> [] then v else NameGeneric)"

definition envInt :: "environment \<Rightarrow> string \<Rightarrow> int \<Rightarrow> int" where
  "envInt env key fallback =
     (let raw = env key in
      if raw = [] then fallback
      else case atoi raw of None \<Rightarrow> fallback | Some v \<Rightarrow> v)"

definition parseScenario :: "string \<Rightarrow> startup_scenario" where
  "parseScenario raw = (if equal_fold raw ''tuner_busy'' then StartTunerBusy else StartNormal)"

definition FromEnvironment :: "environment \<Rightarrow> config" where
  "FromEnvironment env =
     \<lparr>cfgBindAddress = envOr env ''SATIP_LAB_BIND'' ''0.0.0.0'',
      cfgPublicHost = envOr env ''SATIP_LAB_PUBLIC_HOST'' ''127.0.0.1'',
      cfgHTTPPort = envInt env ''SATIP_LAB_HTTP_PORT'' 8875,
      cfgRTSPPort = envInt env ''SATIP_LAB_RTSP_PORT'' 554,
      cfgPublicHTTPPort = envInt env ''SATIP_LAB_PUBLIC_HTTP_PORT'' 0,
      cfgPublicRTSPPort = envInt env ''SATIP_LAB_PUBLIC_RTSP_PORT'' 0,
      cfgTunerCount = envInt env ''SATIP_LAB_TUNERS'' 2,
      cfgSSDPort = envInt env ''SATIP_LAB_SSDP_PORT'' 1900,
      cfgCatalogPath = envOr env ''SATIP_LAB_CATALOG'' [],
      cfgTopologyPath = envOr env ''SATIP_LAB_TOPOLOGY'' [],
      cfgTransportStreamPath = envOr env ''SATIP_LAB_TS_PATH'' [],
      cfgMediaDir = envOr env ''SATIP_LAB_MEDIA_DIR'' [],
      cfgSampleProfile = envOr env ''SATIP_LAB_SAMPLE_PROFILE'' ''synthetic'',
      cfgProfile = envProfile env,
      cfgVendorProfile = envOr env ''SATIP_LAB_VENDOR_PROFILE'' NameSpec,
      cfgEPGClock = envOr env ''SATIP_LAB_EPG_CLOCK'' ''fixed:2026-03-29T01:30:00+01:00'',
      cfgScenario = parseScenario (env ''SATIP_LAB_SCENARIO'')\<rparr>"

section \<open>Derived settings\<close>

definition EffectivePublicHTTPPort :: "config \<Rightarrow> int" where
  "EffectivePublicHTTPPort c = (if cfgPublicHTTPPort c > 0 then cfgPublicHTTPPort c else cfgHTTPPort c)"

definition EffectivePublicRTSPPort :: "config \<Rightarrow> int" where
  "EffectivePublicRTSPPort c = (if cfgPublicRTSPPort c > 0 then cfgPublicRTSPPort c else cfgRTSPPort c)"

definition HTTPBaseURL :: "config \<Rightarrow> string" where
  "HTTPBaseURL c = ''http://'' @ cfgPublicHost c @ '':'' @ itoa (EffectivePublicHTTPPort c)"

definition CompatibilityProfile :: "config \<Rightarrow> profile" where
  "CompatibilityProfile c =
     (if trim_space (cfgProfile c) \<noteq> [] then ForName (cfgProfile c)
      else if trim_space (cfgVendorProfile c) \<noteq> [] then ForName (cfgVendorProfile c)
      else ForName NameGeneric)"

definition DeviceDescriptionURL :: "config \<Rightarrow> string" where
  "DeviceDescriptionURL c = HTTPBaseURL c @ devDescriptionPath (profDevice (CompatibilityProfile c))"

definition PresentationURL :: "config \<Rightarrow> string" where
  "PresentationURL c = ''/''"

definition M3UURL :: "config \<Rightarrow> string" where
  "M3UURL c = HTTPBaseURL c @ devXSatipM3U (profDevice (CompatibilityProfile c))"

definition ScenarioName :: "config \<Rightarrow> string" where
  "ScenarioName c = (if cfgScenario c = StartTunerBusy then ''tuner_busy'' else ''normal'')"

section \<open>The published defaults\<close>

definition unset :: environment where "unset = (\<lambda>_. [])"

lemma default_cases:
  "list_all (\<lambda>v. svName v = ''SATIP_LAB_VENDOR_PROFILE'' \<or>
     FromEnvironment (unset(svName v := svDefault v)) = FromEnvironment unset) schema_variables"
proof -
  have ints: "atoi ''8875'' = Some 8875" "atoi ''554'' = Some 554" "atoi ''0'' = Some 0"
    "atoi ''2'' = Some 2" "atoi ''1900'' = Some 1900"
    by code_simp+
  have scen: "parseScenario ''normal'' = StartNormal" "parseScenario [] = StartNormal"
    by code_simp+
  show ?thesis
    by (simp add: schema_variables_def schema_var_def FromEnvironment_def unset_def envOr_def
        envInt_def envProfile_def ints scen)
qed


end
