(* ===== verification/Channels.thy ===== *)
theory Channels
  imports GoLib
begin

text \<open>
  The package \<open>internal/channels\<close>: the channel record and its SAT>IP tuning query
  (\<open>channel.go\<close>), the built-in list and the M3U text (\<open>catalog.go\<close>), and the validation of a
  loaded catalog (\<open>loader.go\<close>, after YAML decoding). The problems that the loader collects are
  values of a datatype with one constructor for each message.
\<close>

section \<open>Channels and their tuning query\<close>

record channel =
  chID :: string
  chNumber :: int
  chName :: string
  chGroup :: string
  chTvgID :: string
  chFrequency :: int
  chPolarization :: string
  chSymbolRate :: int
  chDelivery :: string
  chSrc :: int
  chPids :: "int list"

definition TuningQuery :: "channel \<Rightarrow> string" where
  "TuningQuery c =
     (let pids = map itoa (chPids c)
      in join ''&''
           [''src='' @ itoa (chSrc c),
            ''freq='' @ itoa (chFrequency c),
            ''pol='' @ chPolarization c,
            ''msys='' @ chDelivery c,
            ''sr='' @ itoa (chSymbolRate c),
            ''pids='' @ join '','' pids])"

definition DachChannels :: "channel list" where
  "DachChannels =
    [\<lparr>chID = ''das-erste-hd'', chNumber = 1, chName = ''Das Erste HD'', chGroup = ''DE'',
      chTvgID = ''daserste.de'', chFrequency = 11494, chPolarization = ''h'',
      chSymbolRate = 22000, chDelivery = ''dvbs2'', chSrc = 1,
      chPids = [0, 17, 5100, 5101, 5102]\<rparr>,
     \<lparr>chID = ''zdf-hd'', chNumber = 2, chName = ''ZDF HD'', chGroup = ''DE'',
      chTvgID = ''zdf.de'', chFrequency = 11362, chPolarization = ''h'',
      chSymbolRate = 22000, chDelivery = ''dvbs2'', chSrc = 1,
      chPids = [0, 17, 6100, 6110, 6120]\<rparr>,
     \<lparr>chID = ''arte-hd'', chNumber = 3, chName = ''arte HD'', chGroup = ''DE'',
      chTvgID = ''arte.de'', chFrequency = 11494, chPolarization = ''h'',
      chSymbolRate = 22000, chDelivery = ''dvbs2'', chSrc = 1,
      chPids = [0, 17, 5200, 5201, 5202]\<rparr>,
     \<lparr>chID = ''3sat-hd'', chNumber = 4, chName = ''3sat HD'', chGroup = ''DE'',
      chTvgID = ''3sat.de'', chFrequency = 11347, chPolarization = ''v'',
      chSymbolRate = 22000, chDelivery = ''dvbs2'', chSrc = 1,
      chPids = [0, 17, 6300, 6310, 6320]\<rparr>,
     \<lparr>chID = ''phoenix-hd'', chNumber = 5, chName = ''phoenix HD'', chGroup = ''DE'',
      chTvgID = ''phoenix.de'', chFrequency = 11582, chPolarization = ''h'',
      chSymbolRate = 22000, chDelivery = ''dvbs2'', chSrc = 1,
      chPids = [0, 17, 6500, 6510, 6520]\<rparr>]"

text \<open>\<open>BuildM3U\<close>; a nil list (\<open>None\<close>) stands for the built-in one.\<close>

definition m3u_entry :: "string \<Rightarrow> int \<Rightarrow> channel \<Rightarrow> string" where
  "m3u_entry host port ch =
     ''#EXTINF:'' @ itoa (chNumber ch) @ '' tvg-id=\"'' @ chTvgID ch @ ''\" tvg-name=\"'' @ chName ch
       @ ''\" group-title=\"'' @ chGroup ch @ ''\",'' @ itoa (chNumber ch) @ '' '' @ chName ch
       @ [CHR 0x0A]
     @ ''rtsp://'' @ host @ '':'' @ itoa port @ ''/?'' @ TuningQuery ch @ [CHR 0x0A]"

definition BuildM3U :: "string \<Rightarrow> int \<Rightarrow> channel list option \<Rightarrow> string" where
  "BuildM3U host port list =
     (let chs = (case list of None \<Rightarrow> DachChannels | Some l \<Rightarrow> l)
      in ''#EXTM3U'' @ [CHR 0x0A] @ concat (map (m3u_entry host port) chs))"

section \<open>Validation of a loaded catalog\<close>

record channel_file =
  cfID :: string
  cfNumber :: int
  cfName :: string
  cfGroup :: string
  cfTvgID :: string
  cfFrequency :: int
  cfPolarization :: string
  cfSymbolRate :: int
  cfDelivery :: string
  cfSrc :: int
  cfPids :: "int list"

datatype field_problem =
    IdRequired | NumberNotPositive | NameRequired | GroupRequired | TvgIdRequired
  | SrcNotPositive | FreqNotPositive | PolNotHV | SrNotPositive | MsysUnknown
  | PidsTooFew | PatPidNotZero | SdtPidNot17 | PidOutOfRange nat

datatype channel_problem =
    InvalidField nat field_problem
  | DuplicateID nat string nat
  | DuplicateNumber nat int nat
  | DuplicateTvgID nat string nat

datatype load_error = NoServices | Problems "channel_problem list"

definition normalise_channel :: "channel_file \<Rightarrow> channel" where
  "normalise_channel svc =
     \<lparr>chID = trim_space (cfID svc), chNumber = cfNumber svc, chName = trim_space (cfName svc),
      chGroup = trim_space (cfGroup svc), chTvgID = trim_space (cfTvgID svc),
      chFrequency = cfFrequency svc,
      chPolarization = to_lower (trim_space (cfPolarization svc)),
      chSymbolRate = cfSymbolRate svc, chDelivery = to_lower (trim_space (cfDelivery svc)),
      chSrc = cfSrc svc, chPids = cfPids svc\<rparr>"

fun pid_problems :: "nat \<Rightarrow> int list \<Rightarrow> field_problem list" where
  "pid_problems idx [] = []"
| "pid_problems idx (pid # pids) =
     (if pid < 0 \<or> pid > 8191 then [PidOutOfRange idx] else []) @ pid_problems (Suc idx) pids"

definition validateChannel :: "channel \<Rightarrow> field_problem list" where
  "validateChannel ch =
     (if chID ch = '''' then [IdRequired] else []) @
     (if chNumber ch \<le> 0 then [NumberNotPositive] else []) @
     (if chName ch = '''' then [NameRequired] else []) @
     (if chGroup ch = '''' then [GroupRequired] else []) @
     (if chTvgID ch = '''' then [TvgIdRequired] else []) @
     (if chSrc ch \<le> 0 then [SrcNotPositive] else []) @
     (if chFrequency ch \<le> 0 then [FreqNotPositive] else []) @
     (if chPolarization ch \<noteq> ''h'' \<and> chPolarization ch \<noteq> ''v'' then [PolNotHV] else []) @
     (if chSymbolRate ch \<le> 0 then [SrNotPositive] else []) @
     (if chDelivery ch \<noteq> ''dvbs'' \<and> chDelivery ch \<noteq> ''dvbs2'' then [MsysUnknown] else []) @
     (if length (chPids ch) < 5 then [PidsTooFew] else []) @
     (if length (chPids ch) > 0 \<and> chPids ch ! 0 \<noteq> 0 then [PatPidNotZero] else []) @
     (if length (chPids ch) > 1 \<and> chPids ch ! 1 \<noteq> 17 then [SdtPidNot17] else []) @
     pid_problems 0 (chPids ch)"

fun channels_loop :: "nat \<Rightarrow> (string \<rightharpoonup> nat) \<Rightarrow> (int \<rightharpoonup> nat) \<Rightarrow> (string \<rightharpoonup> nat)
    \<Rightarrow> channel_file list \<Rightarrow> channel_problem list \<times> channel list" where
  "channels_loop i ids numbers tvg_ids [] = ([], [])"
| "channels_loop i ids numbers tvg_ids (svc # rest) =
     (let ch = normalise_channel svc;
          here =
            map (InvalidField i) (validateChannel ch) @
            (case ids (chID ch) of
               Some prev \<Rightarrow> if chID ch \<noteq> '''' then [DuplicateID i (chID ch) prev] else []
             | None \<Rightarrow> []) @
            (case numbers (chNumber ch) of
               Some prev \<Rightarrow> if chNumber ch > 0 then [DuplicateNumber i (chNumber ch) prev] else []
             | None \<Rightarrow> []) @
            (case tvg_ids (chTvgID ch) of
               Some prev \<Rightarrow> if chTvgID ch \<noteq> '''' then [DuplicateTvgID i (chTvgID ch) prev] else []
             | None \<Rightarrow> []);
          (problems, out) =
            channels_loop (Suc i) (ids(chID ch \<mapsto> i)) (numbers(chNumber ch \<mapsto> i))
              (tvg_ids(chTvgID ch \<mapsto> i)) rest
      in (here @ problems, ch # out))"

definition catalogFile_channels :: "channel_file list \<Rightarrow> load_error + channel list" where
  "catalogFile_channels services =
     (if services = [] then Inl NoServices
      else case channels_loop 0 Map.empty Map.empty Map.empty services of
        (problems, out) \<Rightarrow> if problems \<noteq> [] then Inl (Problems problems) else Inr out)"

section \<open>What the loader accepts\<close>

definition valid_channel :: "channel \<Rightarrow> bool" where
  "valid_channel ch \<longleftrightarrow>
     chID ch \<noteq> '''' \<and> chNumber ch > 0 \<and> chName ch \<noteq> '''' \<and> chGroup ch \<noteq> '''' \<and>
     chTvgID ch \<noteq> '''' \<and> chSrc ch > 0 \<and> chFrequency ch > 0 \<and>
     chPolarization ch \<in> {''h'', ''v''} \<and> chSymbolRate ch > 0 \<and>
     chDelivery ch \<in> {''dvbs'', ''dvbs2''} \<and> 5 \<le> length (chPids ch) \<and>
     chPids ch ! 0 = 0 \<and> chPids ch ! 1 = 17 \<and> (\<forall>p\<in>set (chPids ch). 0 \<le> p \<and> p \<le> 8191)"

lemma pid_problems_Nil: "pid_problems i ps = [] \<longleftrightarrow> (\<forall>p\<in>set ps. 0 \<le> p \<and> p \<le> 8191)"
  by (induction i ps rule: pid_problems.induct) auto

lemma validateChannel_Nil: "validateChannel ch = [] \<longleftrightarrow> valid_channel ch"
  by (auto simp: validateChannel_def valid_channel_def pid_problems_Nil)

lemma channels_loop_out:
  "snd (channels_loop i ids numbers tvg_ids svcs) = map normalise_channel svcs"
  by (induction svcs arbitrary: i ids numbers tvg_ids) (auto simp: Let_def case_prod_beta)

text \<open>The loop reports nothing exactly when every entry is valid and no id, number or tvg id
  repeats, neither in the rest of the list nor in what was seen before.\<close>

lemma channels_loop_ok:
  "fst (channels_loop i ids numbers tvg_ids svcs) = [] \<longleftrightarrow>
     (let chs = map normalise_channel svcs in
        (\<forall>ch\<in>set chs. valid_channel ch) \<and>
        distinct (map chID chs) \<and> chID ` set chs \<inter> dom ids = {} \<and>
        distinct (map chNumber chs) \<and> chNumber ` set chs \<inter> dom numbers = {} \<and>
        distinct (map chTvgID chs) \<and> chTvgID ` set chs \<inter> dom tvg_ids = {})"
proof (induction svcs arbitrary: i ids numbers tvg_ids)
  case Nil
  then show ?case by simp
next
  case (Cons svc rest)
  define ch where "ch = normalise_channel svc"
  have step: "fst (channels_loop i ids numbers tvg_ids (svc # rest)) = [] \<longleftrightarrow>
      valid_channel ch \<and> ids (chID ch) = None \<and> numbers (chNumber ch) = None \<and>
      tvg_ids (chTvgID ch) = None \<and>
      fst (channels_loop (Suc i) (ids(chID ch \<mapsto> i)) (numbers(chNumber ch \<mapsto> i))
        (tvg_ids(chTvgID ch \<mapsto> i)) rest) = []"
    by (auto simp: Let_def ch_def [symmetric] validateChannel_Nil valid_channel_def
        split: prod.splits option.splits)
  show ?case
    unfolding step Cons.IH
    by (auto simp: Let_def ch_def [symmetric] domIff image_iff)
qed

lemma catalogFile_channels_run:
  "catalogFile_channels services = Inr out \<longleftrightarrow>
     services \<noteq> [] \<and> fst (channels_loop 0 Map.empty Map.empty Map.empty services) = [] \<and>
     out = map normalise_channel services"
  using channels_loop_out [of 0 Map.empty Map.empty Map.empty services]
  by (auto simp: catalogFile_channels_def split: prod.splits if_splits)

lemma catalogFile_channels_valid:
  "catalogFile_channels services = Inr out \<Longrightarrow>
     (\<forall>ch\<in>set out. valid_channel ch) \<and> distinct (map chID out)"
  by (simp add: catalogFile_channels_run channels_loop_ok Let_def)

text \<open>C26. \<open>LoadCatalogFile\<close> accepts a decoded catalog exactly when it is not empty, every entry
  is valid after trimming and lower-casing, and no service id, number or tvg id occurs twice; the
  channels it returns are then the normalised entries, in file order.\<close>

theorem catalogFile_channels_iff:
  "catalogFile_channels services = Inr out \<longleftrightarrow>
     services \<noteq> [] \<and> out = map normalise_channel services \<and>
     list_all valid_channel out \<and> distinct (map chID out) \<and>
     distinct (map chNumber out) \<and> distinct (map chTvgID out)"
  by (auto simp: catalogFile_channels_run channels_loop_ok Let_def list_all_iff)

lemma DachChannels_valid: "\<forall>ch\<in>set DachChannels. valid_channel ch"
  by (simp add: DachChannels_def valid_channel_def)

end
