(* ===== verification/Catalog.thy ===== *)
theory Catalog
  imports Channels
begin

text \<open>
  The file \<open>internal/lab/catalog.go\<close>: muxes and services, the catalog made from a channel list,
  the lookups, and \<open>MatchService\<close>, which tunes an RTSP query to a service. The lemmas show that a
  catalog made from channels is well formed and that the tuning query the program itself
  publishes for a service tunes to that service.
\<close>

section \<open>Data\<close>

text \<open>The errors of package \<open>lab\<close> (\<open>manager.go\<close>).\<close>

datatype lab_error =
    ErrInvalidTune | ErrServiceNotFound | ErrNoTunerAvailable | ErrSessionNotFound
  | ErrUnknownScenario | ErrScenarioTarget | ErrScenarioDuration | ErrScenarioTimeline
  | ErrNoSignal | ErrTunerWedged

record mux =
  mxID :: string
  mxSrc :: int
  mxFrequency :: int
  mxPolarization :: string
  mxSymbolRate :: int
  mxDelivery :: string

record service =
  svcID :: string
  svcNumber :: int
  svcName :: string
  svcGroup :: string
  svcTvgID :: string
  svcMuxID :: string
  svcServiceID :: int
  svcPMTPID :: int
  svcVideoPID :: int
  svcAudioPID :: int

record catalog =
  catMuxes :: "mux list"
  catServices :: "service list"

section \<open>Operations\<close>

definition muxID :: "int \<Rightarrow> int \<Rightarrow> string \<Rightarrow> int \<Rightarrow> string \<Rightarrow> string" where
  "muxID src freq pol sr msys =
     ''src'' @ itoa src @ ''-'' @ itoa freq @ to_lower pol @ ''-'' @ itoa sr @ ''-'' @ to_lower msys"

definition pidAt :: "int list \<Rightarrow> nat \<Rightarrow> int" where
  "pidAt pids idx = (if idx < length pids then pids ! idx else 0)"

definition mux_of_channel :: "channel \<Rightarrow> mux" where
  "mux_of_channel ch =
     \<lparr>mxID = muxID (chSrc ch) (chFrequency ch) (chPolarization ch) (chSymbolRate ch) (chDelivery ch),
      mxSrc = chSrc ch, mxFrequency = chFrequency ch, mxPolarization = chPolarization ch,
      mxSymbolRate = chSymbolRate ch, mxDelivery = chDelivery ch\<rparr>"

definition service_of_channel :: "channel \<Rightarrow> service" where
  "service_of_channel ch =
     \<lparr>svcID = chID ch, svcNumber = chNumber ch, svcName = chName ch, svcGroup = chGroup ch,
      svcTvgID = chTvgID ch, svcMuxID = mxID (mux_of_channel ch),
      svcServiceID = wrap64 (1000 + chNumber ch),
      svcPMTPID = pidAt (chPids ch) 2, svcVideoPID = pidAt (chPids ch) 3,
      svcAudioPID = pidAt (chPids ch) 4\<rparr>"

fun catalog_loop :: "(string \<rightharpoonup> mux) \<Rightarrow> mux list \<Rightarrow> service list \<Rightarrow> channel list
    \<Rightarrow> mux list \<times> service list" where
  "catalog_loop muxes_by_id muxes services [] = (muxes, services)"
| "catalog_loop muxes_by_id muxes services (ch # rest) =
     (let mux = mux_of_channel ch;
          (muxes_by_id', muxes') =
            (if muxes_by_id (mxID mux) = None
             then (muxes_by_id(mxID mux \<mapsto> mux), muxes @ [mux]) else (muxes_by_id, muxes))
      in catalog_loop muxes_by_id' muxes' (services @ [service_of_channel ch]) rest)"

definition CatalogFromChannels :: "channel list \<Rightarrow> catalog" where
  "CatalogFromChannels list =
     (case catalog_loop Map.empty [] [] list of
        (muxes, services) \<Rightarrow> \<lparr>catMuxes = muxes, catServices = services\<rparr>)"

definition DefaultCatalog :: catalog where
  "DefaultCatalog = CatalogFromChannels DachChannels"

definition ServiceByID :: "catalog \<Rightarrow> string \<Rightarrow> service option" where
  "ServiceByID c i = find (\<lambda>svc. svcID svc = i) (catServices c)"

definition MuxByID :: "catalog \<Rightarrow> string \<Rightarrow> mux option" where
  "MuxByID c i = find (\<lambda>mux. mxID mux = i) (catMuxes c)"

definition parseTuneInts :: "url_values \<Rightarrow> (int \<times> int \<times> int) option" where
  "parseTuneInts values =
     (case atoi (url_get values ''src'') of None \<Rightarrow> None
      | Some src \<Rightarrow>
          (case atoi (url_get values ''freq'') of None \<Rightarrow> None
           | Some freq \<Rightarrow>
               (case atoi (url_get values ''sr'') of None \<Rightarrow> None
                | Some sr \<Rightarrow> Some (src, freq, sr))))"

text \<open>The map \<open>required\<close> of \<open>serviceMatchesPIDs\<close>, and one round of its loop.\<close>

definition mark_pid :: "(int \<rightharpoonup> bool) \<Rightarrow> string \<Rightarrow> (int \<rightharpoonup> bool)" where
  "mark_pid required part =
     (case atoi (trim_space part) of
        None \<Rightarrow> required
      | Some pid \<Rightarrow> if required pid \<noteq> None then required(pid \<mapsto> True) else required)"

definition serviceMatchesPIDs :: "service \<Rightarrow> string \<Rightarrow> bool" where
  "serviceMatchesPIDs svc raw =
     (if raw = '''' \<or> equal_fold raw ''all'' then True
      else
        let required0 = Map.empty(svcPMTPID svc \<mapsto> False, svcVideoPID svc \<mapsto> False,
              svcAudioPID svc \<mapsto> False);
            required = foldl mark_pid required0 (split_char (CHR '','') raw)
        in list_all (\<lambda>pid. required pid = Some True)
             [svcPMTPID svc, svcVideoPID svc, svcAudioPID svc])"

definition mux_matches :: "int \<Rightarrow> int \<Rightarrow> int \<Rightarrow> string \<Rightarrow> string \<Rightarrow> mux \<Rightarrow> bool" where
  "mux_matches src freq sr pol msys mux \<longleftrightarrow>
     mxSrc mux = src \<and> mxFrequency mux = freq \<and> mxSymbolRate mux = sr \<and>
     equal_fold (mxPolarization mux) pol \<and> equal_fold (mxDelivery mux) msys"

fun match_muxes :: "(mux \<Rightarrow> bool) \<Rightarrow> (service \<Rightarrow> bool) \<Rightarrow> service list \<Rightarrow> mux list
    \<Rightarrow> lab_error + (service \<times> mux)" where
  "match_muxes mux_ok pids_ok services [] = Inl ErrServiceNotFound"
| "match_muxes mux_ok pids_ok services (mux # muxes) =
     (if mux_ok mux then
        (case find (\<lambda>svc. svcMuxID svc = mxID mux \<and> pids_ok svc) services of
           Some svc \<Rightarrow> Inr (svc, mux)
         | None \<Rightarrow> match_muxes mux_ok pids_ok services muxes)
      else match_muxes mux_ok pids_ok services muxes)"

definition MatchService :: "catalog \<Rightarrow> string \<Rightarrow> lab_error + (service \<times> mux)" where
  "MatchService c raw_query =
     (case parse_query raw_query of
        None \<Rightarrow> Inl ErrInvalidTune
      | Some values \<Rightarrow>
          (case parseTuneInts values of
             None \<Rightarrow> Inl ErrInvalidTune
           | Some (src, freq, sr) \<Rightarrow>
               let pol = to_lower (url_get values ''pol'');
                   msys = to_lower (url_get values ''msys'')
               in match_muxes (mux_matches src freq sr pol msys)
                    (\<lambda>svc. serviceMatchesPIDs svc (url_get values ''pids''))
                    (catServices c) (catMuxes c)))"

definition Service_Channel :: "service \<Rightarrow> mux \<Rightarrow> channel" where
  "Service_Channel s mux =
     \<lparr>chID = svcID s, chNumber = svcNumber s, chName = svcName s, chGroup = svcGroup s,
      chTvgID = svcTvgID s, chFrequency = mxFrequency mux,
      chPolarization = mxPolarization mux, chSymbolRate = mxSymbolRate mux,
      chDelivery = mxDelivery mux, chSrc = mxSrc mux,
      chPids = [0, 17, svcPMTPID s, svcVideoPID s, svcAudioPID s]\<rparr>"

fun channels_of :: "catalog \<Rightarrow> service list \<Rightarrow> channel list" where
  "channels_of c [] = []"
| "channels_of c (svc # rest) =
     (case MuxByID c (svcMuxID svc) of
        None \<Rightarrow> channels_of c rest
      | Some mux \<Rightarrow> Service_Channel svc mux # channels_of c rest)"

definition Catalog_Channels :: "catalog \<Rightarrow> channel list" where
  "Catalog_Channels c = channels_of c (catServices c)"

section \<open>A catalog made from channels is well formed\<close>

definition wf_catalog :: "catalog \<Rightarrow> bool" where
  "wf_catalog c \<longleftrightarrow>
     distinct (map mxID (catMuxes c)) \<and> distinct (map svcID (catServices c)) \<and>
     (\<forall>svc\<in>set (catServices c). svcMuxID svc \<in> mxID ` set (catMuxes c))"

lemma mxID_mux_of_channel:
  "mxID (mux_of_channel ch) =
     muxID (chSrc ch) (chFrequency ch) (chPolarization ch) (chSymbolRate ch) (chDelivery ch)"
  by (simp add: mux_of_channel_def)

lemma svc_of_channel_simps [simp]:
  "svcID (service_of_channel ch) = chID ch"
  "svcMuxID (service_of_channel ch) = mxID (mux_of_channel ch)"
  by (simp_all add: service_of_channel_def)

lemma catalog_loop_services:
  "snd (catalog_loop byid muxes svcs chs) = svcs @ map service_of_channel chs"
  by (induction chs arbitrary: byid muxes svcs) (auto simp: Let_def)

text \<open>The muxes are the first mux with each id, in channel order.\<close>

lemma catalog_loop_muxes:
  assumes "dom byid = mxID ` set muxes" "distinct (map mxID muxes)"
  shows "distinct (map mxID (fst (catalog_loop byid muxes svcs chs))) \<and>
    set (fst (catalog_loop byid muxes svcs chs)) \<subseteq> set muxes \<union> mux_of_channel ` set chs \<and>
    mxID ` set (fst (catalog_loop byid muxes svcs chs)) =
      mxID ` set muxes \<union> mxID ` mux_of_channel ` set chs"
  using assms
proof (induction chs arbitrary: byid muxes svcs)
  case (Cons ch rest)
  let ?m = "mux_of_channel ch"
  show ?case
  proof (cases "byid (mxID ?m) = None")
    case True
    with Cons.prems(1) have fresh: "mxID ?m \<notin> mxID ` set muxes" by (auto simp: domIff)
    have "dom (byid(mxID ?m \<mapsto> ?m)) = mxID ` set (muxes @ [?m])" using Cons.prems(1) by simp
    moreover have "distinct (map mxID (muxes @ [?m]))" using Cons.prems(2) fresh by simp
    ultimately have IH: "distinct (map mxID (fst (catalog_loop (byid(mxID ?m \<mapsto> ?m)) (muxes @ [?m]) svcs' rest))) \<and>
      set (fst (catalog_loop (byid(mxID ?m \<mapsto> ?m)) (muxes @ [?m]) svcs' rest))
        \<subseteq> set (muxes @ [?m]) \<union> mux_of_channel ` set rest \<and>
      mxID ` set (fst (catalog_loop (byid(mxID ?m \<mapsto> ?m)) (muxes @ [?m]) svcs' rest)) =
        mxID ` set (muxes @ [?m]) \<union> mxID ` mux_of_channel ` set rest" for svcs'
      by (rule Cons.IH)
    have run: "catalog_loop byid muxes svcs (ch # rest) =
        catalog_loop (byid(mxID ?m \<mapsto> ?m)) (muxes @ [?m]) (svcs @ [service_of_channel ch]) rest"
      using True by (simp add: Let_def)
    show ?thesis unfolding run using IH [of "svcs @ [service_of_channel ch]"]
      by (simp add: Un_commute insert_commute)
  next
    case False
    with Cons.prems(1) have known: "mxID ?m \<in> mxID ` set muxes" by (auto simp: domIff)
    have run: "catalog_loop byid muxes svcs (ch # rest) =
        catalog_loop byid muxes (svcs @ [service_of_channel ch]) rest"
      using False by (auto simp: Let_def)
    show ?thesis unfolding run
      using Cons.IH [OF Cons.prems, of "svcs @ [service_of_channel ch]"] known
      by (simp add: insert_absorb) blast
  qed
qed simp

lemma catServices_from_channels [simp]:
  "catServices (CatalogFromChannels chs) = map service_of_channel chs"
  using catalog_loop_services [of Map.empty "[]" "[]" chs]
  by (auto simp: CatalogFromChannels_def split: prod.splits)

lemma catMuxes_from_channels:
  "distinct (map mxID (catMuxes (CatalogFromChannels chs)))"
  "set (catMuxes (CatalogFromChannels chs)) \<subseteq> mux_of_channel ` set chs"
  "mxID ` set (catMuxes (CatalogFromChannels chs)) = mxID ` mux_of_channel ` set chs"
  using catalog_loop_muxes [of Map.empty "[]" "[]" chs]
  by (auto simp: CatalogFromChannels_def split: prod.splits)

lemma wf_catalog_from_channels:
  "distinct (map chID chs) \<Longrightarrow> wf_catalog (CatalogFromChannels chs)"
  using catMuxes_from_channels [of chs] by (auto simp: wf_catalog_def comp_def)

lemma to_lower_channel:
  assumes "valid_channel ch"
  shows "to_lower (chPolarization ch) = chPolarization ch"
    and "to_lower (chDelivery ch) = chDelivery ch"
  using assms by (auto simp: valid_channel_def to_lower_def lower_char_def)

text \<open>The id string of a mux determines its parameters, for the channels the loader accepts.\<close>

lemma muxID_inj:
  assumes "valid_channel a" "valid_channel b" "mxID (mux_of_channel a) = mxID (mux_of_channel b)"
  shows "mux_of_channel a = mux_of_channel b"
proof -
  have nd: "\<not> is_digit (CHR ''-'')" "\<not> is_digit (CHR ''h'')" "\<not> is_digit (CHR ''v'')"
    by (simp_all add: is_digit_def)
  have pos: "0 \<le> chSrc a" "0 \<le> chSrc b" "0 \<le> chFrequency a" "0 \<le> chFrequency b"
    "0 \<le> chSymbolRate a" "0 \<le> chSymbolRate b"
    using assms(1,2) by (auto simp: valid_channel_def)
  obtain p q where p: "chPolarization a = [p]" "p \<in> {CHR ''h'', CHR ''v''}"
    and q: "chPolarization b = [q]" "q \<in> {CHR ''h'', CHR ''v''}"
    using assms(1,2) by (auto simp: valid_channel_def)
  have eq: "itoa (chSrc a) @ CHR ''-'' # itoa (chFrequency a) @ p # CHR ''-'' #
        itoa (chSymbolRate a) @ CHR ''-'' # chDelivery a =
      itoa (chSrc b) @ CHR ''-'' # itoa (chFrequency b) @ q # CHR ''-'' #
        itoa (chSymbolRate b) @ CHR ''-'' # chDelivery b"
    using assms(3) p(1) q(1) to_lower_channel(1) [OF assms(1)] to_lower_channel(1) [OF assms(2)]
    by (simp add: mxID_mux_of_channel muxID_def to_lower_channel(2) [OF assms(1)]
        to_lower_channel(2) [OF assms(2)])
  from itoa_run_unique [OF eq pos(1,2) nd(1) nd(1)]
  have 1: "chSrc a = chSrc b"
    and eq2: "itoa (chFrequency a) @ p # CHR ''-'' # itoa (chSymbolRate a) @ CHR ''-'' # chDelivery a
      = itoa (chFrequency b) @ q # CHR ''-'' # itoa (chSymbolRate b) @ CHR ''-'' # chDelivery b"
    by auto
  from itoa_run_unique [OF eq2 pos(3,4)] p q nd
  have 2: "chFrequency a = chFrequency b" "p = q"
    and eq3: "itoa (chSymbolRate a) @ CHR ''-'' # chDelivery a
      = itoa (chSymbolRate b) @ CHR ''-'' # chDelivery b"
    by auto
  from itoa_run_unique [OF eq3 pos(5,6) nd(1) nd(1)]
  have 3: "chSymbolRate a = chSymbolRate b" "chDelivery a = chDelivery b" by auto
  show ?thesis using 1 2 3 p q by (simp add: mux_of_channel_def)
qed

section \<open>What MatchService returns\<close>

lemma match_muxes_Inr:
  "match_muxes mux_ok pids_ok services muxes = Inr (svc, mux) \<Longrightarrow>
     mux \<in> set muxes \<and> mux_ok mux \<and> svc \<in> set services \<and> svcMuxID svc = mxID mux \<and> pids_ok svc"
  by (induction muxes) (auto split: if_splits option.splits dest: find_SomeD)

lemma match_muxes_Inl:
  "match_muxes mux_ok pids_ok services muxes = Inl e \<longleftrightarrow>
     e = ErrServiceNotFound \<and> (\<forall>mux\<in>set muxes. mux_ok mux \<longrightarrow>
       (\<forall>svc\<in>set services. \<not> (svcMuxID svc = mxID mux \<and> pids_ok svc)))"
  by (induction muxes) (auto simp: find_None_ball split: option.splits dest: find_SomeD)

text \<open>If one service is the only match, in whatever order the lists hold the entries, it is the
  result.\<close>

lemma match_muxes_unique:
  assumes "mux \<in> set muxes" "mux_ok mux" "svc \<in> set services" "svcMuxID svc = mxID mux" "pids_ok svc"
    and "\<And>m s. m \<in> set muxes \<Longrightarrow> mux_ok m \<Longrightarrow> s \<in> set services \<Longrightarrow> svcMuxID s = mxID m \<Longrightarrow>
      pids_ok s \<Longrightarrow> m = mux \<and> s = svc"
  shows "match_muxes mux_ok pids_ok services muxes = Inr (svc, mux)"
proof (cases "match_muxes mux_ok pids_ok services muxes")
  case (Inl e)
  with assms(1-5) show ?thesis by (auto simp: match_muxes_Inl)
next
  case (Inr r)
  then show ?thesis using match_muxes_Inr assms(6) by (cases r) metis
qed

lemma MatchService_cases:
  "MatchService c q = Inr (svc, mux) \<Longrightarrow>
     svc \<in> set (catServices c) \<and> mux \<in> set (catMuxes c) \<and> svcMuxID svc = mxID mux"
  by (auto simp: MatchService_def split: option.splits dest: match_muxes_Inr)

lemma foldl_mark_pid:
  "foldl mark_pid required parts k =
     map_option (\<lambda>seen. seen \<or> (\<exists>part\<in>set parts. atoi (trim_space part) = Some k)) (required k)"
proof (induction parts arbitrary: required)
  case Nil
  then show ?case by (cases "required k") simp_all
next
  case (Cons part parts)
  have "mark_pid required part k =
      map_option (\<lambda>seen. seen \<or> atoi (trim_space part) = Some k) (required k)"
    by (auto simp: mark_pid_def option.map_ident split: option.splits)
  then show ?case by (simp add: Cons.IH option.map_comp comp_def disj_ac)
qed

text \<open>A PID list matches a service when it names all three of its PIDs, in any order and among any
  other entries.\<close>

lemma serviceMatchesPIDs_iff:
  "serviceMatchesPIDs svc raw \<longleftrightarrow> raw = '''' \<or> equal_fold raw ''all'' \<or>
     (\<forall>pid\<in>{svcPMTPID svc, svcVideoPID svc, svcAudioPID svc}.
        \<exists>part\<in>set (split_char (CHR '','') raw). atoi (trim_space part) = Some pid)"
  by (auto simp: serviceMatchesPIDs_def Let_def foldl_mark_pid)

lemma split_join_itoa: "pids \<noteq> [] \<Longrightarrow> split_char (CHR '','') (join '','' (map itoa pids)) = map itoa pids"
  by (rule split_join) (auto simp: itoa_clean)

lemma join_itoa_not_all: "pids \<noteq> [] \<Longrightarrow> \<not> equal_fold (join '','' (map itoa pids)) ''all''"
proof
  assume "pids \<noteq> []" "equal_fold (join '','' (map itoa pids)) ''all''"
  then obtain c cs where c: "join '','' (map itoa pids) = c # cs" "lower_char c = CHR ''a''"
    by (auto simp: equal_fold_def to_lower_def lower_char_def Let_def)
  then have "c = CHR '','' \<or> is_digit c \<or> c = CHR ''-''"
    using set_join [of "'',''" "map itoa pids"] set_itoa by auto
  with c(2) show False
    by (auto simp: lower_char_def is_digit_def Let_def split: if_splits)
qed

lemma serviceMatchesPIDs_join:
  assumes "pids \<noteq> []" "\<forall>p\<in>set pids. go_int p"
  shows "serviceMatchesPIDs svc (join '','' (map itoa pids)) \<longleftrightarrow>
    {svcPMTPID svc, svcVideoPID svc, svcAudioPID svc} \<subseteq> set pids"
proof -
  have "(\<exists>part\<in>set (map itoa pids). atoi (trim_space part) = Some k) \<longleftrightarrow> k \<in> set pids" for k
    using assms(2) by (auto simp: go_int_def atoi_itoa)
  then show ?thesis
    using assms(1) by (simp add: serviceMatchesPIDs_iff split_join_itoa join_itoa_not_all join_eq_Nil)
      (auto simp: join_eq_Nil)
qed

section \<open>The published tuning queries\<close>

lemma parse_TuningQuery:
  assumes "query_plain (chPolarization ch)" "query_plain (chDelivery ch)"
  shows "parse_query (TuningQuery ch) =
    Some [(''src'', itoa (chSrc ch)), (''freq'', itoa (chFrequency ch)),
      (''pol'', chPolarization ch), (''msys'', chDelivery ch),
      (''sr'', itoa (chSymbolRate ch)), (''pids'', join '','' (map itoa (chPids ch)))]"
    (is "_ = Some ?kvs")
proof -
  have "query_plain (join '','' (map itoa (chPids ch)))"
    by (rule query_plain_join) (auto simp: query_plain_def itoa_clean)
  with assms have "\<forall>(k, v)\<in>set ?kvs. query_plain k \<and> query_plain v"
    by (simp add: query_plain_def itoa_clean)
  then have "parse_query (join ''&'' (map (\<lambda>(k, v). k @ CHR ''='' # v) ?kvs)) = Some ?kvs"
    by (rule parse_query_pairs) simp
  then show ?thesis by (simp add: TuningQuery_def Let_def)
qed

text \<open>Channels whose numbers are Go integers; the loader's validation bounds the rest.\<close>

definition go_channel :: "channel \<Rightarrow> bool" where
  "go_channel ch \<longleftrightarrow> go_int (chSrc ch) \<and> go_int (chFrequency ch) \<and> go_int (chSymbolRate ch) \<and>
     (\<forall>p\<in>set (chPids ch). go_int p)"

lemma MatchService_TuningQuery:
  assumes "query_plain (chPolarization ch)" "query_plain (chDelivery ch)" "go_channel ch"
  shows "MatchService c (TuningQuery ch) =
    match_muxes
      (mux_matches (chSrc ch) (chFrequency ch) (chSymbolRate ch)
        (to_lower (chPolarization ch)) (to_lower (chDelivery ch)))
      (\<lambda>svc. serviceMatchesPIDs svc (join '','' (map itoa (chPids ch))))
      (catServices c) (catMuxes c)"
  using assms
  by (simp add: MatchService_def parse_TuningQuery parseTuneInts_def url_get_def atoi_itoa
      go_channel_def go_int_def)

text \<open>No other service of the same mux has all its PIDs among those the entry asks for.\<close>

definition pids_distinguish :: "channel list \<Rightarrow> bool" where
  "pids_distinguish chs \<longleftrightarrow> list_all (\<lambda>ch. list_all (\<lambda>ch'.
     mxID (mux_of_channel ch') = mxID (mux_of_channel ch) \<and>
     {pidAt (chPids ch') 2, pidAt (chPids ch') 3, pidAt (chPids ch') 4}
       \<subseteq> {0, 17, pidAt (chPids ch) 2, pidAt (chPids ch) 3, pidAt (chPids ch) 4}
     \<longrightarrow> ch' = ch) chs) chs"

lemma MuxByID_channel:
  assumes "\<forall>ch\<in>set chs. valid_channel ch" "ch \<in> set chs"
  shows "MuxByID (CatalogFromChannels chs) (mxID (mux_of_channel ch)) = Some (mux_of_channel ch)"
proof -
  let ?c = "CatalogFromChannels chs"
  have "mxID (mux_of_channel ch) \<in> mxID ` set (catMuxes ?c)"
    using catMuxes_from_channels(3) [of chs] assms(2) by auto
  then obtain m where m: "m \<in> set (catMuxes ?c)" "mxID m = mxID (mux_of_channel ch)" by auto
  then obtain ch' where "ch' \<in> set chs" "m = mux_of_channel ch'"
    using catMuxes_from_channels(2) by blast
  with m assms have "m = mux_of_channel ch" using muxID_inj by metis
  with m catMuxes_from_channels(1) [of chs] show ?thesis
    using find_key [of mxID "catMuxes ?c" m] by (simp add: MuxByID_def)
qed

lemma valid_channel_plain:
  "valid_channel ch \<Longrightarrow> query_plain (chPolarization ch) \<and> query_plain (chDelivery ch)"
  by (auto simp: valid_channel_def query_plain_def)

lemma mux_matches_self:
  assumes "valid_channel a" "valid_channel b"
    "mux_matches (chSrc b) (chFrequency b) (chSymbolRate b) (to_lower (chPolarization b))
      (to_lower (chDelivery b)) (mux_of_channel a)"
  shows "mux_of_channel a = mux_of_channel b"
  using assms(3) to_lower_channel [OF assms(1)] to_lower_channel [OF assms(2)]
  by (simp add: mux_matches_def equal_fold_def mux_of_channel_def mux.defs)

lemma published_channel_tunes:
  assumes ok: "\<forall>ch\<in>set chs. valid_channel ch" and ints: "\<forall>ch\<in>set chs. go_channel ch"
    and dist: "pids_distinguish chs" and ch: "ch \<in> set chs"
  defines "c \<equiv> CatalogFromChannels chs" and "svc \<equiv> service_of_channel ch"
    and "m \<equiv> mux_of_channel ch"
  shows "MatchService c (TuningQuery (Service_Channel svc m)) = Inr (svc, m)"
proof -
  let ?pub = "Service_Channel svc m"
  let ?pids = "[0, 17, pidAt (chPids ch) 2, pidAt (chPids ch) 3, pidAt (chPids ch) 4]"
  have pub: "chSrc ?pub = chSrc ch" "chFrequency ?pub = chFrequency ch"
    "chSymbolRate ?pub = chSymbolRate ch" "chPolarization ?pub = chPolarization ch"
    "chDelivery ?pub = chDelivery ch" "chPids ?pub = ?pids"
    by (simp_all add: Service_Channel_def svc_def m_def mux_of_channel_def service_of_channel_def)
  have valid: "valid_channel ch" and len: "5 \<le> length (chPids ch)"
    using ok ch by (auto simp: valid_channel_def)
  have gp: "\<forall>p\<in>set ?pids. go_int p"
    using len ints ch by (auto simp: go_channel_def pidAt_def go_int_def)
  have "go_channel ?pub" using gp ints ch by (simp add: go_channel_def pub)
  moreover have "query_plain (chPolarization ?pub)" "query_plain (chDelivery ?pub)"
    using valid_channel_plain [OF valid] by (simp_all add: pub)
  ultimately have "MatchService c (TuningQuery ?pub) =
    match_muxes (mux_matches (chSrc ch) (chFrequency ch) (chSymbolRate ch)
        (to_lower (chPolarization ch)) (to_lower (chDelivery ch)))
      (\<lambda>s. serviceMatchesPIDs s (join '','' (map itoa ?pids))) (catServices c) (catMuxes c)"
    by (simp only: MatchService_TuningQuery pub)
  also have "\<dots> = Inr (svc, m)"
  proof (rule match_muxes_unique)
    show "m \<in> set (catMuxes c)"
      using MuxByID_channel [OF ok ch] by (auto simp: MuxByID_def c_def m_def dest: find_SomeD)
    show "svc \<in> set (catServices c)" using ch by (simp add: c_def svc_def)
    show "svcMuxID svc = mxID m" by (simp add: svc_def m_def)
    show "mux_matches (chSrc ch) (chFrequency ch) (chSymbolRate ch)
        (to_lower (chPolarization ch)) (to_lower (chDelivery ch)) m"
      by (simp add: mux_matches_def m_def mux_of_channel_def)
    show "serviceMatchesPIDs svc (join '','' (map itoa ?pids))"
      using gp by (subst serviceMatchesPIDs_join) (simp_all add: svc_def service_of_channel_def)
  next
    fix m' s
    assume m': "m' \<in> set (catMuxes c)"
      "mux_matches (chSrc ch) (chFrequency ch) (chSymbolRate ch)
        (to_lower (chPolarization ch)) (to_lower (chDelivery ch)) m'"
      and s: "s \<in> set (catServices c)" "svcMuxID s = mxID m'"
      "serviceMatchesPIDs s (join '','' (map itoa ?pids))"
    from m'(1) obtain a where a: "a \<in> set chs" "m' = mux_of_channel a"
      using catMuxes_from_channels(2) c_def by blast
    with m'(2) have "m' = m" using mux_matches_self ok valid m_def by metis
    from s(1) obtain b where b: "b \<in> set chs" "s = service_of_channel b" by (auto simp: c_def)
    from s(3) gp have "{svcPMTPID s, svcVideoPID s, svcAudioPID s} \<subseteq> set ?pids"
      by (subst (asm) serviceMatchesPIDs_join) auto
    with b s(2) \<open>m' = m\<close> dist ch have "b = ch"
      by (auto simp: pids_distinguish_def list_all_iff service_of_channel_def m_def)
    with b \<open>m' = m\<close> show "m' = m \<and> s = svc" by (simp add: svc_def)
  qed
  finally show ?thesis .
qed

lemma channels_of_catalog:
  assumes "\<forall>ch\<in>set chs. valid_channel ch" "set part \<subseteq> set chs"
  shows "channels_of (CatalogFromChannels chs) (map service_of_channel part) =
    map (\<lambda>ch. Service_Channel (service_of_channel ch) (mux_of_channel ch)) part"
  using assms(2) by (induction part) (auto simp: MuxByID_channel [OF assms(1)])

lemma Catalog_Channels_from_channels:
  "\<forall>ch\<in>set chs. valid_channel ch \<Longrightarrow> Catalog_Channels (CatalogFromChannels chs) =
     map (\<lambda>ch. Service_Channel (service_of_channel ch) (mux_of_channel ch)) chs"
  by (simp add: Catalog_Channels_def channels_of_catalog)

text \<open>Of the channels the loader accepts, every one is published: the list that the M3U and
  the device API are built from has one entry for each, in file order, with the id, the number and
  the tvg id of the file.\<close>

theorem Catalog_Channels_complete:
  assumes "catalogFile_channels services = Inr chs"
  shows "map chID (Catalog_Channels (CatalogFromChannels chs)) = map chID chs \<and>
    map chNumber (Catalog_Channels (CatalogFromChannels chs)) = map chNumber chs \<and>
    map chTvgID (Catalog_Channels (CatalogFromChannels chs)) = map chTvgID chs"
  using catalogFile_channels_valid [OF assms]
  by (simp add: Catalog_Channels_from_channels Service_Channel_def service_of_channel_def)

text \<open>The built-in channels as entries of a catalog file.\<close>

definition file_entry :: "channel \<Rightarrow> channel_file" where
  "file_entry ch = \<lparr>cfID = chID ch, cfNumber = chNumber ch, cfName = chName ch, cfGroup = chGroup ch,
     cfTvgID = chTvgID ch, cfFrequency = chFrequency ch, cfPolarization = chPolarization ch,
     cfSymbolRate = chSymbolRate ch, cfDelivery = chDelivery ch, cfSrc = chSrc ch, cfPids = chPids ch\<rparr>"

lemma dach_file_accepted: "catalogFile_channels (map file_entry DachChannels) = Inr DachChannels"
  by code_simp

theorem Catalog_Channels_complete_witness:
  "map chID (Catalog_Channels DefaultCatalog) =
     [''das-erste-hd'', ''zdf-hd'', ''arte-hd'', ''3sat-hd'', ''phoenix-hd'']"
  using Catalog_Channels_complete [OF dach_file_accepted] by (simp add: DefaultCatalog_def DachChannels_def)

text \<open>C27. Round trip: for a catalog the loader accepts, in which no service's PIDs are all among
  another one's PIDs on the same mux, the tuning query published for a service, sent back in an
  RTSP SETUP, tunes to exactly that service and its mux.\<close>

theorem published_query_tunes:
  assumes "catalogFile_channels services = Inr chs" "\<forall>ch\<in>set chs. go_channel ch"
    "pids_distinguish chs" "pub \<in> set (Catalog_Channels (CatalogFromChannels chs))"
  shows "\<exists>svc mux. svcID svc = chID pub \<and> svc \<in> set (catServices (CatalogFromChannels chs)) \<and>
    MuxByID (CatalogFromChannels chs) (svcMuxID svc) = Some mux \<and>
    MatchService (CatalogFromChannels chs) (TuningQuery pub) = Inr (svc, mux)"
proof -
  have ok: "\<forall>ch\<in>set chs. valid_channel ch"
    using catalogFile_channels_valid [OF assms(1)] by simp
  then obtain ch where ch: "ch \<in> set chs"
    "pub = Service_Channel (service_of_channel ch) (mux_of_channel ch)"
    using assms(4) by (auto simp: Catalog_Channels_from_channels)
  then have "MatchService (CatalogFromChannels chs) (TuningQuery pub) =
      Inr (service_of_channel ch, mux_of_channel ch)"
    using published_channel_tunes ok assms(2,3) by simp
  moreover have "svcID (service_of_channel ch) = chID pub"
    by (simp add: ch(2) Service_Channel_def)
  moreover have "MuxByID (CatalogFromChannels chs) (svcMuxID (service_of_channel ch)) =
      Some (mux_of_channel ch)"
    using MuxByID_channel [OF ok ch(1)] by simp
  ultimately show ?thesis using ch(1) by force
qed

lemma dach_go_channels: "\<forall>ch\<in>set DachChannels. go_channel ch"
  by (simp add: DachChannels_def go_channel_def go_int_def)

lemma dach_pids_distinguish: "pids_distinguish DachChannels"
  by (simp add: pids_distinguish_def DachChannels_def pidAt_def)

theorem published_query_tunes_witness:
  "list_all (\<lambda>pub. \<exists>svc mux. svcID svc = chID pub \<and>
     MatchService DefaultCatalog (TuningQuery pub) = Inr (svc, mux)) (Catalog_Channels DefaultCatalog)"
proof -
  have "\<exists>svc mux. svcID svc = chID pub \<and> MatchService DefaultCatalog (TuningQuery pub) = Inr (svc, mux)"
    if "pub \<in> set (Catalog_Channels DefaultCatalog)" for pub
    using published_query_tunes [OF dach_file_accepted dach_go_channels dach_pids_distinguish
        that [unfolded DefaultCatalog_def]]
    unfolding DefaultCatalog_def by blast
  then show ?thesis by (simp add: list_all_iff)
qed

section \<open>The contract between the catalog and the lab manager\<close>

text \<open>What the manager relies on: a tuned service and its mux can be found again by their ids.\<close>

locale tuning_catalog =
  fixes wf :: "'c \<Rightarrow> bool"
    and tune :: "'c \<Rightarrow> string \<Rightarrow> 'e + ('s \<times> 'm)"
    and service_at :: "'c \<Rightarrow> string \<Rightarrow> 's option"
    and mux_at :: "'c \<Rightarrow> string \<Rightarrow> 'm option"
    and service_key :: "'s \<Rightarrow> string"
    and mux_key :: "'m \<Rightarrow> string"
    and mux_of :: "'s \<Rightarrow> string"
  assumes tune_service: "wf c \<Longrightarrow> tune c q = Inr (s, m) \<Longrightarrow> service_at c (service_key s) = Some s"
    and tune_mux: "wf c \<Longrightarrow> tune c q = Inr (s, m) \<Longrightarrow> mux_at c (mux_key m) = Some m"
    and tune_same_mux: "wf c \<Longrightarrow> tune c q = Inr (s, m) \<Longrightarrow> mux_of s = mux_key m"
begin

lemma tuned_resolves:
  "wf c \<Longrightarrow> tune c q = Inr (s, m) \<Longrightarrow>
     \<exists>svc mux. service_at c (service_key s) = Some svc \<and> mux_at c (mux_key m) = Some mux \<and>
       mux_of svc = mux_key m"
  using tune_service tune_mux tune_same_mux by metis

lemma tuned_unique:
  "wf c \<Longrightarrow> tune c q = Inr (s, m) \<Longrightarrow> tune c q' = Inr (s', m') \<Longrightarrow>
     service_key s = service_key s' \<Longrightarrow> s = s' \<and> m = m'"
  using tune_service tune_mux tune_same_mux by (metis option.inject)

end

lemma ServiceByID_member:
  "wf_catalog c \<Longrightarrow> svc \<in> set (catServices c) \<Longrightarrow> ServiceByID c (svcID svc) = Some svc"
  using find_key [of svcID "catServices c" svc] by (simp add: wf_catalog_def ServiceByID_def)

lemma MuxByID_member:
  "wf_catalog c \<Longrightarrow> mux \<in> set (catMuxes c) \<Longrightarrow> MuxByID c (mxID mux) = Some mux"
  using find_key [of mxID "catMuxes c" mux] by (simp add: wf_catalog_def MuxByID_def)

interpretation lab_catalog: tuning_catalog wf_catalog MatchService ServiceByID MuxByID svcID mxID svcMuxID
  by unfold_locales (auto dest: MatchService_cases intro: ServiceByID_member MuxByID_member)

end
