(* ===== verification/Pids.thy ===== *)
theory Pids
  imports Catalog
begin

text \<open>
  The PID filters of a session (\<open>internal/lab/manager.go\<close>): parsing of PID lists, the defaults of a
  service, and the changes that \<open>UpdatePIDs\<close> makes for the query parameters \<open>pids\<close>, \<open>addpids\<close> and
  \<open>delpids\<close>. The lemmas show that the list operations implement an abstract filter, which is
  either everything or a finite set of PIDs.
\<close>

section \<open>PID lists\<close>

definition defaultPIDs :: "service \<Rightarrow> int list" where
  "defaultPIDs svc = [0, 17, svcPMTPID svc, svcVideoPID svc, svcAudioPID svc]"

fun parse_pid_parts :: "int set \<Rightarrow> int list \<Rightarrow> string list \<Rightarrow> int list option" where
  "parse_pid_parts seen pids [] = Some pids"
| "parse_pid_parts seen pids (part # parts) =
     (case atoi (trim_space part) of
        None \<Rightarrow> None
      | Some pid \<Rightarrow>
          if pid < 0 \<or> pid > 8191 then None
          else if pid \<in> seen then parse_pid_parts seen pids parts
          else parse_pid_parts (insert pid seen) (pids @ [pid]) parts)"

definition parsePIDList :: "string \<Rightarrow> lab_error + (int list \<times> bool)" where
  "parsePIDList raw =
     (if raw = '''' then Inr ([], False)
      else if equal_fold raw ''all'' then Inr ([], True)
      else case parse_pid_parts {} [] (split_char (CHR '','') raw) of
             None \<Rightarrow> Inl ErrInvalidTune
           | Some pids \<Rightarrow> Inr (sort pids, False))"

definition requestedPIDs :: "string \<Rightarrow> service \<Rightarrow> lab_error + (int list \<times> bool)" where
  "requestedPIDs raw_query svc =
     (case parse_query raw_query of
        None \<Rightarrow> Inl ErrInvalidTune
      | Some values \<Rightarrow>
          let raw = url_get values ''pids''
          in if raw = '''' then Inr (defaultPIDs svc, False) else parsePIDList raw)"

definition addPID :: "int list \<Rightarrow> int \<Rightarrow> int list" where
  "addPID pids pid = (if pid \<in> set pids then pids else pids @ [pid])"

fun removePID :: "int list \<Rightarrow> int \<Rightarrow> int list" where
  "removePID [] pid = []"
| "removePID (existing # rest) pid =
     (if existing \<noteq> pid then existing # removePID rest pid else removePID rest pid)"

section \<open>The body of UpdatePIDs\<close>

text \<open>The three parameters are applied in the order of the code; each may fail.\<close>

definition pids_set :: "string \<Rightarrow> int list \<times> bool \<Rightarrow> lab_error + (int list \<times> bool)" where
  "pids_set raw cur = (if raw \<noteq> '''' then parsePIDList raw else Inr cur)"

definition pids_add :: "string \<Rightarrow> int list \<times> bool \<Rightarrow> lab_error + (int list \<times> bool)" where
  "pids_add raw cur =
     (if raw \<noteq> '''' then
        (case parsePIDList raw of
           Inl e \<Rightarrow> Inl ErrInvalidTune
         | Inr (added, added_all) \<Rightarrow>
             if added_all then Inr ([], True)
             else if \<not> snd cur then Inr (foldl addPID (fst cur) added, snd cur)
             else Inr cur)
      else Inr cur)"

definition pids_del :: "string \<Rightarrow> int list \<times> bool \<Rightarrow> lab_error + (int list \<times> bool)" where
  "pids_del raw cur =
     (if raw \<noteq> '''' then
        (case parsePIDList raw of
           Inl e \<Rightarrow> Inl ErrInvalidTune
         | Inr (deleted, deleted_all) \<Rightarrow>
             if deleted_all then Inr ([], False)
             else if \<not> snd cur then Inr (foldl removePID (fst cur) deleted, snd cur)
             else Inl ErrInvalidTune)
      else Inr cur)"

definition updated_pids :: "url_values \<Rightarrow> int list \<times> bool \<Rightarrow> lab_error + (int list \<times> bool)" where
  "updated_pids values cur =
     (case pids_set (url_get values ''pids'') cur of
        Inl e \<Rightarrow> Inl ErrInvalidTune
      | Inr cur1 \<Rightarrow>
          (case pids_add (url_get values ''addpids'') cur1 of
             Inl e \<Rightarrow> Inl e
           | Inr cur2 \<Rightarrow>
               (case pids_del (url_get values ''delpids'') cur2 of
                  Inl e \<Rightarrow> Inl e
                | Inr (next, pids_all) \<Rightarrow> Inr (sort next, pids_all))))"

section \<open>Lemmas on PID lists\<close>

lemma set_addPID [simp]: "set (addPID pids pid) = insert pid (set pids)"
  by (auto simp: addPID_def)

lemma set_foldl_addPID [simp]: "set (foldl addPID pids added) = set pids \<union> set added"
  by (induction added arbitrary: pids) auto

lemma distinct_foldl_addPID: "distinct pids \<Longrightarrow> distinct (foldl addPID pids added)"
  by (induction added arbitrary: pids) (auto simp: addPID_def)

lemma removePID_filter: "removePID pids pid = filter (\<lambda>p. p \<noteq> pid) pids"
  by (induction pids) auto

lemma foldl_removePID: "foldl removePID pids deleted = filter (\<lambda>p. p \<notin> set deleted) pids"
  by (induction deleted arbitrary: pids) (auto simp: removePID_filter conj_commute intro: filter_cong)

lemma parse_pid_parts_Some:
  "parse_pid_parts seen pids parts = Some out \<Longrightarrow> set pids = seen \<Longrightarrow> distinct pids \<Longrightarrow>
     distinct out \<and>
     set out = set pids \<union> {p. \<exists>part\<in>set parts. atoi (trim_space part) = Some p} \<and>
     (\<forall>part\<in>set parts. \<exists>p. atoi (trim_space part) = Some p \<and> 0 \<le> p \<and> p \<le> 8191)"
proof (induction seen pids parts rule: parse_pid_parts.induct)
  case (2 seen pids part parts)
  then show ?case by (fastforce split: option.splits if_splits)
qed auto

lemma parse_pid_parts_None:
  "parse_pid_parts seen pids parts = None \<longleftrightarrow>
     (\<exists>part\<in>set parts. case atoi (trim_space part) of None \<Rightarrow> True | Some p \<Rightarrow> p < 0 \<or> p > 8191)"
  by (induction seen pids parts rule: parse_pid_parts.induct) (auto split: option.splits if_splits)

section \<open>The abstract filter\<close>

datatype pid_filter = AllPids | Only "int set"

definition abs_pids :: "int list \<times> bool \<Rightarrow> pid_filter" where
  "abs_pids cur = (if snd cur then AllPids else Only (set (fst cur)))"

text \<open>What a \<open>pids\<close>-like parameter denotes: nothing if some entry is not a PID.\<close>

definition denoted_filter :: "string \<Rightarrow> pid_filter option" where
  "denoted_filter raw =
     (let parts = split_char (CHR '','') raw in
      if raw = '''' then Some (Only {})
      else if equal_fold raw ''all'' then Some AllPids
      else if \<forall>part\<in>set parts. \<exists>p. atoi (trim_space part) = Some p \<and> 0 \<le> p \<and> p \<le> 8191
      then Some (Only {p. \<exists>part\<in>set parts. atoi (trim_space part) = Some p})
      else None)"

fun filter_union :: "pid_filter \<Rightarrow> pid_filter \<Rightarrow> pid_filter" where
  "filter_union (Only S) (Only T) = Only (S \<union> T)"
| "filter_union _ _ = AllPids"

text \<open>PIDs cannot be taken away from "everything", except all of them.\<close>

fun filter_minus :: "pid_filter \<Rightarrow> pid_filter \<Rightarrow> pid_filter option" where
  "filter_minus _ AllPids = Some (Only {})"
| "filter_minus (Only S) (Only T) = Some (Only (S - T))"
| "filter_minus AllPids (Only T) = None"

definition updated_filter :: "string \<Rightarrow> string \<Rightarrow> string \<Rightarrow> pid_filter \<Rightarrow> pid_filter option" where
  "updated_filter pids addpids delpids cur =
     (case (if pids = '''' then Some cur else denoted_filter pids) of None \<Rightarrow> None
      | Some f1 \<Rightarrow>
          (case (if addpids = '''' then Some f1
                 else map_option (filter_union f1) (denoted_filter addpids)) of None \<Rightarrow> None
           | Some f2 \<Rightarrow>
               (if delpids = '''' then Some f2
                else Option.bind (denoted_filter delpids) (filter_minus f2))))"

definition inr_option :: "'e + 'a \<Rightarrow> 'a option" where
  "inr_option r = (case r of Inl _ \<Rightarrow> None | Inr x \<Rightarrow> Some x)"

lemma inr_option_simps [simp]: "inr_option (Inl e) = None" "inr_option (Inr x) = Some x"
  by (simp_all add: inr_option_def)

lemma parsePIDList_abs: "map_option abs_pids (inr_option (parsePIDList raw)) = denoted_filter raw"
proof (cases "raw = '''' \<or> equal_fold raw ''all''")
  case True
  then show ?thesis by (auto simp: parsePIDList_def denoted_filter_def abs_pids_def)
next
  case False
  show ?thesis
  proof (cases "parse_pid_parts {} [] (split_char (CHR '','') raw)")
    case None
    then have "\<not> (\<forall>part\<in>set (split_char (CHR '','') raw).
        \<exists>p. atoi (trim_space part) = Some p \<and> 0 \<le> p \<and> p \<le> 8191)"
      unfolding parse_pid_parts_None by (fastforce split: option.splits)
    with None False show ?thesis
      by (simp add: parsePIDList_def denoted_filter_def Let_def)
  next
    case (Some pids)
    with False parse_pid_parts_Some [OF Some] show ?thesis
      by (simp add: parsePIDList_def denoted_filter_def abs_pids_def Let_def)
  qed
qed

lemma parsePIDList_shape:
  "parsePIDList raw = Inr (pids, pids_all) \<Longrightarrow>
     sorted pids \<and> distinct pids \<and> (\<forall>p\<in>set pids. 0 \<le> p \<and> p \<le> 8191) \<and> (pids_all \<longrightarrow> pids = [])"
  by (auto simp: parsePIDList_def dest!: parse_pid_parts_Some split: if_splits option.splits) fastforce+

lemma parsePIDList_error: "parsePIDList raw = Inl e \<Longrightarrow> e = ErrInvalidTune"
  by (auto simp: parsePIDList_def split: if_splits option.splits)

lemma pids_set_abs:
  "map_option abs_pids (inr_option (pids_set raw cur)) =
     (if raw = '''' then Some (abs_pids cur) else denoted_filter raw)"
  by (simp add: pids_set_def parsePIDList_abs)

lemma pids_add_abs:
  "map_option abs_pids (inr_option (pids_add raw cur)) =
     (if raw = '''' then Some (abs_pids cur)
      else map_option (filter_union (abs_pids cur)) (denoted_filter raw))"
proof (cases "parsePIDList raw")
  case (Inr r)
  with parsePIDList_abs [of raw, symmetric] show ?thesis
    by (cases r; cases cur; cases "snd cur") (auto simp: pids_add_def abs_pids_def)
qed (use parsePIDList_abs [of raw] in \<open>auto simp: pids_add_def\<close>)

lemma pids_del_abs:
  "map_option abs_pids (inr_option (pids_del raw cur)) =
     (if raw = '''' then Some (abs_pids cur)
      else Option.bind (denoted_filter raw) (filter_minus (abs_pids cur)))"
proof (cases "parsePIDList raw")
  case (Inr r)
  with parsePIDList_abs [of raw, symmetric] show ?thesis
    by (cases r; cases cur; cases "snd cur") (auto simp: pids_del_def abs_pids_def foldl_removePID)
qed (use parsePIDList_abs [of raw, symmetric] in \<open>auto simp: pids_del_def\<close>)

lemma abs_pids_sort [simp]: "abs_pids (sort ps, a) = abs_pids (ps, a)"
  by (simp add: abs_pids_def)

text \<open>Parsed and updated lists are sorted, and a filter that passes everything holds no list.\<close>

lemma updated_pids_shape:
  assumes "updated_pids values (ps, a) = Inr (ps', a')" "a \<longrightarrow> ps = []"
  shows "sorted ps' \<and> (a' \<longrightarrow> ps' = [])"
proof -
  have set: "snd cur' \<longrightarrow> fst cur' = []"
    if "pids_set raw cur = Inr cur'" "snd cur \<longrightarrow> fst cur = []" for raw cur cur'
    using that parsePIDList_shape [of raw "fst cur'" "snd cur'"]
    by (auto simp: pids_set_def split: if_splits)
  have add: "snd cur' \<longrightarrow> fst cur' = []"
    if "pids_add raw cur = Inr cur'" "snd cur \<longrightarrow> fst cur = []" for raw cur cur'
    using that by (auto simp: pids_add_def split: if_splits sum.splits)
  have del: "snd cur' \<longrightarrow> fst cur' = []"
    if "pids_del raw cur = Inr cur'" "snd cur \<longrightarrow> fst cur = []" for raw cur cur'
    using that by (auto simp: pids_del_def split: if_splits sum.splits)
  obtain c1 c2 c3 where "pids_set (url_get values ''pids'') (ps, a) = Inr c1"
    "pids_add (url_get values ''addpids'') c1 = Inr c2"
    "pids_del (url_get values ''delpids'') c2 = Inr c3" "ps' = sort (fst c3)" "a' = snd c3"
    using assms(1) by (auto simp: updated_pids_def split: sum.splits)
  then show ?thesis using set add del assms(2) by (metis fst_conv snd_conv sort_key_simps(1) sorted_sort)
qed

text \<open>C28. \<open>UpdatePIDs\<close> implements the abstract filter: it replaces the filter by \<open>pids\<close>, adds
  \<open>addpids\<close>, then removes \<open>delpids\<close>, on every path, the failing ones included.\<close>

theorem updated_pids_refines:
  "map_option abs_pids (inr_option (updated_pids values cur)) =
     updated_filter (url_get values ''pids'') (url_get values ''addpids'')
       (url_get values ''delpids'') (abs_pids cur)"
proof (cases "pids_set (url_get values ''pids'') cur")
  case (Inl e)
  with pids_set_abs [of "url_get values ''pids''" cur, symmetric] show ?thesis
    by (simp add: updated_pids_def updated_filter_def)
next
  case s: (Inr cur1)
  show ?thesis
  proof (cases "pids_add (url_get values ''addpids'') cur1")
    case (Inl e)
    with s pids_set_abs [of "url_get values ''pids''" cur, symmetric]
      pids_add_abs [of "url_get values ''addpids''" cur1, symmetric] show ?thesis
      by (simp add: updated_pids_def updated_filter_def)
  next
    case (Inr cur2)
    with s pids_set_abs [of "url_get values ''pids''" cur, symmetric]
      pids_add_abs [of "url_get values ''addpids''" cur1, symmetric]
      pids_del_abs [of "url_get values ''delpids''" cur2, symmetric] show ?thesis
      by (cases "pids_del (url_get values ''delpids'') cur2")
        (auto simp: updated_pids_def updated_filter_def)
  qed
qed


lemma requestedPIDs_shape: "requestedPIDs q svc = Inr (pids, pids_all) \<Longrightarrow> pids_all \<longrightarrow> pids = []"
  by (auto simp: requestedPIDs_def Let_def dest: parsePIDList_shape split: option.splits if_splits)

end
