(* ===== verification/Scenarios.thy ===== *)
theory Scenarios
  imports Pids
begin

text \<open>
  The runtime scenarios of \<open>internal/lab/manager.go\<close>: their names and descriptions, the lookup, the
  targets they support, and timelines of scenario steps with their validation and the choice of
  the active step. A Go string constant is a \<open>definition\<close> of the same name.
\<close>

section \<open>Names\<close>

definition ScenarioNormal :: string where "ScenarioNormal = ''normal''"
definition ScenarioNoSignal :: string where "ScenarioNoSignal = ''no_signal''"
definition ScenarioBadM3U :: string where "ScenarioBadM3U = ''bad_m3u''"
definition ScenarioTunerBusy :: string where "ScenarioTunerBusy = ''tuner_busy''"
definition ScenarioTunerWedged :: string where "ScenarioTunerWedged = ''tuner_wedged''"
definition ScenarioRTPStop :: string where "ScenarioRTPStop = ''rtp_stop''"
definition ScenarioSlowRTSP :: string where "ScenarioSlowRTSP = ''slow_rtsp''"
definition ScenarioColdBoot :: string where "ScenarioColdBoot = ''cold_boot''"
definition ScenarioMalformedPSI :: string where "ScenarioMalformedPSI = ''malformed_psi''"
definition ScenarioRTPLoss :: string where "ScenarioRTPLoss = ''rtp_loss''"
definition ScenarioRTPJitter :: string where "ScenarioRTPJitter = ''rtp_jitter''"
definition ScenarioRTPBlackhole :: string where "ScenarioRTPBlackhole = ''rtp_blackhole''"
definition ScenarioDelayedPSI :: string where "ScenarioDelayedPSI = ''delayed_psi''"
definition ScenarioContinuityErrors :: string where "ScenarioContinuityErrors = ''cc_errors''"
definition ScenarioEPGGap :: string where "ScenarioEPGGap = ''epg_gap''"
definition ScenarioEPGMismatch :: string where "ScenarioEPGMismatch = ''epg_mismatch''"
definition ScenarioEPGStale :: string where "ScenarioEPGStale = ''epg_stale''"
definition ScenarioSignalDegraded :: string where "ScenarioSignalDegraded = ''signal_degraded''"
definition ScenarioLockLoss :: string where "ScenarioLockLoss = ''lock_loss''"
definition ScenarioSignalRecovery :: string where "ScenarioSignalRecovery = ''signal_recovery''"
definition ScenarioSlowLock :: string where "ScenarioSlowLock = ''slow_lock''"

lemmas scenario_names = ScenarioNormal_def ScenarioNoSignal_def ScenarioBadM3U_def
  ScenarioTunerBusy_def ScenarioTunerWedged_def ScenarioRTPStop_def ScenarioSlowRTSP_def
  ScenarioColdBoot_def ScenarioMalformedPSI_def ScenarioRTPLoss_def ScenarioRTPJitter_def
  ScenarioRTPBlackhole_def ScenarioDelayedPSI_def ScenarioContinuityErrors_def ScenarioEPGGap_def
  ScenarioEPGMismatch_def ScenarioEPGStale_def ScenarioSignalDegraded_def ScenarioLockLoss_def
  ScenarioSignalRecovery_def ScenarioSlowLock_def

section \<open>Records\<close>

record scenario_timeline_step =
  stAtMS :: int
  stName :: string
  stServiceID :: string
  stMuxID :: string
  stDurationMin :: int

record scenario_timeline_status =
  tsActive :: bool
  tsStepIndex :: nat
  tsElapsedMS :: int
  tsSteps :: "scenario_timeline_step list"

record scenario =
  scName :: string
  scDescription :: string
  scServiceID :: string
  scMuxID :: string
  scDurationMin :: int
  scTimeline :: "scenario_timeline_status option"

text \<open>The type \<open>scenarioTimeline\<close>, the running timeline.\<close>

record scenario_timeline =
  tlStartedAt :: time
  tlStepIndex :: nat
  tlSteps :: "scenario_timeline_step list"

section \<open>Lookup\<close>

definition plain_scenario :: "string \<Rightarrow> string \<Rightarrow> scenario" where
  "plain_scenario name desc =
     \<lparr>scName = name, scDescription = desc, scServiceID = '''', scMuxID = '''', scDurationMin = 0,
      scTimeline = None\<rparr>"

text \<open>The cases of the switch of \<open>scenarioByName\<close>.\<close>

definition scenario_cases :: "(string \<times> string) list" where
  "scenario_cases =
     [(ScenarioNoSignal,
       ''Reject valid RTSP SETUP requests with a simulated no-signal condition.''),
      (ScenarioBadM3U,
       ''Return deliberately malformed channel list content from /channels.m3u.''),
      (ScenarioTunerBusy,
       ''Reject valid RTSP SETUP requests with a simulated tuner-busy condition before allocation.''),
      (ScenarioTunerWedged,
       ''Reject valid RTSP SETUP requests with a wedged tuner fault until lab reset clears it.''),
      (ScenarioRTPStop,
       ''Start RTP after PLAY, then stop sending packets after a short deterministic burst.''),
      (ScenarioSlowRTSP,
       ''Delay RTSP responses to exercise client timeout and retry handling.''),
      (ScenarioColdBoot,
       ''Delay RTSP responses with a longer deterministic cold-boot style startup delay.''),
      (ScenarioMalformedPSI,
       ''Corrupt PAT/PMT table headers while preserving RTP and MPEG-TS packet framing.''),
      (ScenarioRTPLoss,
       ''Drop a deterministic subset of RTP packets after PLAY.''),
      (ScenarioRTPJitter,
       ''Apply deterministic timing jitter to RTP packet delivery.''),
      (ScenarioRTPBlackhole,
       ''Keep the RTSP session alive while dropping all RTP packets.''),
      (ScenarioDelayedPSI,
       ''Delay the initial RTP packets that carry the first PAT/PMT startup evidence.''),
      (ScenarioContinuityErrors,
       ''Corrupt MPEG-TS continuity counters while preserving packet framing.''),
      (ScenarioEPGGap,
       ''Remove a deterministic XMLTV programme window for EPG gap handling.''),
      (ScenarioEPGMismatch,
       ''Return XMLTV with one channel id that does not match the M3U tvg-id.''),
      (ScenarioEPGStale,
       ''Return XMLTV with a stale Last-Modified timestamp relative to the lab clock.''),
      (ScenarioSignalDegraded,
       ''Expose degraded deterministic RF frontend telemetry while allowing RTSP setup and playback.''),
      (ScenarioLockLoss,
       ''Expose lost-lock deterministic RF frontend telemetry while keeping lab control paths deterministic.''),
      (ScenarioSignalRecovery,
       ''Expose deterministic recovering-to-locked frontend telemetry after a missing-signal condition.''),
      (ScenarioSlowLock,
       ''Expose a slow frontend lock acquisition state and deterministic lock delay telemetry.'')]"

definition scenarioByName :: "string \<Rightarrow> scenario" where
  "scenarioByName name =
     (case map_of scenario_cases name of
        Some desc \<Rightarrow> plain_scenario name desc
      | None \<Rightarrow> plain_scenario ScenarioNormal ''Normal SAT>IP simulator behavior.'')"

definition lookupScenario :: "string \<Rightarrow> scenario option" where
  "lookupScenario name =
     (if name \<in> set [ScenarioNormal, ScenarioNoSignal, ScenarioBadM3U, ScenarioTunerBusy,
          ScenarioTunerWedged, ScenarioRTPStop, ScenarioSlowRTSP, ScenarioColdBoot,
          ScenarioMalformedPSI, ScenarioRTPLoss, ScenarioRTPJitter, ScenarioRTPBlackhole,
          ScenarioDelayedPSI, ScenarioContinuityErrors, ScenarioEPGGap, ScenarioEPGMismatch,
          ScenarioEPGStale, ScenarioSignalDegraded, ScenarioLockLoss, ScenarioSignalRecovery,
          ScenarioSlowLock]
      then Some (scenarioByName name) else None)"

definition SupportedScenarios :: "scenario list" where
  "SupportedScenarios = map scenarioByName
     [ScenarioNormal, ScenarioNoSignal, ScenarioBadM3U, ScenarioTunerBusy, ScenarioTunerWedged,
      ScenarioRTPStop, ScenarioSlowRTSP, ScenarioColdBoot, ScenarioMalformedPSI, ScenarioRTPLoss,
      ScenarioRTPJitter, ScenarioRTPBlackhole, ScenarioDelayedPSI, ScenarioContinuityErrors,
      ScenarioEPGGap, ScenarioEPGMismatch, ScenarioEPGStale, ScenarioSignalDegraded,
      ScenarioLockLoss, ScenarioSignalRecovery, ScenarioSlowLock]"

definition AppliesTo :: "scenario \<Rightarrow> string \<Rightarrow> string \<Rightarrow> bool" where
  "AppliesTo s service_id mux_id =
     (if scServiceID s \<noteq> '''' \<and> scServiceID s \<noteq> service_id then False
      else if scMuxID s \<noteq> '''' \<and> scMuxID s \<noteq> mux_id then False
      else True)"

definition SupportsTarget :: "scenario \<Rightarrow> bool" where
  "SupportsTarget s \<longleftrightarrow> scName s \<in> set
     [ScenarioNoSignal, ScenarioRTPStop, ScenarioMalformedPSI, ScenarioRTPLoss, ScenarioRTPJitter,
      ScenarioRTPBlackhole, ScenarioDelayedPSI, ScenarioContinuityErrors, ScenarioEPGGap,
      ScenarioSignalDegraded, ScenarioLockLoss, ScenarioSignalRecovery, ScenarioSlowLock]"

definition scenarioFromTimelineStep :: "scenario_timeline_step \<Rightarrow> scenario" where
  "scenarioFromTimelineStep step =
     (scenarioByName (stName step))\<lparr>scServiceID := stServiceID step, scMuxID := stMuxID step,
        scDurationMin := stDurationMin step\<rparr>"

section \<open>Timelines\<close>

text \<open>The checks of one round of the loop of \<open>validateTimelineSteps\<close>, in order.\<close>

definition timeline_step_error :: "catalog \<Rightarrow> int \<Rightarrow> scenario_timeline_step \<Rightarrow> lab_error option" where
  "timeline_step_error c previous step =
     (if stAtMS step < 0 \<or> stAtMS step \<le> previous then Some ErrScenarioTimeline
      else case lookupScenario (stName step) of
        None \<Rightarrow> Some ErrUnknownScenario
      | Some scenario \<Rightarrow>
          if scName scenario = ScenarioTunerWedged then Some ErrScenarioTimeline
          else if (stServiceID step \<noteq> '''' \<or> stMuxID step \<noteq> '''') \<and> \<not> SupportsTarget scenario
          then Some ErrScenarioTarget
          else if stDurationMin step > 0 \<and> scName scenario \<noteq> ScenarioEPGGap
          then Some ErrScenarioDuration
          else if stServiceID step \<noteq> '''' \<and> ServiceByID c (stServiceID step) = None
          then Some ErrServiceNotFound
          else if stMuxID step \<noteq> '''' \<and> MuxByID c (stMuxID step) = None
          then Some ErrInvalidTune
          else None)"

fun validate_steps :: "catalog \<Rightarrow> int \<Rightarrow> scenario_timeline_step list
    \<Rightarrow> lab_error + scenario_timeline_step list" where
  "validate_steps c previous [] = Inr []"
| "validate_steps c previous (step # rest) =
     (case timeline_step_error c previous step of
        Some e \<Rightarrow> Inl e
      | None \<Rightarrow>
          (case validate_steps c (stAtMS step) rest of
             Inl e \<Rightarrow> Inl e
           | Inr validated \<Rightarrow> Inr (step # validated)))"

definition validateTimelineSteps :: "catalog \<Rightarrow> scenario_timeline_step list
    \<Rightarrow> lab_error + scenario_timeline_step list" where
  "validateTimelineSteps c steps =
     (if steps = [] \<or> stAtMS (hd steps) \<noteq> 0 then Inl ErrScenarioTimeline
      else validate_steps c (-1) steps)"

text \<open>The loop of \<open>scenarioAtLocked\<close>: the last step that is due, or the index it started from.\<close>

fun due_step :: "int \<Rightarrow> nat \<Rightarrow> nat \<Rightarrow> scenario_timeline_step list \<Rightarrow> nat" where
  "due_step elapsed i idx [] = idx"
| "due_step elapsed i idx (step # rest) =
     due_step elapsed (Suc i) (if stAtMS step \<le> elapsed then i else idx) rest"

section \<open>Lemmas\<close>

lemma map_fst_scenario_cases:
  "map fst scenario_cases =
     [ScenarioNoSignal, ScenarioBadM3U, ScenarioTunerBusy, ScenarioTunerWedged,
      ScenarioRTPStop, ScenarioSlowRTSP, ScenarioColdBoot, ScenarioMalformedPSI, ScenarioRTPLoss,
      ScenarioRTPJitter, ScenarioRTPBlackhole, ScenarioDelayedPSI, ScenarioContinuityErrors,
      ScenarioEPGGap, ScenarioEPGMismatch, ScenarioEPGStale, ScenarioSignalDegraded,
      ScenarioLockLoss, ScenarioSignalRecovery, ScenarioSlowLock]"
  by (simp add: scenario_cases_def)

lemma scenario_cases_names:
  "lookupScenario name = None \<longleftrightarrow> map_of scenario_cases name = None \<and> name \<noteq> ScenarioNormal"
proof -
  have "map_of scenario_cases name = None \<longleftrightarrow> name \<notin> set (map fst scenario_cases)"
    by (simp add: map_of_eq_None_iff)
  then show ?thesis unfolding lookupScenario_def map_fst_scenario_cases by simp
qed

lemma scName_scenarioByName:
  "scName (scenarioByName name) =
     (if lookupScenario name = None then ScenarioNormal else name)"
  by (auto simp: scenarioByName_def scenario_cases_names plain_scenario_def split: option.splits)

lemma scenarioByName_untargeted [simp]:
  "scServiceID (scenarioByName name) = ''''" "scMuxID (scenarioByName name) = ''''"
  "scDurationMin (scenarioByName name) = 0" "scTimeline (scenarioByName name) = None"
  by (simp_all add: scenarioByName_def plain_scenario_def split: option.splits)

lemma lookupScenario_name: "lookupScenario name = Some s \<Longrightarrow> scName s = name"
  using scName_scenarioByName [of name] by (simp add: lookupScenario_def split: if_splits)

definition timeline_step_ok :: "catalog \<Rightarrow> scenario_timeline_step \<Rightarrow> bool" where
  "timeline_step_ok c step \<longleftrightarrow>
     (case lookupScenario (stName step) of
        None \<Rightarrow> False
      | Some s \<Rightarrow> stName step \<noteq> ScenarioTunerWedged \<and>
          (stServiceID step \<noteq> '''' \<or> stMuxID step \<noteq> '''' \<longrightarrow> SupportsTarget s) \<and>
          (stDurationMin step > 0 \<longrightarrow> stName step = ScenarioEPGGap) \<and>
          (stServiceID step \<noteq> '''' \<longrightarrow> ServiceByID c (stServiceID step) \<noteq> None) \<and>
          (stMuxID step \<noteq> '''' \<longrightarrow> MuxByID c (stMuxID step) \<noteq> None))"

lemma timeline_step_error_None:
  "timeline_step_error c previous step = None \<longleftrightarrow>
     0 \<le> stAtMS step \<and> previous < stAtMS step \<and> timeline_step_ok c step"
  by (auto simp: timeline_step_error_def timeline_step_ok_def dest: lookupScenario_name
      split: option.splits)

lemma validate_steps_Inr:
  "validate_steps c previous steps = Inr v \<longleftrightarrow>
     v = steps \<and> (\<forall>step\<in>set steps. 0 \<le> stAtMS step \<and> previous < stAtMS step \<and>
       timeline_step_ok c step) \<and> sorted_wrt (<) (map stAtMS steps)"
proof (induction steps arbitrary: previous v)
  case Nil
  then show ?case by auto
next
  case (Cons step rest)
  show ?case
  proof (cases "timeline_step_error c previous step")
    case None
    then have ok: "0 \<le> stAtMS step" "previous < stAtMS step" "timeline_step_ok c step"
      by (simp_all add: timeline_step_error_None)
    have "validate_steps c previous (step # rest) = Inr v \<longleftrightarrow>
        (\<exists>w. validate_steps c (stAtMS step) rest = Inr w \<and> v = step # w)"
      using None by (auto split: sum.splits)
    also have "\<dots> \<longleftrightarrow> v = step # rest \<and> (\<forall>s\<in>set rest. 0 \<le> stAtMS s \<and>
        stAtMS step < stAtMS s \<and> timeline_step_ok c s) \<and> sorted_wrt (<) (map stAtMS rest)"
      unfolding Cons.IH by blast
    finally show ?thesis using ok by force
  next
    case (Some e)
    then show ?thesis using timeline_step_error_None [of c previous step] by auto
  qed
qed

lemma validateTimelineSteps_inr:
  "validateTimelineSteps c steps = Inr v \<longleftrightarrow>
     v = steps \<and> steps \<noteq> [] \<and> stAtMS (hd steps) = 0 \<and> sorted_wrt (<) (map stAtMS steps) \<and>
     (\<forall>step\<in>set steps. timeline_step_ok c step)"
proof (cases steps)
  case (Cons step rest)
  show ?thesis
    by (auto simp: validateTimelineSteps_def validate_steps_Inr Cons simp del: validate_steps.simps)
qed (simp add: validateTimelineSteps_def)

text \<open>\<open>validateTimelineSteps\<close> accepts exactly the timelines that start at 0 ms, have strictly
  increasing times, and whose every step names a supported scenario other than \<open>tuner_wedged\<close>, with
  a target only where the scenario takes one, a duration only for \<open>epg_gap\<close>, and a service and a
  mux that the catalog has; it returns them unchanged.\<close>

theorem validateTimelineSteps_iff:
  "validateTimelineSteps c steps = Inr v \<longleftrightarrow>
     v = steps \<and> steps \<noteq> [] \<and> stAtMS (hd steps) = 0 \<and> sorted_wrt (<) (map stAtMS steps) \<and>
     list_all (timeline_step_ok c) steps"
  by (simp add: validateTimelineSteps_inr list_all_iff)

lemma due_step_append:
  "due_step elapsed i idx (xs @ ys) = due_step elapsed (i + length xs) (due_step elapsed i idx xs) ys"
  by (induction xs arbitrary: i idx) auto

lemma due_step_none: "\<forall>s\<in>set xs. elapsed < stAtMS s \<Longrightarrow> due_step elapsed i idx xs = idx"
  by (induction xs arbitrary: i) auto

lemma due_step_bound:
  "idx < n \<Longrightarrow> i + length xs \<le> n \<Longrightarrow> due_step elapsed i idx xs < n"
  by (induction xs arbitrary: i idx) auto

text \<open>In a timeline with increasing times the loop finds the one step whose interval holds the
  elapsed time, wherever it started.\<close>

lemma due_step_spec:
  assumes "sorted_wrt (<) (map stAtMS steps)" "j < length steps" "stAtMS (steps ! j) \<le> elapsed"
    "\<forall>k<length steps. j < k \<longrightarrow> elapsed < stAtMS (steps ! k)"
  shows "due_step elapsed 0 idx steps = j"
proof -
  have split: "steps = take j steps @ steps ! j # drop (Suc j) steps"
    using assms(2) by (simp add: id_take_nth_drop)
  have later: "\<forall>s\<in>set (drop (Suc j) steps). elapsed < stAtMS s"
    using assms(4) by (auto simp: in_set_conv_nth)
  have "due_step elapsed 0 idx steps =
      due_step elapsed (Suc j) j (drop (Suc j) steps)"
    using assms(2,3) by (subst split, subst due_step_append) simp
  then show ?thesis using later by (simp add: due_step_none)
qed

lemma due_step_exists:
  assumes "steps \<noteq> []" "stAtMS (hd steps) = 0" "0 \<le> elapsed" "sorted_wrt (<) (map stAtMS steps)"
  obtains j where "j < length steps" "stAtMS (steps ! j) \<le> elapsed"
    "\<forall>k<length steps. j < k \<longrightarrow> elapsed < stAtMS (steps ! k)"
proof -
  define S where "S = {j. j < length steps \<and> stAtMS (steps ! j) \<le> elapsed}"
  have "0 \<in> S" using assms(1-3) by (simp add: S_def hd_conv_nth)
  moreover have fin: "finite S" by (simp add: S_def)
  ultimately have "Max S \<in> S" by (intro Max_in) auto
  moreover have "k \<le> Max S" if "k \<in> S" for k using fin that by simp
  ultimately show ?thesis
    by (intro that [of "Max S"]) (auto simp: S_def not_le [symmetric])
qed

end
