(* ===== verification/Epg.thy ===== *)
theory Epg
  imports TsPsi Scenarios "HOL-Library.Monad_Syntax"
begin

text \<open>
  The programme guide (\<open>internal/epg/epg.go\<close>): the lab clock, and the XMLTV document as data, whose
  text is in \<open>Xmltv\<close>. The time zone database is a
  parameter: \<open>berlin\<close> is what \<open>time.LoadLocation("Europe/Berlin")\<close> returns, \<open>None\<close> for its error.
  \<open>time.Parse\<close> with the RFC 3339 layout is defined here.
\<close>

section \<open>time.Parse(time.RFC3339, s)\<close>

definition digit_val :: "char \<Rightarrow> int option" where
  "digit_val c = (if is_digit c then Some (int (of_char c) - 48) else None)"

text \<open>One or two digits; exactly two when \<open>fixed\<close>.\<close>

definition get_num :: "bool \<Rightarrow> string \<Rightarrow> (int \<times> string) option" where
  "get_num fixed s =
     (case s of
        [] \<Rightarrow> None
      | a # s1 \<Rightarrow>
          (case digit_val a of
             None \<Rightarrow> None
           | Some x \<Rightarrow>
               (case s1 of
                  [] \<Rightarrow> if fixed then None else Some (x, s1)
                | b # s2 \<Rightarrow>
                    (case digit_val b of
                       None \<Rightarrow> if fixed then None else Some (x, s1)
                     | Some y \<Rightarrow> Some (10 * x + y, s2)))))"

definition expect :: "char \<Rightarrow> string \<Rightarrow> string option" where
  "expect c s = (case s of [] \<Rightarrow> None | x # rest \<Rightarrow> if x = c then Some rest else None)"

definition require_in :: "int \<Rightarrow> int \<Rightarrow> int \<Rightarrow> unit option" where
  "require_in lo hi x = (if lo \<le> x \<and> x \<le> hi then Some () else None)"

text \<open>A fraction of a second: a period or comma and digits, of which nine count.\<close>

definition get_fraction :: "string \<Rightarrow> int \<times> string" where
  "get_fraction s =
     (case s of
        c # d # rest \<Rightarrow>
          if (c = CHR ''.'' \<or> c = CHR '','') \<and> is_digit d then
            let ds = takeWhile is_digit (d # rest); used = take 9 ds
            in (int (the (digits_val 0 used)) * 10 ^ (9 - length used), dropWhile is_digit (d # rest))
          else (0, s)
      | _ \<Rightarrow> (0, s))"

text \<open>The offset in seconds: "Z", or a sign, two digits, a colon and two digits.\<close>

definition get_zone :: "string \<Rightarrow> (int \<times> string) option" where
  "get_zone s =
     (case s of
        [] \<Rightarrow> None
      | z # rest \<Rightarrow>
          if z = CHR ''Z'' then Some (0, rest)
          else do {
            (hh, s1) \<leftarrow> get_num True rest;
            s2 \<leftarrow> expect (CHR '':'') s1;
            (mm, s3) \<leftarrow> get_num True s2;
            require_in 0 24 hh;
            require_in 0 60 mm;
            let off = (hh * 60 + mm) * 60;
            if z = CHR ''+'' then Some (off, s3) else if z = CHR ''-'' then Some (- off, s3) else None
          })"

definition get_year :: "string \<Rightarrow> (int \<times> string) option" where
  "get_year s = do {
     (c, s1) \<leftarrow> get_num True s;
     (y, s2) \<leftarrow> get_num True s1;
     Some (100 * c + y, s2)
   }"

definition parse_rfc3339 :: "string \<Rightarrow> time option" where
  "parse_rfc3339 s = do {
     (y, s) \<leftarrow> get_year s;
     s \<leftarrow> expect (CHR ''-'') s;
     (mo, s) \<leftarrow> get_num True s;
     require_in 1 12 mo;
     s \<leftarrow> expect (CHR ''-'') s;
     (d, s) \<leftarrow> get_num True s;
     s \<leftarrow> expect (CHR ''T'') s;
     (h, s) \<leftarrow> get_num False s;
     require_in 0 23 h;
     s \<leftarrow> expect (CHR '':'') s;
     (mi, s) \<leftarrow> get_num True s;
     require_in 0 59 mi;
     s \<leftarrow> expect (CHR '':'') s;
     (se, s) \<leftarrow> get_num True s;
     require_in 0 59 se;
     (let (ns, s) = get_fraction s in do {
       (off, s) \<leftarrow> get_zone s;
       (if s \<noteq> [] then None else Some ());
       require_in 1 (month_lengths y ! nat (mo - 1)) d;
       Some ((days_before_year y + sum_list (take (nat (mo - 1)) (month_lengths y)) + d - 1) * day
         + h * hour + mi * minute + se * second + ns - off * second)
     })
   }"

section \<open>The lab clock\<close>

definition DefaultClock :: string where "DefaultClock = ''fixed:2026-03-29T01:30:00+01:00''"
definition timezone :: string where "timezone = ''Europe/Berlin''"

datatype clock_error = NoLocation | InvalidClock string | InvalidFixedClock

record lab_clock =
  clkMode :: string
  clkNow :: time
  clkTimezone :: string
  clkLocation :: location

definition ParseClock :: "location option \<Rightarrow> time \<Rightarrow> string \<Rightarrow> clock_error + lab_clock" where
  "ParseClock berlin wall raw =
     (case berlin of
        None \<Rightarrow> Inl NoLocation
      | Some loc \<Rightarrow>
          let raw = (if trim_space raw = [] then DefaultClock else raw) in
          if equal_fold raw ''real''
          then Inr \<lparr>clkMode = ''real'', clkNow = wall, clkTimezone = timezone, clkLocation = loc\<rparr>
          else if \<not> prefix ''fixed:'' raw then Inl (InvalidClock raw)
          else case parse_rfc3339 (drop 6 raw) of
                 None \<Rightarrow> Inl InvalidFixedClock
               | Some t \<Rightarrow> Inr \<lparr>clkMode = ''fixed'', clkNow = t, clkTimezone = timezone, clkLocation = loc\<rparr>)"

section \<open>The XMLTV document\<close>

record xmltv_channel =
  xcID :: string
  xcDisplayName :: string

record programme =
  pgStart :: string
  pgStop :: string
  pgChannel :: string
  pgTitleLang :: string
  pgTitle :: string
  pgDescLang :: string
  pgDesc :: string
  pgEpisodeSystem :: string
  pgEpisodeNum :: string

record xmltv =
  tvSourceInfoName :: string
  tvGeneratorInfoName :: string
  tvDate :: string
  tvChannels :: "xmltv_channel list"
  tvProgrammes :: "programme list"

text \<open>Format with "20060102150405 -0700".\<close>

definition format_zone :: "duration \<Rightarrow> string" where
  "format_zone off =
     (let zone = go_quot (go_quot off second) 60
      in (if zone < 0 then ''-'' else ''+'') @ pad_int 2 (\<bar>zone\<bar> div 60) @ pad_int 2 (\<bar>zone\<bar> mod 60))"

definition formatXMLTVTime :: "location \<Rightarrow> time \<Rightarrow> string" where
  "formatXMLTVTime loc t = format_stamp (t + loc t) @ '' '' @ format_zone (loc t)"

definition xmltvChannelID :: "service \<Rightarrow> scenario \<Rightarrow> string" where
  "xmltvChannelID svc sc =
     (if scName sc = ScenarioEPGMismatch \<and> svcID svc = ''zdf-hd'' then ''zdf-mismatch.invalid''
      else svcTvgID svc)"

definition density :: "string \<Rightarrow> duration" where
  "density serviceID =
     (if serviceID = ''zdf-hd'' then 30 * minute
      else if serviceID = ''arte-hd'' then 45 * minute
      else if serviceID = ''phoenix-hd'' then 90 * minute
      else if serviceID = ''3sat-hd'' then 2 * hour
      else hour)"

definition gapDurationMinutes :: "scenario \<Rightarrow> int" where
  "gapDurationMinutes sc = (if scDurationMin sc > 0 then scDurationMin sc else 60)"

definition render_programme :: "service \<Rightarrow> string \<Rightarrow> location \<Rightarrow> time \<Rightarrow> time \<Rightarrow> programme" where
  "render_programme svc channelID loc start stop =
     (let shown = start + loc start
      in \<lparr>pgStart = formatXMLTVTime loc start, pgStop = formatXMLTVTime loc stop, pgChannel = channelID,
          pgTitleLang = ''en'',
          pgTitle = svcName svc @ '' Lab Programme '' @ pad_int 2 (clock_hour shown) @ '':''
            @ pad_int 2 (clock_minute shown),
          pgDescLang = ''en'',
          pgDesc = ''Deterministic satip-lab EPG slot for '' @ svcName svc @ ''.'',
          pgEpisodeSystem = ''satip-lab'',
          pgEpisodeNum = channelID @ ''-'' @ format_stamp shown\<rparr>)"

lemma density_pos: "0 < density serviceID"
  by (simp add: density_def minute_def hour_def second_def millisecond_def)

function programmes_loop :: "service \<Rightarrow> string \<Rightarrow> lab_clock \<Rightarrow> bool \<Rightarrow> time \<Rightarrow> time \<Rightarrow> programme list" where
  "programmes_loop svc channelID clk gapped gapEnd start =
     (let step = density (svcID svc); end' = clkNow clk + 24 * hour in
      if start < end' then
        let stop = start + step;
            stop = (if stop > end' then end' else stop)
        in (if gapped \<and> \<not> start < clkNow clk \<and> start < gapEnd then []
            else [render_programme svc channelID (clkLocation clk) start stop])
           @ programmes_loop svc channelID clk gapped gapEnd (start + step)
      else [])"
  by auto
termination
  by (relation "measure (\<lambda>(svc, ch, clk, g, e, start). nat (clkNow clk + 24 * hour - start))")
    (auto simp: density_pos)

declare programmes_loop.simps [simp del]

definition programmesForService :: "catalog \<Rightarrow> service \<Rightarrow> string \<Rightarrow> lab_clock \<Rightarrow> scenario \<Rightarrow> programme list" where
  "programmesForService c svc channelID clk sc =
     (let mux_id = (case MuxByID c (svcMuxID svc) of Some x \<Rightarrow> mxID x | None \<Rightarrow> []);
          gapEnd = clkNow clk + wrap64 (gapDurationMinutes sc * minute);
          gapped = (scName sc = ScenarioEPGGap \<and> AppliesTo sc (svcID svc) mux_id)
      in programmes_loop svc channelID clk gapped gapEnd (clkNow clk))"

definition xmltv_document :: "catalog \<Rightarrow> lab_clock \<Rightarrow> scenario \<Rightarrow> xmltv \<times> time" where
  "xmltv_document c clk sc =
     (let lastModified = (if scName sc = ScenarioEPGStale then clkNow clk - 48 * hour else clkNow clk)
      in (\<lparr>tvSourceInfoName = ''satip-lab'', tvGeneratorInfoName = ''satip-lab'',
           tvDate = formatXMLTVTime (clkLocation clk) (clkNow clk),
           tvChannels = map (\<lambda>svc. \<lparr>xcID = xmltvChannelID svc sc, xcDisplayName = svcName svc\<rparr>) (catServices c),
           tvProgrammes = concat (map (\<lambda>svc. programmesForService c svc (xmltvChannelID svc sc) clk sc)
             (catServices c))\<rparr>, lastModified))"

section \<open>A day of programmes\<close>

definition slots_per_day :: "string \<Rightarrow> nat" where
  "slots_per_day serviceID = nat (24 * hour div density serviceID)"

lemma slots_fill_day: "int (slots_per_day serviceID) * density serviceID = 24 * hour"
  by (simp add: slots_per_day_def density_def minute_def hour_def second_def millisecond_def)

lemma programmes_loop_from:
  assumes "i \<le> slots_per_day (svcID svc)"
  shows "programmes_loop svc ch clk gapped gapEnd (clkNow clk + int i * density (svcID svc)) =
    map (\<lambda>i. render_programme svc ch (clkLocation clk) (clkNow clk + int i * density (svcID svc))
        (clkNow clk + int (Suc i) * density (svcID svc)))
      (filter (\<lambda>i. \<not> (gapped \<and> clkNow clk + int i * density (svcID svc) < gapEnd)) [i..<slots_per_day (svcID svc)])"
  using assms
proof (induction "slots_per_day (svcID svc) - i" arbitrary: i)
  case 0
  let ?s = "density (svcID svc)"
  have "i = slots_per_day (svcID svc)" using 0 by simp
  then have "clkNow clk + int i * ?s = clkNow clk + 24 * hour" using slots_fill_day [of "svcID svc"] by simp
  then show ?case using \<open>i = _\<close> by (subst programmes_loop.simps) (simp add: Let_def)
next
  case (Suc n)
  let ?s = "density (svcID svc)"
  have less: "i < slots_per_day (svcID svc)" using Suc.hyps(2) by simp
  then have "int (Suc i) * ?s \<le> int (slots_per_day (svcID svc)) * ?s"
    using density_pos [of "svcID svc"] by (intro mult_right_mono) auto
  then have end_le: "int (Suc i) * ?s \<le> 24 * hour" by (simp only: slots_fill_day)
  then have start_less: "int i * ?s < 24 * hour" using density_pos [of "svcID svc"] by (simp add: ring_distribs)
  have nn: "\<not> int i * ?s < 0" using density_pos [of "svcID svc"] by (simp add: not_less)
  have step: "clkNow clk + int i * ?s + ?s = clkNow clk + int (Suc i) * ?s" by (simp add: ring_distribs)
  have IH: "programmes_loop svc ch clk gapped gapEnd (clkNow clk + int (Suc i) * ?s) =
    map (\<lambda>i. render_programme svc ch (clkLocation clk) (clkNow clk + int i * ?s) (clkNow clk + int (Suc i) * ?s))
      (filter (\<lambda>i. \<not> (gapped \<and> clkNow clk + int i * ?s < gapEnd)) [Suc i..<slots_per_day (svcID svc)])"
    using Suc.hyps less by (intro Suc.hyps(1)) auto
  show ?case
    using end_le start_less nn less
    by (subst programmes_loop.simps)
      (simp add: Let_def step IH upt_conv_Cons not_less del: of_nat_Suc upt_Suc)
qed

text \<open>C37. The guide of a service is a grid over the 24 hours from the lab clock: one programme per slot
  of the service's length, each starting when the one before it stops, the last one stopping at the end
  of the day, less the slots that start within the gap when an \<open>epg_gap\<close> scenario is aimed at the
  service. The slots are those of the EIT events: both packages use the same lengths, and the guide's
  default clock is the instant of the EIT's default clock.\<close>

theorem programmes_grid:
  "programmesForService c svc ch clk sc =
     (let step = density (svcID svc);
          gap = (if scName sc = ScenarioEPGGap \<and> AppliesTo sc (svcID svc)
                    (case MuxByID c (svcMuxID svc) of Some x \<Rightarrow> mxID x | None \<Rightarrow> [])
                 then wrap64 (gapDurationMinutes sc * minute) else 0)
      in map (\<lambda>i. render_programme svc ch (clkLocation clk) (clkNow clk + int i * step)
             (clkNow clk + int (Suc i) * step))
           (filter (\<lambda>i. gap \<le> int i * step) [0..<nat (24 * hour div step)])) \<and>
   int (nat (24 * hour div density (svcID svc))) * density (svcID svc) = 24 * hour \<and>
   density = densityForSyntheticService \<and>
   map_option (\<lambda>clk. clkNow clk)
     (case ParseClock (Some berlin) wall [] of Inl e \<Rightarrow> None | Inr clk \<Rightarrow> Some clk) = Some defaultEITNow"
proof (intro conjI)
  let ?s = "density (svcID svc)"
  have nn: "0 \<le> int i * ?s" for i using density_pos [of "svcID svc"] by simp
  show "programmesForService c svc ch clk sc =
     (let step = ?s;
          gap = (if scName sc = ScenarioEPGGap \<and> AppliesTo sc (svcID svc)
                    (case MuxByID c (svcMuxID svc) of Some x \<Rightarrow> mxID x | None \<Rightarrow> [])
                 then wrap64 (gapDurationMinutes sc * minute) else 0)
      in map (\<lambda>i. render_programme svc ch (clkLocation clk) (clkNow clk + int i * step)
             (clkNow clk + int (Suc i) * step))
           (filter (\<lambda>i. gap \<le> int i * step) [0..<nat (24 * hour div step)]))"
    using programmes_loop_from [of 0 svc ch clk] nn
    by (auto simp: programmesForService_def Let_def slots_per_day_def not_less intro!: filter_cong arg_cong2 [of _ _ _ _ map])
  show "int (nat (24 * hour div ?s)) * ?s = 24 * hour"
    using slots_fill_day [of "svcID svc"] by (simp add: slots_per_day_def)
  show "density = densityForSyntheticService"
    by (simp add: fun_eq_iff density_def densityForSyntheticService_def)
  have "parse_rfc3339 (drop 6 DefaultClock) = Some defaultEITNow" by code_simp
  moreover have "prefix ''fixed:'' DefaultClock" "\<not> equal_fold DefaultClock ''real''" by code_simp+
  ultimately show "map_option (\<lambda>clk. clkNow clk)
     (case ParseClock (Some berlin) wall [] of Inl e \<Rightarrow> None | Inr clk \<Rightarrow> Some clk) = Some defaultEITNow"
    by (simp add: ParseClock_def trim_space_def)
qed

end
