(* ===== verification/Tuners.thy ===== *)
theory Tuners
  imports Scenarios
begin

text \<open>
  Sessions, tuners and their RF frontends (\<open>internal/lab/manager.go\<close>): the records, the frontend
  readings of each lifecycle phase and scenario, and the recomputation of a tuner's frontend from
  the sessions on it, the scenario and the timeline. Floating-point telemetry is modelled by the
  rational number written in the source. A \<open>*time.Time\<close> is an option.
\<close>

section \<open>Records\<close>

record session =
  sesID :: string
  sesState :: string
  sesTunerID :: int
  sesServiceID :: string
  sesService :: string
  sesMuxID :: string
  sesPIDs :: "int list"
  sesPIDsAll :: bool
  sesClient :: string
  sesCreatedAt :: time
  sesUpdatedAt :: time
  sesRTSPSetupAcceptedAt :: "time option"
  sesRTSPPlayAcceptedAt :: "time option"
  sesFirstRTPSentAt :: "time option"
  sesLastRTPSentAt :: "time option"
  sesRTPPacketCount :: int
  sesRTPByteCount :: int
  sesRTPTransport :: string
  sesRTPDestination :: string
  sesRTPPort :: int
  sesRTCPPort :: int
  sesRTPChannel :: "int option"
  sesRTCPChannel :: "int option"

record tuner_frontend =
  feState :: string
  feSignalStrength :: int
  feSNRDB :: rat
  feBER :: rat
  fePER :: rat
  feLockMS :: int
  feLastLockChange :: "time option"

record tuner =
  tunID :: int
  tunState :: string
  tunMuxID :: string
  tunSessions :: "string list"
  tunFrontend :: tuner_frontend
  tunTuneStartedAt :: time

section \<open>Frontend readings\<close>

definition FrontendIdle :: string where "FrontendIdle = ''idle''"
definition FrontendTuning :: string where "FrontendTuning = ''tuning''"
definition FrontendLocked :: string where "FrontendLocked = ''locked''"
definition FrontendDegraded :: string where "FrontendDegraded = ''degraded''"
definition FrontendLost :: string where "FrontendLost = ''lost''"
definition FrontendRecovering :: string where "FrontendRecovering = ''recovering''"

lemmas frontend_names = FrontendIdle_def FrontendTuning_def FrontendLocked_def
  FrontendDegraded_def FrontendLost_def FrontendRecovering_def

definition defaultLockMS :: int where
  "defaultLockMS = 250"

definition defaultLockDuration :: duration where
  "defaultLockDuration = defaultLockMS * millisecond"

definition idleFrontend :: tuner_frontend where
  "idleFrontend = \<lparr>feState = FrontendIdle, feSignalStrength = 0, feSNRDB = 0, feBER = 0,
     fePER = 0, feLockMS = 0, feLastLockChange = None\<rparr>"

definition lockedFrontend :: "time \<Rightarrow> tuner_frontend" where
  "lockedFrontend now = \<lparr>feState = FrontendLocked, feSignalStrength = 88, feSNRDB = 135 / 10,
     feBER = 0, fePER = 0, feLockMS = defaultLockMS, feLastLockChange = Some now\<rparr>"

definition tuningFrontend :: "time \<Rightarrow> tuner_frontend" where
  "tuningFrontend startedAt = \<lparr>feState = FrontendTuning, feSignalStrength = 55, feSNRDB = 8,
     feBER = 1 / 10000, fePER = 1 / 100, feLockMS = defaultLockMS, feLastLockChange = Some startedAt\<rparr>"

definition recoveringFrontend :: "time \<Rightarrow> tuner_frontend" where
  "recoveringFrontend startedAt = \<lparr>feState = FrontendRecovering, feSignalStrength = 65,
     feSNRDB = 95 / 10, feBER = 5 / 100000, fePER = 5 / 1000, feLockMS = defaultLockMS,
     feLastLockChange = Some startedAt\<rparr>"

definition signalRecoveryFrontend :: "time \<Rightarrow> time \<Rightarrow> tuner_frontend" where
  "signalRecoveryFrontend startedAt now =
     (if is_zero_time startedAt then recoveringFrontend now
      else
        let recoveredAt = startedAt + defaultLockDuration
        in if now < recoveredAt then recoveringFrontend startedAt else lockedFrontend recoveredAt)"

definition lifecycleFrontend :: "time \<Rightarrow> time \<Rightarrow> tuner_frontend" where
  "lifecycleFrontend tuneStartedAt now =
     (if is_zero_time tuneStartedAt then lockedFrontend now
      else
        let lockAt = tuneStartedAt + defaultLockDuration
        in if now < lockAt then tuningFrontend tuneStartedAt else lockedFrontend lockAt)"

definition frontendForScenario :: "scenario \<Rightarrow> service \<Rightarrow> mux \<Rightarrow> time \<Rightarrow> tuner_frontend option" where
  "frontendForScenario scenario svc mux now =
     (if \<not> AppliesTo scenario (svcID svc) (mxID mux) then None
      else if scName scenario = ScenarioSignalDegraded then
        Some \<lparr>feState = FrontendDegraded, feSignalStrength = 42, feSNRDB = 65 / 10,
          feBER = 25 / 100000, fePER = 2 / 100, feLockMS = defaultLockMS, feLastLockChange = Some now\<rparr>
      else if scName scenario = ScenarioLockLoss then
        Some \<lparr>feState = FrontendLost, feSignalStrength = 0, feSNRDB = 0, feBER = 1, fePER = 1,
          feLockMS = defaultLockMS, feLastLockChange = Some now\<rparr>
      else if scName scenario = ScenarioSlowLock then
        Some \<lparr>feState = FrontendTuning, feSignalStrength = 55, feSNRDB = 8, feBER = 1 / 10000,
          fePER = 1 / 100, feLockMS = 1200, feLastLockChange = Some now\<rparr>
      else None)"

section \<open>Recomputing a frontend\<close>

text \<open>The three lookups of the loops over a tuner's sessions; \<open>None\<close> is their \<open>continue\<close>.\<close>

definition session_target :: "catalog \<Rightarrow> (string \<rightharpoonup> session) \<Rightarrow> string \<Rightarrow> (service \<times> mux) option" where
  "session_target c sessions sessionID =
     (case sessions sessionID of None \<Rightarrow> None
      | Some ses \<Rightarrow>
          (case ServiceByID c (sesServiceID ses) of None \<Rightarrow> None
           | Some svc \<Rightarrow>
               (case MuxByID c (sesMuxID ses) of None \<Rightarrow> None
                | Some mux \<Rightarrow> Some (svc, mux))))"

fun recovery_loop :: "catalog \<Rightarrow> (string \<rightharpoonup> session) \<Rightarrow> scenario \<Rightarrow> time \<Rightarrow> time \<Rightarrow> string list
    \<Rightarrow> tuner_frontend option" where
  "recovery_loop c sessions previousScenario recoveryStartedAt now [] = None"
| "recovery_loop c sessions previousScenario recoveryStartedAt now (sessionID # rest) =
     (case session_target c sessions sessionID of
        None \<Rightarrow> recovery_loop c sessions previousScenario recoveryStartedAt now rest
      | Some (svc, mux) \<Rightarrow>
          if AppliesTo previousScenario (svcID svc) (mxID mux) then
            let recoveredAt = recoveryStartedAt + defaultLockDuration
            in if now < recoveredAt then Some (recoveringFrontend recoveryStartedAt)
               else Some (lockedFrontend recoveredAt)
          else recovery_loop c sessions previousScenario recoveryStartedAt now rest)"

definition timelineRecoveryFrontend :: "catalog \<Rightarrow> (string \<rightharpoonup> session) \<Rightarrow> scenario_timeline option
    \<Rightarrow> tuner \<Rightarrow> time \<Rightarrow> tuner_frontend option" where
  "timelineRecoveryFrontend c sessions timeline tun now =
     (case timeline of None \<Rightarrow> None
      | Some tml \<Rightarrow>
          if tlStepIndex tml = 0 then None
          else
            let current = tlSteps tml ! tlStepIndex tml;
                previous = tlSteps tml ! (tlStepIndex tml - 1)
            in if (stName current \<noteq> ScenarioNormal \<and> stName current \<noteq> ScenarioSignalRecovery)
                  \<or> stName previous \<noteq> ScenarioLockLoss then None
               else
                 let recoveryStartedAt = tlStartedAt tml + stAtMS current * millisecond
                 in if now < recoveryStartedAt then None
                    else recovery_loop c sessions (scenarioFromTimelineStep previous)
                           recoveryStartedAt now (tunSessions tun))"

text \<open>The loop of \<open>recomputeTunerFrontendLocked\<close> over the sessions, with its two \<open>break\<close>s.\<close>

fun frontend_loop :: "catalog \<Rightarrow> (string \<rightharpoonup> session) \<Rightarrow> scenario \<Rightarrow> time \<Rightarrow> bool \<Rightarrow> time
    \<Rightarrow> tuner_frontend \<Rightarrow> string list \<Rightarrow> tuner_frontend" where
  "frontend_loop c sessions scenario changedAt timelineRecovery now frontend [] = frontend"
| "frontend_loop c sessions scenario changedAt timelineRecovery now frontend (sessionID # rest) =
     (case session_target c sessions sessionID of
        None \<Rightarrow> frontend_loop c sessions scenario changedAt timelineRecovery now frontend rest
      | Some (svc, mux) \<Rightarrow>
          if \<not> timelineRecovery \<and> scName scenario = ScenarioSignalRecovery
             \<and> AppliesTo scenario (svcID svc) (mxID mux)
          then signalRecoveryFrontend changedAt now
          else case frontendForScenario scenario svc mux now of
                 Some scenarioFrontend \<Rightarrow> scenarioFrontend
               | None \<Rightarrow> frontend_loop c sessions scenario changedAt timelineRecovery now frontend rest)"

definition recomputed_frontend :: "catalog \<Rightarrow> (string \<rightharpoonup> session) \<Rightarrow> scenario \<Rightarrow> time
    \<Rightarrow> scenario_timeline option \<Rightarrow> tuner \<Rightarrow> time \<Rightarrow> tuner_frontend" where
  "recomputed_frontend c sessions scenario changedAt timeline tun now =
     (if tunState tun = ''idle'' \<or> tunSessions tun = [] then idleFrontend
      else
        let recovery = timelineRecoveryFrontend c sessions timeline tun now;
            frontend = (case recovery of Some f \<Rightarrow> f
                        | None \<Rightarrow> lifecycleFrontend (tunTuneStartedAt tun) now)
        in frontend_loop c sessions scenario changedAt (recovery \<noteq> None) now frontend
             (tunSessions tun))"

text \<open>Go code that changes the first element of the tuner slice with a given id.\<close>

fun update_tuner :: "int \<Rightarrow> (tuner \<Rightarrow> tuner) \<Rightarrow> tuner list \<Rightarrow> tuner list" where
  "update_tuner i f [] = []"
| "update_tuner i f (tun # tuns) =
     (if tunID tun \<noteq> i then tun # update_tuner i f tuns else f tun # tuns)"

section \<open>Lemmas\<close>

lemma update_tuner_map:
  "distinct (map tunID tuns) \<Longrightarrow>
     update_tuner i f tuns = map (\<lambda>t. if tunID t = i then f t else t) tuns"
proof (induction tuns)
  case (Cons t ts)
  have "tunID s \<noteq> tunID t" if "s \<in> set ts" for s
    using Cons.prems that by (metis distinct.simps(2) image_eqI list.simps(9) set_map)
  then have "map (\<lambda>s. if tunID s = tunID t then f s else s) ts = ts"
    by (intro map_idI) simp
  then show ?case using Cons by auto
qed simp

lemma map_tunID_update [simp]:
  "(\<And>t. tunID (f t) = tunID t) \<Longrightarrow> map tunID (update_tuner i f tuns) = map tunID tuns"
  by (induction tuns) auto

lemma length_update_tuner [simp]: "length (update_tuner i f tuns) = length tuns"
  by (induction tuns) auto

lemma frontend_state_range:
  "feState (recomputed_frontend c sessions scenario changedAt timeline tun now) \<in>
     {FrontendIdle, FrontendTuning, FrontendLocked, FrontendDegraded, FrontendLost,
      FrontendRecovering}"
proof -
  have rec: "feState f \<in> {FrontendRecovering, FrontendLocked}"
    if "recovery_loop c sessions p r now ids = Some f" for p r ids f
    using that
    by (induction ids) (auto simp: Let_def lockedFrontend_def recoveringFrontend_def
        split: option.splits if_splits)
  have life: "feState (lifecycleFrontend s now) \<in> {FrontendTuning, FrontendLocked}" for s
    by (simp add: lifecycleFrontend_def Let_def lockedFrontend_def tuningFrontend_def)
  have scen: "feState f \<in> {FrontendDegraded, FrontendLost, FrontendTuning}"
    if "frontendForScenario scenario svc mux now = Some f" for svc mux f
    using that by (auto simp: frontendForScenario_def split: if_splits)
  have sig: "feState (signalRecoveryFrontend changedAt now) \<in> {FrontendRecovering, FrontendLocked}"
    by (simp add: signalRecoveryFrontend_def Let_def lockedFrontend_def recoveringFrontend_def)
  have loop: "feState (frontend_loop c sessions scenario changedAt b now f ids) \<in>
      {feState f, FrontendDegraded, FrontendLost, FrontendTuning, FrontendRecovering, FrontendLocked}"
    for b f ids
    using sig scen by (induction ids) (auto split: option.splits)
  show ?thesis
  proof (cases "timelineRecoveryFrontend c sessions timeline tun now")
    case None
    then show ?thesis
      using life [of "tunTuneStartedAt tun"]
        loop [of False "lifecycleFrontend (tunTuneStartedAt tun) now" "tunSessions tun"]
      by (auto simp: recomputed_frontend_def idleFrontend_def)
  next
    case (Some f)
    then have "feState f \<in> {FrontendRecovering, FrontendLocked}"
      by (auto simp: timelineRecoveryFrontend_def Let_def dest: rec split: option.splits if_splits)
    then show ?thesis using Some loop [of True f "tunSessions tun"]
      by (auto simp: recomputed_frontend_def idleFrontend_def)
  qed
qed

lemma idle_recomputed:
  "tunState tun = ''idle'' \<Longrightarrow> recomputed_frontend c sessions scenario changedAt timeline tun now = idleFrontend"
  by (simp add: recomputed_frontend_def)

text \<open>A scenario that applies to nobody on the tuner leaves the lifecycle reading.\<close>

lemma frontend_loop_plain:
  assumes "\<forall>sid\<in>set ids. case session_target c sessions sid of None \<Rightarrow> True
    | Some (svc, mux) \<Rightarrow> \<not> AppliesTo scenario (svcID svc) (mxID mux)"
  shows "frontend_loop c sessions scenario changedAt b now f ids = f"
  using assms by (induction ids) (auto simp: frontendForScenario_def split: option.splits)

end
