(* ===== verification/Manager.thy ===== *)
theory Manager
  imports Tuners
begin

text \<open>
  The lab manager (\<open>internal/lab/manager.go\<close>): its state and one function for each method. Every
  method runs under the manager's mutex, so a method is one step from state to state. Each call of
  \<open>time.Now()\<close> takes the next reading of the clock, which is part of the state (\<open>mClock\<close>, and the
  number of readings taken, \<open>mReads\<close>). Where the code ranges over the session map, the order in
  which the runtime yields the keys is an argument.
\<close>

section \<open>State\<close>

record event =
  evAt :: time
  evType :: string
  evSessionID :: string
  evTunerID :: int
  evServiceID :: string
  evMuxID :: string
  evMessage :: string

record setup_result =
  srSession :: session
  srService :: service
  srMux :: mux
  srTunerID :: int

record status =
  statTuners :: "tuner list"
  statSessions :: "session list"
  statEvents :: "event list"

record manager =
  mCatalog :: catalog
  mTuners :: "tuner list"
  mSessions :: "string \<rightharpoonup> session"
  mEvents :: "event list"
  mScenario :: scenario
  mScenarioChangedAt :: time
  mTimeline :: "scenario_timeline option"
  mClock :: "nat \<Rightarrow> time"
  mReads :: nat

definition time_now :: "manager \<Rightarrow> time \<times> manager" where
  "time_now m = (mClock m (mReads m), m\<lparr>mReads := Suc (mReads m)\<rparr>)"

definition error_text :: "lab_error \<Rightarrow> string" where
  "error_text e = (case e of
     ErrInvalidTune \<Rightarrow> ''invalid tune''
   | ErrServiceNotFound \<Rightarrow> ''service not found''
   | ErrNoTunerAvailable \<Rightarrow> ''no tuner available''
   | ErrSessionNotFound \<Rightarrow> ''session not found''
   | ErrUnknownScenario \<Rightarrow> ''unknown scenario''
   | ErrScenarioTarget \<Rightarrow> ''scenario does not support service or mux targets''
   | ErrScenarioDuration \<Rightarrow> ''scenario does not support duration_min''
   | ErrScenarioTimeline \<Rightarrow> ''invalid scenario timeline''
   | ErrNoSignal \<Rightarrow> ''no signal''
   | ErrTunerWedged \<Rightarrow> ''tuner wedged'')"

definition zero_service :: service where
  "zero_service = \<lparr>svcID = '''', svcNumber = 0, svcName = '''', svcGroup = '''', svcTvgID = '''',
     svcMuxID = '''', svcServiceID = 0, svcPMTPID = 0, svcVideoPID = 0, svcAudioPID = 0\<rparr>"

definition zero_mux :: mux where
  "zero_mux = \<lparr>mxID = '''', mxSrc = 0, mxFrequency = 0, mxPolarization = '''', mxSymbolRate = 0,
     mxDelivery = ''''\<rparr>"

definition new_event :: "string \<Rightarrow> string \<Rightarrow> int \<Rightarrow> string \<Rightarrow> string \<Rightarrow> string \<Rightarrow> event" where
  "new_event ty sid tid svc mux msg =
     \<lparr>evAt = 0, evType = ty, evSessionID = sid, evTunerID = tid, evServiceID = svc, evMuxID = mux,
      evMessage = msg\<rparr>"

text \<open>An event that names a session with its tuner, service and mux.\<close>

definition session_event :: "string \<Rightarrow> string \<Rightarrow> session \<Rightarrow> string \<Rightarrow> event" where
  "session_event ty sessionID ses msg =
     new_event ty sessionID (sesTunerID ses) (sesServiceID ses) (sesMuxID ses) msg"

definition NewManager :: "catalog \<Rightarrow> int \<Rightarrow> (nat \<Rightarrow> time) \<Rightarrow> manager" where
  "NewManager c tunerCount clock =
     (let count = (if tunerCount \<le> 0 then 1 else tunerCount);
          tuners = map (\<lambda>i. \<lparr>tunID = int i + 1, tunState = ''idle'', tunMuxID = '''',
            tunSessions = [], tunFrontend = idleFrontend, tunTuneStartedAt = 0\<rparr>) [0..<nat count]
      in \<lparr>mCatalog = c, mTuners = tuners, mSessions = Map.empty, mEvents = [],
          mScenario = scenarioByName ScenarioNormal, mScenarioChangedAt = clock 0,
          mTimeline = None, mClock = clock, mReads = 1\<rparr>)"

section \<open>Events\<close>

definition recordLocked :: "event \<Rightarrow> manager \<Rightarrow> manager" where
  "recordLocked event m =
     (let (now, m) = time_now m;
          events = mEvents m @ [event\<lparr>evAt := now\<rparr>]
      in m\<lparr>mEvents := (if length events > 200 then drop (length events - 200) events else events)\<rparr>)"

section \<open>Frontends and scenarios\<close>

definition recomputeTunerFrontendLocked :: "int \<Rightarrow> time \<Rightarrow> manager \<Rightarrow> manager" where
  "recomputeTunerFrontendLocked tunerID now m =
     m\<lparr>mTuners := update_tuner tunerID
         (\<lambda>t. t\<lparr>tunFrontend := recomputed_frontend (mCatalog m) (mSessions m) (mScenario m)
                 (mScenarioChangedAt m) (mTimeline m) t now\<rparr>) (mTuners m)\<rparr>"

definition recomputeAllFrontendsLocked :: "time \<Rightarrow> manager \<Rightarrow> manager" where
  "recomputeAllFrontendsLocked now m =
     foldl (\<lambda>m t. recomputeTunerFrontendLocked (tunID t) now m) m (mTuners m)"

definition timeline_status :: "nat \<Rightarrow> int \<Rightarrow> scenario_timeline_step list \<Rightarrow> scenario_timeline_status" where
  "timeline_status stepIndex elapsedMS steps =
     \<lparr>tsActive = True, tsStepIndex = stepIndex, tsElapsedMS = elapsedMS, tsSteps = steps\<rparr>"

definition elapsed_ms :: "time \<Rightarrow> scenario_timeline \<Rightarrow> int" where
  "elapsed_ms now tml =
     (let elapsedMS = go_quot (time_sub now (tlStartedAt tml)) millisecond
      in if elapsedMS < 0 then 0 else elapsedMS)"

definition scenarioAtLocked :: "time \<Rightarrow> manager \<Rightarrow> scenario \<times> manager" where
  "scenarioAtLocked now m =
     (case mTimeline m of
        None \<Rightarrow> (mScenario m, m)
      | Some tml \<Rightarrow>
          let elapsedMS = elapsed_ms now tml;
              stepIndex = due_step elapsedMS 0 (tlStepIndex tml) (tlSteps tml);
              m1 = (if stepIndex \<noteq> tlStepIndex tml then
                      let m' = m\<lparr>mTimeline := Some (tml\<lparr>tlStepIndex := stepIndex\<rparr>),
                                 mScenario := scenarioFromTimelineStep (tlSteps tml ! stepIndex),
                                 mScenarioChangedAt := now\<rparr>;
                          m'' = recomputeAllFrontendsLocked now m'
                      in recordLocked (new_event ''scenario_timeline_step'' '''' 0 '''' ''''
                           (scName (mScenario m''))) m''
                    else m)
          in ((mScenario m1)\<lparr>scTimeline := Some (timeline_status stepIndex elapsedMS (tlSteps tml))\<rparr>,
              m1))"

definition ScenarioAt :: "time \<Rightarrow> manager \<Rightarrow> scenario \<times> manager" where
  "ScenarioAt now m = scenarioAtLocked now m"

definition Scenario :: "manager \<Rightarrow> scenario \<times> manager" where
  "Scenario m = (let (now, m) = time_now m in ScenarioAt now m)"

definition SetScenarioOptionsAt :: "string \<Rightarrow> string \<Rightarrow> string \<Rightarrow> int \<Rightarrow> time \<Rightarrow> manager
    \<Rightarrow> lab_error option \<times> manager" where
  "SetScenarioOptionsAt name serviceID mux_id durationMin now m =
     (case lookupScenario name of
        None \<Rightarrow> (Some ErrUnknownScenario, m)
      | Some scenario \<Rightarrow>
          if (serviceID \<noteq> '''' \<or> mux_id \<noteq> '''') \<and> \<not> SupportsTarget scenario
          then (Some ErrScenarioTarget, m)
          else if durationMin > 0 \<and> scName scenario \<noteq> ScenarioEPGGap
          then (Some ErrScenarioDuration, m)
          else if serviceID \<noteq> '''' \<and> ServiceByID (mCatalog m) serviceID = None
          then (Some ErrServiceNotFound, m)
          else if mux_id \<noteq> '''' \<and> MuxByID (mCatalog m) mux_id = None
          then (Some ErrInvalidTune, m)
          else
            let scenario = scenario\<lparr>scServiceID := serviceID, scMuxID := mux_id,
                  scDurationMin := durationMin\<rparr>;
                m1 = snd (scenarioAtLocked now m);
                m2 = m1\<lparr>mScenario := scenario, mScenarioChangedAt := now, mTimeline := None\<rparr>;
                m3 = recomputeAllFrontendsLocked now m2
            in (None, recordLocked (new_event ''scenario_changed'' '''' 0 '''' '''' (scName scenario)) m3))"

definition SetScenarioOptions :: "string \<Rightarrow> string \<Rightarrow> string \<Rightarrow> int \<Rightarrow> manager
    \<Rightarrow> lab_error option \<times> manager" where
  "SetScenarioOptions name serviceID mux_id durationMin m =
     (let (now, m) = time_now m in SetScenarioOptionsAt name serviceID mux_id durationMin now m)"

definition SetScenarioTarget :: "string \<Rightarrow> string \<Rightarrow> string \<Rightarrow> manager \<Rightarrow> lab_error option \<times> manager" where
  "SetScenarioTarget name serviceID mux_id m = SetScenarioOptions name serviceID mux_id 0 m"

definition SetScenario :: "string \<Rightarrow> manager \<Rightarrow> lab_error option \<times> manager" where
  "SetScenario name m = SetScenarioTarget name '''' '''' m"

definition SetScenarioTimelineAt :: "scenario_timeline_step list \<Rightarrow> time \<Rightarrow> manager
    \<Rightarrow> lab_error option \<times> manager" where
  "SetScenarioTimelineAt steps now m =
     (case validateTimelineSteps (mCatalog m) steps of
        Inl e \<Rightarrow> (Some e, m)
      | Inr validated \<Rightarrow>
          let first = (scenarioFromTimelineStep (hd validated))\<lparr>scTimeline :=
                Some (timeline_status 0 0 validated)\<rparr>;
              m1 = m\<lparr>mTimeline := Some \<lparr>tlStartedAt = now, tlStepIndex = 0, tlSteps = validated\<rparr>,
                     mScenario := first, mScenarioChangedAt := now\<rparr>;
              m2 = recomputeAllFrontendsLocked now m1
          in (None, recordLocked (new_event ''scenario_timeline_started'' '''' 0 '''' '''' (scName first)) m2))"

definition SetScenarioTimeline :: "scenario_timeline_step list \<Rightarrow> manager \<Rightarrow> lab_error option \<times> manager" where
  "SetScenarioTimeline steps m = (let (now, m) = time_now m in SetScenarioTimelineAt steps now m)"

section \<open>Tuners\<close>

fun tune_first_idle :: "string \<Rightarrow> time \<Rightarrow> tuner list \<Rightarrow> (int \<times> tuner list) option" where
  "tune_first_idle mux_id now [] = None"
| "tune_first_idle mux_id now (t # ts) =
     (if tunState t = ''idle'' then
        Some (tunID t, t\<lparr>tunState := ''tuned'', tunMuxID := mux_id, tunTuneStartedAt := now\<rparr> # ts)
      else map_option (\<lambda>(i, ts'). (i, t # ts')) (tune_first_idle mux_id now ts))"

definition allocateTunerLocked :: "string \<Rightarrow> time \<Rightarrow> manager \<Rightarrow> (lab_error + int) \<times> manager" where
  "allocateTunerLocked mux_id now m =
     (case find (\<lambda>t. tunState t = ''tuned'' \<and> tunMuxID t = mux_id) (mTuners m) of
        Some t \<Rightarrow> (Inr (tunID t), m)
      | None \<Rightarrow>
          (case tune_first_idle mux_id now (mTuners m) of
             Some (i, ts) \<Rightarrow> (Inr i, m\<lparr>mTuners := ts\<rparr>)
           | None \<Rightarrow> (Inl ErrNoTunerAvailable, m)))"

definition addSessionToTunerLocked :: "int \<Rightarrow> string \<Rightarrow> manager \<Rightarrow> manager" where
  "addSessionToTunerLocked tunerID sessionID m =
     m\<lparr>mTuners := update_tuner tunerID (\<lambda>t. t\<lparr>tunSessions := tunSessions t @ [sessionID]\<rparr>) (mTuners m)\<rparr>"

definition removeSessionFromTunerLocked :: "int \<Rightarrow> string \<Rightarrow> manager \<Rightarrow> manager" where
  "removeSessionFromTunerLocked tunerID sessionID m =
     (case find (\<lambda>t. tunID t = tunerID) (mTuners m) of
        None \<Rightarrow> m
      | Some t \<Rightarrow>
          let sessions = filter (\<lambda>s. s \<noteq> sessionID) (tunSessions t) in
          if length sessions = 0 then
            m\<lparr>mTuners := update_tuner tunerID (\<lambda>t. t\<lparr>tunSessions := sessions, tunState := ''idle'',
                tunMuxID := '''', tunTuneStartedAt := 0, tunFrontend := idleFrontend\<rparr>) (mTuners m)\<rparr>
          else
            let m1 = m\<lparr>mTuners := update_tuner tunerID (\<lambda>t. t\<lparr>tunSessions := sessions\<rparr>) (mTuners m)\<rparr>;
                (now, m2) = time_now m1
            in recomputeTunerFrontendLocked tunerID now m2)"

section \<open>Session operations\<close>

definition new_session :: "string \<Rightarrow> int \<Rightarrow> service \<Rightarrow> mux \<Rightarrow> int list \<Rightarrow> bool \<Rightarrow> string \<Rightarrow> time \<Rightarrow> session" where
  "new_session sessionID tunerID svc mux pids pidsAll client now =
     \<lparr>sesID = sessionID, sesState = ''setup'', sesTunerID = tunerID, sesServiceID = svcID svc,
      sesService = svcName svc, sesMuxID = mxID mux, sesPIDs = pids, sesPIDsAll = pidsAll,
      sesClient = client, sesCreatedAt = now, sesUpdatedAt = now,
      sesRTSPSetupAcceptedAt = Some now, sesRTSPPlayAcceptedAt = None, sesFirstRTPSentAt = None,
      sesLastRTPSentAt = None, sesRTPPacketCount = 0, sesRTPByteCount = 0, sesRTPTransport = '''',
      sesRTPDestination = '''', sesRTPPort = 0, sesRTCPPort = 0, sesRTPChannel = None,
      sesRTCPChannel = None\<rparr>"

definition Setup :: "string \<Rightarrow> string \<Rightarrow> string \<Rightarrow> manager \<Rightarrow> (lab_error + setup_result) \<times> manager" where
  "Setup sessionID rawQuery client m =
     (case MatchService (mCatalog m) rawQuery of
        Inl e \<Rightarrow> (Inl e, recordLocked (new_event ''setup_rejected'' '''' 0 '''' '''' (error_text e)) m)
      | Inr (svc, mux) \<Rightarrow>
          let (now, m) = time_now m;
              (activeScenario, m) = scenarioAtLocked now m;
              reject = (\<lambda>ty e m. (Inl e, recordLocked
                (new_event ty '''' 0 (svcID svc) (mxID mux) (error_text e)) m))
          in if scName activeScenario = ScenarioNoSignal \<and> AppliesTo activeScenario (svcID svc) (mxID mux)
             then reject ''setup_rejected'' ErrNoSignal m
             else if scName activeScenario = ScenarioTunerWedged
             then reject ''tuner_wedged'' ErrTunerWedged m
             else if scName activeScenario = ScenarioTunerBusy
             then reject ''tuner_busy'' ErrNoTunerAvailable m
             else (case requestedPIDs rawQuery svc of
                 Inl e \<Rightarrow> reject ''setup_rejected'' ErrInvalidTune m
               | Inr (pids, pidsAll) \<Rightarrow>
                   (case allocateTunerLocked (mxID mux) now m of
                      (Inl e, m) \<Rightarrow> reject ''tuner_busy'' e m
                    | (Inr tunerID, m) \<Rightarrow>
                        let ses = new_session sessionID tunerID svc mux pids pidsAll client now;
                            m = m\<lparr>mSessions := (mSessions m)(sessionID \<mapsto> ses)\<rparr>;
                            m = addSessionToTunerLocked tunerID sessionID m;
                            m = recomputeTunerFrontendLocked tunerID now m;
                            m = recordLocked (new_event ''session_setup'' sessionID tunerID
                                  (svcID svc) (mxID mux) '''') m
                        in (Inr \<lparr>srSession = ses, srService = svc, srMux = mux, srTunerID = tunerID\<rparr>, m))))"

definition Play :: "string \<Rightarrow> manager \<Rightarrow> (lab_error + setup_result) \<times> manager" where
  "Play sessionID m =
     (case mSessions m sessionID of
        None \<Rightarrow> (Inl ErrSessionNotFound, m)
      | Some ses \<Rightarrow>
          let svc = (case ServiceByID (mCatalog m) (sesServiceID ses) of None \<Rightarrow> zero_service | Some s \<Rightarrow> s);
              mux = (case MuxByID (mCatalog m) (sesMuxID ses) of None \<Rightarrow> zero_mux | Some x \<Rightarrow> x);
              (now, m) = time_now m;
              ses = ses\<lparr>sesState := ''playing'', sesUpdatedAt := now, sesRTSPPlayAcceptedAt := Some now\<rparr>;
              m = m\<lparr>mSessions := (mSessions m)(sessionID \<mapsto> ses)\<rparr>;
              m = recordLocked (new_event ''play_started'' sessionID (sesTunerID ses) (svcID svc)
                    (mxID mux) '''') m
          in (Inr \<lparr>srSession = ses, srService = svc, srMux = mux, srTunerID = sesTunerID ses\<rparr>, m))"

definition portsFromDestination :: "string \<Rightarrow> int \<times> int" where
  "portsFromDestination destination =
     (case split_host_port destination of
        None \<Rightarrow> (0, 0)
      | Some (_, rawPort) \<Rightarrow>
          (case atoi rawPort of
             None \<Rightarrow> (0, 0)
           | Some rtpPort \<Rightarrow> if rtpPort \<le> 0 then (0, 0) else (rtpPort, wrap64 (rtpPort + 1))))"

definition SetRTPTransportDetails :: "string \<Rightarrow> string \<Rightarrow> string \<Rightarrow> int \<Rightarrow> int \<Rightarrow> int option \<Rightarrow> int option
    \<Rightarrow> manager \<Rightarrow> lab_error option \<times> manager" where
  "SetRTPTransportDetails sessionID transport destination rtpPort rtcpPort rtpChannel rtcpChannel m =
     (case mSessions m sessionID of
        None \<Rightarrow> (Some ErrSessionNotFound, m)
      | Some ses \<Rightarrow>
          (None, m\<lparr>mSessions := (mSessions m)(sessionID \<mapsto>
             ses\<lparr>sesRTPTransport := transport, sesRTPDestination := destination,
               sesRTPPort := rtpPort, sesRTCPPort := rtcpPort, sesRTPChannel := rtpChannel,
               sesRTCPChannel := rtcpChannel\<rparr>)\<rparr>))"

definition SetRTPTransport :: "string \<Rightarrow> string \<Rightarrow> string \<Rightarrow> manager \<Rightarrow> lab_error option \<times> manager" where
  "SetRTPTransport sessionID transport destination m =
     (let (rtpPort, rtcpPort) = portsFromDestination destination
      in SetRTPTransportDetails sessionID transport destination rtpPort rtcpPort None None m)"

definition RecordRTPSentAt :: "string \<Rightarrow> int \<Rightarrow> time \<Rightarrow> manager \<Rightarrow> lab_error option \<times> manager" where
  "RecordRTPSentAt sessionID byteCount sentAt m =
     (case mSessions m sessionID of
        None \<Rightarrow> (Some ErrSessionNotFound, m)
      | Some ses \<Rightarrow>
          let (ses, m) =
                (if sesFirstRTPSentAt ses = None
                 then (ses\<lparr>sesFirstRTPSentAt := Some sentAt\<rparr>,
                       recordLocked (session_event ''rtp_first_packet_sent'' sessionID ses '''') m)
                 else (ses, m));
              ses = ses\<lparr>sesLastRTPSentAt := Some sentAt,
                      sesRTPPacketCount := wrap64 (sesRTPPacketCount ses + 1),
                      sesRTPByteCount := wrap64 (sesRTPByteCount ses + byteCount)\<rparr>;
              m = (if go_rem (sesRTPPacketCount ses) 100 = 0
                   then recordLocked (session_event ''rtp_packet_progress'' sessionID ses
                          (itoa (sesRTPPacketCount ses))) m
                   else m)
          in (None, m\<lparr>mSessions := (mSessions m)(sessionID \<mapsto> ses)\<rparr>))"

definition RecordRTPSent :: "string \<Rightarrow> int \<Rightarrow> manager \<Rightarrow> lab_error option \<times> manager" where
  "RecordRTPSent sessionID byteCount m =
     (let (now, m) = time_now m in RecordRTPSentAt sessionID byteCount now m)"

definition Pause :: "string \<Rightarrow> manager \<Rightarrow> lab_error option \<times> manager" where
  "Pause sessionID m =
     (case mSessions m sessionID of
        None \<Rightarrow> (Some ErrSessionNotFound, m)
      | Some ses \<Rightarrow>
          let (now, m) = time_now m;
              ses = ses\<lparr>sesState := ''paused'', sesUpdatedAt := now\<rparr>;
              m = m\<lparr>mSessions := (mSessions m)(sessionID \<mapsto> ses)\<rparr>
          in (None, recordLocked (session_event ''play_paused'' sessionID ses '''') m))"

definition UpdatePIDs :: "string \<Rightarrow> string \<Rightarrow> manager \<Rightarrow> lab_error option \<times> manager" where
  "UpdatePIDs sessionID rawQuery m =
     (case parse_query rawQuery of
        None \<Rightarrow> (Some ErrInvalidTune, m)
      | Some values \<Rightarrow>
          if \<not> url_has values ''pids'' \<and> \<not> url_has values ''addpids'' \<and> \<not> url_has values ''delpids''
          then (None, m)
          else case mSessions m sessionID of
            None \<Rightarrow> (Some ErrSessionNotFound, m)
          | Some ses \<Rightarrow>
              (case updated_pids values (sesPIDs ses, sesPIDsAll ses) of
                 Inl e \<Rightarrow> (Some e, m)
               | Inr (next, pidsAll) \<Rightarrow>
                   let (now, m) = time_now m;
                       ses = ses\<lparr>sesPIDs := next, sesPIDsAll := pidsAll, sesUpdatedAt := now\<rparr>;
                       m = m\<lparr>mSessions := (mSessions m)(sessionID \<mapsto> ses)\<rparr>
                   in (None, recordLocked (session_event ''pids_updated'' sessionID ses '''') m)))"

definition Touch :: "string \<Rightarrow> time \<Rightarrow> manager \<Rightarrow> lab_error option \<times> manager" where
  "Touch sessionID now m =
     (case mSessions m sessionID of
        None \<Rightarrow> (Some ErrSessionNotFound, m)
      | Some ses \<Rightarrow> (None, m\<lparr>mSessions := (mSessions m)(sessionID \<mapsto> ses\<lparr>sesUpdatedAt := now\<rparr>)\<rparr>))"

text \<open>The three calls with which \<open>Teardown\<close> and \<open>ExpireSessions\<close> drop a session.\<close>

definition drop_session :: "string \<Rightarrow> string \<Rightarrow> session \<Rightarrow> manager \<Rightarrow> manager" where
  "drop_session eventType sessionID ses m =
     (let m = m\<lparr>mSessions := (mSessions m)(sessionID := None)\<rparr>;
          m = removeSessionFromTunerLocked (sesTunerID ses) sessionID m
      in recordLocked (session_event eventType sessionID ses '''') m)"

definition expire_one :: "time \<Rightarrow> duration \<Rightarrow> string list \<times> manager \<Rightarrow> string \<Rightarrow> string list \<times> manager" where
  "expire_one now timeout st sessionID =
     (case st of (expired, m) \<Rightarrow>
        (case mSessions m sessionID of
           None \<Rightarrow> (expired, m)
         | Some ses \<Rightarrow>
             if time_sub now (sesUpdatedAt ses) \<le> timeout then (expired, m)
             else (expired @ [sessionID], drop_session ''session_timeout'' sessionID ses m)))"

definition ExpireSessions :: "string list \<Rightarrow> time \<Rightarrow> duration \<Rightarrow> manager \<Rightarrow> string list \<times> manager" where
  "ExpireSessions order now timeout m =
     (if timeout \<le> 0 then ([], m)
      else case foldl (expire_one now timeout) ([], m) order of
        (expired, m) \<Rightarrow> (sort expired, m))"

definition Teardown :: "string \<Rightarrow> manager \<Rightarrow> manager" where
  "Teardown sessionID m =
     (case mSessions m sessionID of
        None \<Rightarrow> m
      | Some ses \<Rightarrow> drop_session ''session_closed'' sessionID ses m)"

section \<open>Status and reset\<close>

definition StatusAt :: "string list \<Rightarrow> time \<Rightarrow> manager \<Rightarrow> status \<times> manager" where
  "StatusAt order now m =
     (let m = snd (scenarioAtLocked now m);
          m = recomputeAllFrontendsLocked now m;
          sessions = sort_key sesID (List.map_filter (mSessions m) order)
      in (\<lparr>statTuners = mTuners m, statSessions = sessions, statEvents = mEvents m\<rparr>, m))"

definition Status :: "string list \<Rightarrow> manager \<Rightarrow> status \<times> manager" where
  "Status order m = (let (now, m) = time_now m in StatusAt order now m)"

definition Reset :: "manager \<Rightarrow> manager" where
  "Reset m =
     (let m = m\<lparr>mSessions := Map.empty\<rparr>;
          m = m\<lparr>mTuners := map (\<lambda>t. t\<lparr>tunState := ''idle'', tunMuxID := '''', tunSessions := [],
                tunTuneStartedAt := 0, tunFrontend := idleFrontend\<rparr>) (mTuners m)\<rparr>;
          m = (if scName (mScenario m) = ScenarioTunerWedged
               then m\<lparr>mTimeline := None, mScenario := scenarioByName ScenarioNormal\<rparr> else m)
      in recordLocked (new_event ''reset'' '''' 0 '''' '''' '''') m)"

end
