(* ===== verification/TunerPool.thy ===== *)
theory TunerPool
  imports Manager
begin

text \<open>
  The tuner pool of the lab manager: the invariant that ties the tuners to the sessions, and the
  changes of the pool that the manager's methods are made of: a new frontend reading, a changed
  session record, a session attached to a tuner and a session detached from it.
\<close>

section \<open>The invariant\<close>

text \<open>A tuner is idle and blank, or tuned and used by at least one session.\<close>

definition tuner_shape :: "tuner \<Rightarrow> bool" where
  "tuner_shape t \<longleftrightarrow>
     (tunState t = ''idle'' \<and> tunSessions t = [] \<and> tunMuxID t = '''' \<and>
        tunFrontend t = idleFrontend \<and> tunTuneStartedAt t = 0) \<or>
     (tunState t = ''tuned'' \<and> tunSessions t \<noteq> [] \<and> distinct (tunSessions t))"

definition tuned_tuners :: "tuner list \<Rightarrow> tuner set" where
  "tuned_tuners ts = {t \<in> set ts. tunState t = ''tuned''}"

text \<open>Which session is on which tuner and mux: as the tuners list it, and as the sessions record
  it.\<close>

definition listed :: "tuner \<Rightarrow> (string \<times> int \<times> string) set" where
  "listed t = (\<lambda>sid. (sid, tunID t, tunMuxID t)) ` set (tunSessions t)"

definition placed :: "tuner list \<Rightarrow> (string \<times> int \<times> string) set" where
  "placed ts = (\<Union>t\<in>set ts. listed t)"

definition homes :: "(string \<rightharpoonup> session) \<Rightarrow> (string \<times> int \<times> string) set" where
  "homes ss = (\<lambda>sid. (sid, sesTunerID (the (ss sid)), sesMuxID (the (ss sid)))) ` dom ss"

definition pool_inv :: "tuner list \<Rightarrow> (string \<rightharpoonup> session) \<Rightarrow> bool" where
  "pool_inv ts ss \<longleftrightarrow>
     distinct (map tunID ts) \<and> (\<forall>t\<in>set ts. tuner_shape t) \<and>
     inj_on tunMuxID (tuned_tuners ts) \<and> placed ts = homes ss"

lemma pool_distinct: "pool_inv ts ss \<Longrightarrow> distinct (map tunID ts)"
  and pool_shape: "pool_inv ts ss \<Longrightarrow> t \<in> set ts \<Longrightarrow> tuner_shape t"
  and pool_inj: "pool_inv ts ss \<Longrightarrow> inj_on tunMuxID (tuned_tuners ts)"
  and pool_homes: "pool_inv ts ss \<Longrightarrow> placed ts = homes ss"
  by (simp_all add: pool_inv_def)

lemma in_homes: "(sid, i, mux) \<in> homes ss \<longleftrightarrow>
    (\<exists>ses. ss sid = Some ses \<and> sesTunerID ses = i \<and> sesMuxID ses = mux)"
  by (auto simp: homes_def)

lemma in_placed: "(sid, i, mux) \<in> placed ts \<longleftrightarrow>
    (\<exists>t\<in>set ts. tunID t = i \<and> tunMuxID t = mux \<and> sid \<in> set (tunSessions t))"
  by (auto simp: placed_def listed_def)

lemma pool_session:
  assumes "pool_inv ts ss" "ss sid = Some ses"
  obtains t where "t \<in> set ts" "tunID t = sesTunerID ses" "tunMuxID t = sesMuxID ses"
    "sid \<in> set (tunSessions t)"
proof -
  have "(sid, sesTunerID ses, sesMuxID ses) \<in> placed ts"
    unfolding pool_homes [OF assms(1)] in_homes using assms(2) by blast
  then show thesis unfolding in_placed using that by blast
qed

lemma pool_listed:
  assumes "pool_inv ts ss" "t \<in> set ts" "sid \<in> set (tunSessions t)"
  obtains ses where "ss sid = Some ses" "sesTunerID ses = tunID t" "sesMuxID ses = tunMuxID t"
proof -
  have "(sid, tunID t, tunMuxID t) \<in> homes ss"
    unfolding pool_homes [OF assms(1), symmetric] in_placed using assms(2,3) by blast
  then show thesis unfolding in_homes using that by blast
qed

lemma pool_mux:
  "pool_inv ts ss \<Longrightarrow> t \<in> set ts \<Longrightarrow> u \<in> set ts \<Longrightarrow> tunState t = ''tuned'' \<Longrightarrow>
     tunState u = ''tuned'' \<Longrightarrow> tunMuxID u = tunMuxID t \<Longrightarrow> u = t"
  by (rule inj_onD [OF pool_inj]) (simp_all add: tuned_tuners_def)

lemma same_id_eq:
  "distinct (map tunID ts) \<Longrightarrow> t \<in> set ts \<Longrightarrow> u \<in> set ts \<Longrightarrow> tunID t = tunID u \<Longrightarrow> t = u"
  by (metis distinct_map inj_onD)

section \<open>Updating one tuner\<close>

lemma update_tuner_other:
  "i \<notin> tunID ` set ts \<Longrightarrow> update_tuner i f ts = ts"
  by (induction ts) auto

lemma set_update_tuner:
  assumes "distinct (map tunID ts)" "t \<in> set ts"
  shows "set (update_tuner (tunID t) f ts) = insert (f t) (set ts - {t})"
  using assms
proof (induction ts)
  case (Cons u us)
  show ?case
  proof (cases "u = t")
    case True
    with Cons.prems have "t \<notin> set us" by auto
    with True show ?thesis by auto
  next
    case False
    with Cons.prems have t: "t \<in> set us" "tunID u \<noteq> tunID t" by auto
    from Cons.prems(1) have "set (update_tuner (tunID t) f us) = insert (f t) (set us - {t})"
      by (intro Cons.IH t(1)) simp
    with t False show ?thesis by auto
  qed
qed simp

lemma listed_id: "x \<in> listed u \<Longrightarrow> fst (snd x) = tunID u"
  by (auto simp: listed_def)

lemma listed_split:
  assumes "distinct (map tunID ts)" "t \<in> set ts"
  shows "(\<Union>u\<in>set ts - {t}. listed u) = {x \<in> placed ts. fst (snd x) \<noteq> tunID t}"
proof -
  have "tunID u \<noteq> tunID t" if "u \<in> set ts" "u \<noteq> t" for u
    using same_id_eq [OF assms(1) that(1) assms(2)] that(2) by blast
  then have other: "fst (snd x) \<noteq> tunID t" if "u \<in> set ts" "u \<noteq> t" "x \<in> listed u" for u x
    using that by (metis listed_id)
  show ?thesis
  proof
    show "(\<Union>u\<in>set ts - {t}. listed u) \<subseteq> {x \<in> placed ts. fst (snd x) \<noteq> tunID t}"
      using other unfolding placed_def by blast
    show "{x \<in> placed ts. fst (snd x) \<noteq> tunID t} \<subseteq> (\<Union>u\<in>set ts - {t}. listed u)"
      unfolding placed_def using listed_id by blast
  qed
qed

lemma placed_update:
  assumes "distinct (map tunID ts)" "t \<in> set ts"
  shows "placed (update_tuner (tunID t) f ts) =
    listed (f t) \<union> {x \<in> placed ts. fst (snd x) \<noteq> tunID t}"
  unfolding placed_def [of "update_tuner (tunID t) f ts"] set_update_tuner [OF assms]
  by (simp add: listed_split [OF assms])

text \<open>The conditions under which an update of one tuner keeps the pool.\<close>

lemma pool_update:
  assumes inv: "pool_inv ts ss" and t: "t \<in> set ts" and id: "\<And>u. tunID (f u) = tunID u"
    and shape: "tuner_shape (f t)"
    and mux: "\<And>u. tunState (f t) = ''tuned'' \<Longrightarrow> u \<in> set ts \<Longrightarrow> u \<noteq> t \<Longrightarrow>
      tunState u = ''tuned'' \<Longrightarrow> tunMuxID u \<noteq> tunMuxID (f t)"
    and homes: "listed (f t) \<union> {x \<in> homes ss. fst (snd x) \<noteq> tunID t} = homes ss'"
  shows "pool_inv (update_tuner (tunID t) f ts) ss'"
  unfolding pool_inv_def
proof (intro conjI)
  note dist = pool_distinct [OF inv]
  note sets = set_update_tuner [OF dist t]
  show "distinct (map tunID (update_tuner (tunID t) f ts))" using dist id by simp
  show "\<forall>u\<in>set (update_tuner (tunID t) f ts). tuner_shape u"
    using shape pool_shape [OF inv] unfolding sets by blast
  show "placed (update_tuner (tunID t) f ts) = homes ss'"
    unfolding placed_update [OF dist t] pool_homes [OF inv] by (rule homes)
  have "tuned_tuners (update_tuner (tunID t) f ts) \<subseteq> insert (f t) (tuned_tuners ts - {t})"
    unfolding tuned_tuners_def sets by blast
  moreover have "inj_on tunMuxID (tuned_tuners ts - {t})"
    using pool_inj [OF inv] by (rule inj_on_subset) blast
  moreover have "tuned_tuners (update_tuner (tunID t) f ts) \<subseteq> tuned_tuners ts - {t}"
    if "tunState (f t) \<noteq> ''tuned''"
    unfolding tuned_tuners_def sets using that by auto
  moreover have "inj_on tunMuxID (insert (f t) (tuned_tuners ts - {t}))"
    if "tunState (f t) = ''tuned''"
  proof -
    have "tunMuxID (f t) \<notin> tunMuxID ` (tuned_tuners ts - {t})"
      using mux [OF that] unfolding tuned_tuners_def by force
    then show ?thesis
      using inj_on_subset [OF pool_inj [OF inv], of "tuned_tuners ts - {t}"]
      by (simp add: inj_on_insert) blast
  qed
  ultimately show "inj_on tunMuxID (tuned_tuners (update_tuner (tunID t) f ts))"
    by (metis inj_on_subset)
qed

lemma homes_split: "{x \<in> homes ss. fst (snd x) = i} \<union> {x \<in> homes ss. fst (snd x) \<noteq> i} = homes ss"
  by blast

lemma pool_listed_eq:
  assumes "pool_inv ts ss" "t \<in> set ts"
  shows "listed t = {x \<in> homes ss. fst (snd x) = tunID t}"
proof
  show "listed t \<subseteq> {x \<in> homes ss. fst (snd x) = tunID t}"
    unfolding pool_homes [OF assms(1), symmetric] using assms(2) by (auto simp: placed_def listed_def)
  show "{x \<in> homes ss. fst (snd x) = tunID t} \<subseteq> listed t"
  proof
    fix x assume "x \<in> {x \<in> homes ss. fst (snd x) = tunID t}"
    then have x: "x \<in> placed ts" "fst (snd x) = tunID t"
      unfolding pool_homes [OF assms(1)] by simp_all
    then obtain u where u: "u \<in> set ts" "x \<in> listed u" unfolding placed_def by blast
    then have "tunID u = tunID t" using x(2) by (auto simp: listed_def)
    then show "x \<in> listed t"
      using u same_id_eq [OF pool_distinct [OF assms(1)] u(1) assms(2)] by simp
  qed
qed


section \<open>Changes that keep the pool\<close>

text \<open>Frontend readings: any, as long as an idle tuner shows the idle one.\<close>

lemma pool_frontend:
  assumes inv: "pool_inv ts ss" and idle: "\<And>t. tunState t = ''idle'' \<Longrightarrow> g t = idleFrontend"
  shows "pool_inv (update_tuner i (\<lambda>t. t\<lparr>tunFrontend := g t\<rparr>) ts) ss"
proof (cases "i \<in> tunID ` set ts")
  case False
  then show ?thesis using inv by (simp add: update_tuner_other)
next
  case True
  then obtain t where t: "t \<in> set ts" "i = tunID t" by blast
  let ?f = "\<lambda>t. t\<lparr>tunFrontend := g t\<rparr>"
  show ?thesis unfolding t(2)
  proof (rule pool_update [OF inv t(1)])
    show "tunID (u\<lparr>tunFrontend := g u\<rparr>) = tunID u" for u by simp
    show "tuner_shape (?f t)"
      using pool_shape [OF inv t(1)] idle [of t] by (auto simp: tuner_shape_def)
    show "tunMuxID u \<noteq> tunMuxID (?f t)"
      if "tunState (?f t) = ''tuned''" "u \<in> set ts" "u \<noteq> t" "tunState u = ''tuned''" for u
      using pool_mux [OF inv t(1) that(2)] that by auto
    have "listed (?f t) = listed t" by (simp add: listed_def)
    then show "listed (?f t) \<union> {x \<in> homes ss. fst (snd x) \<noteq> tunID t} = homes ss"
      unfolding pool_listed_eq [OF inv t(1)] using homes_split [of ss "tunID t"] by simp
  qed
qed

text \<open>Session records: any change that keeps the tuner and the mux.\<close>

lemma pool_session_update:
  assumes inv: "pool_inv ts ss" and old: "ss sid = Some ses"
    and same: "sesTunerID ses' = sesTunerID ses" "sesMuxID ses' = sesMuxID ses"
  shows "pool_inv ts (ss(sid \<mapsto> ses'))"
proof -
  have "homes (ss(sid \<mapsto> ses')) = homes ss"
    unfolding homes_def using old same by (intro image_cong) auto
  with inv show ?thesis by (simp add: pool_inv_def)
qed

lemma homes_insert:
  "ss sid = None \<Longrightarrow> homes (ss(sid \<mapsto> ses)) = insert (sid, sesTunerID ses, sesMuxID ses) (homes ss)"
  by (rule set_eqI, rename_tac x, case_tac x) (auto simp: in_homes)

lemma homes_delete: "homes (ss(sid := None)) = {x \<in> homes ss. fst x \<noteq> sid}"
  by (rule set_eqI, rename_tac x, case_tac x) (auto simp: in_homes)

text \<open>Attaching a new session to a tuner that is idle or already tuned to its mux, when no other
  tuner is tuned to that mux.\<close>

lemma pool_attach:
  assumes inv: "pool_inv ts ss" and fresh: "ss sid = None"
    and t: "t \<in> set ts" "tunState t = ''idle'' \<or> tunState t = ''tuned'' \<and> tunMuxID t = mux"
    and others: "\<And>u. u \<in> set ts \<Longrightarrow> u \<noteq> t \<Longrightarrow> tunState u = ''tuned'' \<Longrightarrow> tunMuxID u \<noteq> mux"
    and g: "\<And>u. tunID (g u) = tunID u" "tunState (g t) = ''tuned''" "tunMuxID (g t) = mux"
      "tunSessions (g t) = tunSessions t @ [sid]"
    and ses: "sesTunerID ses = tunID t" "sesMuxID ses = mux"
  shows "pool_inv (update_tuner (tunID t) g ts) (ss(sid \<mapsto> ses))"
proof (rule pool_update [OF inv t(1) g(1)])
  have "sid \<notin> set (tunSessions t)"
    using pool_listed [OF inv t(1), of sid] fresh by force
  then show "tuner_shape (g t)"
    using pool_shape [OF inv t(1)] g by (auto simp: tuner_shape_def)
  show "tunMuxID u \<noteq> tunMuxID (g t)"
    if "u \<in> set ts" "u \<noteq> t" "tunState u = ''tuned''" for u
    using others that g(3) by simp
  have "listed (g t) = insert (sid, tunID t, mux) (listed t)"
  proof (cases "tunSessions t = []")
    case True
    then show ?thesis using g by (simp add: listed_def)
  next
    case False
    then have "tunMuxID t = mux"
      using t(2) pool_shape [OF inv t(1)] by (auto simp: tuner_shape_def)
    then show ?thesis using g by (simp add: listed_def)
  qed
  then show "listed (g t) \<union> {x \<in> homes ss. fst (snd x) \<noteq> tunID t} = homes (ss(sid \<mapsto> ses))"
    unfolding homes_insert [of ss sid ses, OF fresh] ses
    using pool_listed_eq [OF inv t(1)] homes_split [of ss "tunID t"] by simp
qed

text \<open>Detaching a session: its tuner becomes idle when it was the last one.\<close>

lemma pool_detach:
  assumes inv: "pool_inv ts ss" and ses: "ss sid = Some ses"
    and t: "t \<in> set ts" "tunID t = sesTunerID ses"
    and g: "\<And>u. tunID (g u) = tunID u"
      "tunSessions (g t) = filter (\<lambda>s. s \<noteq> sid) (tunSessions t)"
      "filter (\<lambda>s. s \<noteq> sid) (tunSessions t) = [] \<Longrightarrow> tuner_shape (g t) \<and> tunState (g t) = ''idle''"
      "filter (\<lambda>s. s \<noteq> sid) (tunSessions t) \<noteq> [] \<Longrightarrow>
         tunState (g t) = tunState t \<and> tunMuxID (g t) = tunMuxID t"
  shows "pool_inv (update_tuner (tunID t) g ts) (ss(sid := None))"
proof (rule pool_update [OF inv t(1) g(1)])
  show "tuner_shape (g t)"
    using g pool_shape [OF inv t(1)]
    by (cases "filter (\<lambda>s. s \<noteq> sid) (tunSessions t) = []") (auto simp: tuner_shape_def)
  show "tunMuxID u \<noteq> tunMuxID (g t)"
    if "tunState (g t) = ''tuned''" "u \<in> set ts" "u \<noteq> t" "tunState u = ''tuned''" for u
  proof -
    have "filter (\<lambda>s. s \<noteq> sid) (tunSessions t) \<noteq> []" using that(1) g(3) by fastforce
    with that(1) g(4) have "tunState t = ''tuned''" "tunMuxID (g t) = tunMuxID t" by simp_all
    then show ?thesis using pool_mux [OF inv t(1) that(2)] that by auto
  qed
  have "listed (g t) = {x \<in> listed t. fst x \<noteq> sid}"
  proof (cases "filter (\<lambda>s. s \<noteq> sid) (tunSessions t) = []")
    case True
    then show ?thesis using g(2) by (auto simp: listed_def filter_empty_conv)
  next
    case False
    then show ?thesis using g by (auto simp: listed_def)
  qed
  moreover have "fst (snd x) = tunID t" if "x \<in> homes ss" "fst x = sid" for x
    using that ses t(2) by (auto simp: homes_def)
  ultimately show "listed (g t) \<union> {x \<in> homes ss. fst (snd x) \<noteq> tunID t} = homes (ss(sid := None))"
    unfolding homes_delete pool_listed_eq [OF inv t(1)] by blast
qed

section \<open>Fresh pools and allocation\<close>

lemma pool_blank:
  assumes "distinct (map tunID ts)" "\<forall>t\<in>set ts. tuner_shape t \<and> tunState t = ''idle''"
  shows "pool_inv ts Map.empty"
proof -
  have "tuned_tuners ts = {}" using assms(2) by (auto simp: tuned_tuners_def)
  moreover have "placed ts = {}"
    using assms(2) by (auto simp: placed_def listed_def tuner_shape_def)
  ultimately show ?thesis using assms by (simp add: pool_inv_def homes_def)
qed

text \<open>Allocation tunes the first idle tuner.\<close>

lemma tune_first_idle_None: "tune_first_idle mux now ts = None \<longleftrightarrow> (\<forall>t\<in>set ts. tunState t \<noteq> ''idle'')"
  by (induction ts) auto

lemma tune_first_idle_Some:
  assumes "tune_first_idle mux now ts = Some (i, ts')" "distinct (map tunID ts)"
  shows "\<exists>t\<in>set ts. tunState t = ''idle'' \<and> tunID t = i \<and>
    ts' = update_tuner i (\<lambda>t. t\<lparr>tunState := ''tuned'', tunMuxID := mux, tunTuneStartedAt := now\<rparr>) ts"
  using assms
proof (induction ts arbitrary: ts')
  case (Cons t ts)
  show ?case
  proof (cases "tunState t = ''idle''")
    case True
    with Cons.prems show ?thesis by auto
  next
    case False
    with Cons.prems(1) obtain us where us: "tune_first_idle mux now ts = Some (i, us)" "ts' = t # us"
      by auto
    with Cons.IH [OF us(1)] Cons.prems(2) show ?thesis by auto
  qed
qed simp

lemma update_tuner_twice:
  "(\<And>t. tunID (f t) = tunID t) \<Longrightarrow>
     update_tuner i g (update_tuner i f ts) = update_tuner i (\<lambda>t. g (f t)) ts"
  by (induction ts) auto

end
