(* ===== verification/ManagerInv.thy ===== *)
theory ManagerInv
  imports TunerPool
begin

text \<open>
  The invariant of the lab manager and the proof that every method keeps it. Each method is first
  reduced to the change it makes of the tuners, the sessions, the event log and the scenario;
  the pool lemmas of \<open>TunerPool\<close> and the laws of the catalog do the rest.
\<close>

section \<open>What the helpers change\<close>

lemma time_now_frame [simp]:
  "mCatalog (snd (time_now m)) = mCatalog m" "mTuners (snd (time_now m)) = mTuners m"
  "mSessions (snd (time_now m)) = mSessions m" "mEvents (snd (time_now m)) = mEvents m"
  "mScenario (snd (time_now m)) = mScenario m" "mTimeline (snd (time_now m)) = mTimeline m"
  "mScenarioChangedAt (snd (time_now m)) = mScenarioChangedAt m"
  by (simp_all add: time_now_def)

lemma recordLocked_frame [simp]:
  "mCatalog (recordLocked e m) = mCatalog m" "mTuners (recordLocked e m) = mTuners m"
  "mSessions (recordLocked e m) = mSessions m" "mScenario (recordLocked e m) = mScenario m"
  "mTimeline (recordLocked e m) = mTimeline m"
  "mScenarioChangedAt (recordLocked e m) = mScenarioChangedAt m"
  by (simp_all add: recordLocked_def time_now_def Let_def)

text \<open>The log keeps the last 200 events.\<close>

lemma mEvents_recordLocked:
  "mEvents (recordLocked e m) = lastn 200 (mEvents m @ [e\<lparr>evAt := mClock m (mReads m)\<rparr>])"
  by (simp add: recordLocked_def time_now_def Let_def lastn_def)

lemma recomputeTuner_frame [simp]:
  "mCatalog (recomputeTunerFrontendLocked i now m) = mCatalog m"
  "mSessions (recomputeTunerFrontendLocked i now m) = mSessions m"
  "mEvents (recomputeTunerFrontendLocked i now m) = mEvents m"
  "mScenario (recomputeTunerFrontendLocked i now m) = mScenario m"
  "mTimeline (recomputeTunerFrontendLocked i now m) = mTimeline m"
  "mScenarioChangedAt (recomputeTunerFrontendLocked i now m) = mScenarioChangedAt m"
  "mClock (recomputeTunerFrontendLocked i now m) = mClock m"
  "mReads (recomputeTunerFrontendLocked i now m) = mReads m"
  by (simp_all add: recomputeTunerFrontendLocked_def)

lemma recompute_fold_frame:
  "mCatalog (foldl (\<lambda>m t. recomputeTunerFrontendLocked (tunID t) now m) m ts) = mCatalog m \<and>
   mSessions (foldl (\<lambda>m t. recomputeTunerFrontendLocked (tunID t) now m) m ts) = mSessions m \<and>
   mEvents (foldl (\<lambda>m t. recomputeTunerFrontendLocked (tunID t) now m) m ts) = mEvents m \<and>
   mScenario (foldl (\<lambda>m t. recomputeTunerFrontendLocked (tunID t) now m) m ts) = mScenario m \<and>
   mTimeline (foldl (\<lambda>m t. recomputeTunerFrontendLocked (tunID t) now m) m ts) = mTimeline m \<and>
   mScenarioChangedAt (foldl (\<lambda>m t. recomputeTunerFrontendLocked (tunID t) now m) m ts) =
     mScenarioChangedAt m"
  by (induction ts arbitrary: m) simp_all

lemma recomputeAll_frame [simp]:
  "mCatalog (recomputeAllFrontendsLocked now m) = mCatalog m"
  "mSessions (recomputeAllFrontendsLocked now m) = mSessions m"
  "mEvents (recomputeAllFrontendsLocked now m) = mEvents m"
  "mScenario (recomputeAllFrontendsLocked now m) = mScenario m"
  "mTimeline (recomputeAllFrontendsLocked now m) = mTimeline m"
  "mScenarioChangedAt (recomputeAllFrontendsLocked now m) = mScenarioChangedAt m"
  unfolding recomputeAllFrontendsLocked_def using recompute_fold_frame [of now m "mTuners m"]
  by simp_all

lemma addSession_frame [simp]:
  "mCatalog (addSessionToTunerLocked i sid m) = mCatalog m"
  "mSessions (addSessionToTunerLocked i sid m) = mSessions m"
  "mEvents (addSessionToTunerLocked i sid m) = mEvents m"
  "mScenario (addSessionToTunerLocked i sid m) = mScenario m"
  "mTimeline (addSessionToTunerLocked i sid m) = mTimeline m"
  "mScenarioChangedAt (addSessionToTunerLocked i sid m) = mScenarioChangedAt m"
  by (simp_all add: addSessionToTunerLocked_def)

lemma removeSession_frame [simp]:
  "mCatalog (removeSessionFromTunerLocked i sid m) = mCatalog m"
  "mSessions (removeSessionFromTunerLocked i sid m) = mSessions m"
  "mEvents (removeSessionFromTunerLocked i sid m) = mEvents m"
  "mScenario (removeSessionFromTunerLocked i sid m) = mScenario m"
  "mTimeline (removeSessionFromTunerLocked i sid m) = mTimeline m"
  "mScenarioChangedAt (removeSessionFromTunerLocked i sid m) = mScenarioChangedAt m"
  by (simp_all add: removeSessionFromTunerLocked_def Let_def time_now_def split: option.splits)

lemma scenarioAt_frame [simp]:
  "mCatalog (snd (scenarioAtLocked now m)) = mCatalog m"
  "mSessions (snd (scenarioAtLocked now m)) = mSessions m"
  by (simp_all add: scenarioAtLocked_def Let_def split: option.splits)

lemma allocate_frame:
  "allocateTunerLocked mux now m = (r, m') \<Longrightarrow> m' = m\<lparr>mTuners := mTuners m'\<rparr>"
  by (auto simp: allocateTunerLocked_def split: option.splits)

section \<open>The invariant\<close>

definition session_states :: "string list" where
  "session_states = [''setup'', ''playing'', ''paused'']"

text \<open>A session is stored under its id, in a known state, and its service and mux are in the
  catalog; a session that passes all PIDs lists none.\<close>

definition session_ok :: "catalog \<Rightarrow> string \<Rightarrow> session \<Rightarrow> bool" where
  "session_ok c sid ses \<longleftrightarrow>
     sesID ses = sid \<and> sesState ses \<in> set session_states \<and>
     (sesPIDsAll ses \<longrightarrow> sesPIDs ses = []) \<and>
     (case ServiceByID c (sesServiceID ses) of None \<Rightarrow> False
      | Some svc \<Rightarrow> svcMuxID svc = sesMuxID ses \<and> svcName svc = sesService ses) \<and>
     MuxByID c (sesMuxID ses) \<noteq> None"

definition sessions_ok :: "catalog \<Rightarrow> (string \<rightharpoonup> session) \<Rightarrow> bool" where
  "sessions_ok c ss \<longleftrightarrow> (\<forall>sid\<in>dom ss. session_ok c sid (the (ss sid)))"

text \<open>The active scenario is a supported one, aimed only at what the catalog has.\<close>

definition scenario_ok :: "catalog \<Rightarrow> scenario \<Rightarrow> bool" where
  "scenario_ok c sc \<longleftrightarrow>
     lookupScenario (scName sc) \<noteq> None \<and>
     (scServiceID sc \<noteq> '''' \<or> scMuxID sc \<noteq> '''' \<longrightarrow> SupportsTarget sc) \<and>
     (scServiceID sc \<noteq> '''' \<longrightarrow> ServiceByID c (scServiceID sc) \<noteq> None) \<and>
     (scMuxID sc \<noteq> '''' \<longrightarrow> MuxByID c (scMuxID sc) \<noteq> None)"

text \<open>While a timeline runs, the active scenario is the one of its current step.\<close>

definition timeline_ok :: "catalog \<Rightarrow> scenario \<Rightarrow> scenario_timeline option \<Rightarrow> bool" where
  "timeline_ok c sc timeline \<longleftrightarrow>
     (case timeline of None \<Rightarrow> True
      | Some tml \<Rightarrow> tlStepIndex tml < length (tlSteps tml) \<and>
          validateTimelineSteps c (tlSteps tml) = Inr (tlSteps tml) \<and>
          sc\<lparr>scTimeline := None\<rparr> = scenarioFromTimelineStep (tlSteps tml ! tlStepIndex tml))"

definition lab_inv :: "manager \<Rightarrow> bool" where
  "lab_inv m \<longleftrightarrow>
     wf_catalog (mCatalog m) \<and> pool_inv (mTuners m) (mSessions m) \<and>
     sessions_ok (mCatalog m) (mSessions m) \<and> length (mEvents m) \<le> 200 \<and>
     scenario_ok (mCatalog m) (mScenario m) \<and> timeline_ok (mCatalog m) (mScenario m) (mTimeline m)"

lemma lab_wf: "lab_inv m \<Longrightarrow> wf_catalog (mCatalog m)"
  and lab_pool: "lab_inv m \<Longrightarrow> pool_inv (mTuners m) (mSessions m)"
  and lab_sessions: "lab_inv m \<Longrightarrow> sessions_ok (mCatalog m) (mSessions m)"
  and lab_events: "lab_inv m \<Longrightarrow> length (mEvents m) \<le> 200"
  and lab_scenario: "lab_inv m \<Longrightarrow> scenario_ok (mCatalog m) (mScenario m)"
  and lab_timeline: "lab_inv m \<Longrightarrow> timeline_ok (mCatalog m) (mScenario m) (mTimeline m)"
  by (simp_all add: lab_inv_def)

lemmas lab_parts = lab_wf lab_pool lab_sessions lab_events lab_scenario lab_timeline

lemma sessions_ok_get: "sessions_ok c ss \<Longrightarrow> ss sid = Some ses \<Longrightarrow> session_ok c sid ses"
  unfolding sessions_ok_def by (metis domI option.sel)

lemma sessions_ok_upd:
  "sessions_ok c ss \<Longrightarrow> session_ok c sid ses \<Longrightarrow> sessions_ok c (ss(sid \<mapsto> ses))"
  by (simp add: sessions_ok_def)

lemma sessions_ok_del: "sessions_ok c ss \<Longrightarrow> sessions_ok c (ss(sid := None))"
  by (simp add: sessions_ok_def)

section \<open>The helpers keep it\<close>

lemma lab_time_now [simp]: "lab_inv (snd (time_now m)) = lab_inv m"
  by (simp add: lab_inv_def)

lemma lab_reads [simp]: "lab_inv (m\<lparr>mReads := n\<rparr>) = lab_inv m"
  by (simp add: lab_inv_def)

lemma lab_record: "lab_inv m \<Longrightarrow> lab_inv (recordLocked e m)"
  by (simp add: lab_inv_def mEvents_recordLocked length_lastn)

lemma pool_recompute_one:
  "pool_inv (mTuners m) ss \<Longrightarrow> pool_inv (mTuners (recomputeTunerFrontendLocked i now m)) ss"
  unfolding recomputeTunerFrontendLocked_def
  by (simp add: pool_frontend idle_recomputed)

lemma pool_recompute_fold:
  "pool_inv (mTuners m) ss \<Longrightarrow>
     pool_inv (mTuners (foldl (\<lambda>m t. recomputeTunerFrontendLocked (tunID t) now m) m ts)) ss"
  by (induction ts arbitrary: m) (simp_all add: pool_recompute_one)

lemma pool_recompute_all:
  "pool_inv (mTuners m) ss \<Longrightarrow> pool_inv (mTuners (recomputeAllFrontendsLocked now m)) ss"
  unfolding recomputeAllFrontendsLocked_def by (rule pool_recompute_fold)

lemma lab_recompute_one: "lab_inv m \<Longrightarrow> lab_inv (recomputeTunerFrontendLocked i now m)"
  by (simp add: lab_inv_def pool_recompute_one)

lemma lab_recompute_all: "lab_inv m \<Longrightarrow> lab_inv (recomputeAllFrontendsLocked now m)"
  by (simp add: lab_inv_def pool_recompute_all)

text \<open>A scenario is set together with the moment of the change and the timeline.\<close>

lemma lab_set_scenario:
  "lab_inv m \<Longrightarrow> scenario_ok (mCatalog m) sc \<Longrightarrow> timeline_ok (mCatalog m) sc timeline \<Longrightarrow>
     lab_inv (m\<lparr>mScenario := sc, mScenarioChangedAt := now, mTimeline := timeline\<rparr>)"
  by (simp add: lab_inv_def)

text \<open>A session record is replaced by one with the same tuner, service and mux.\<close>

lemma lab_session_update:
  assumes "lab_inv m" "mSessions m sid = Some ses"
    "sesTunerID ses' = sesTunerID ses" "sesMuxID ses' = sesMuxID ses" "session_ok (mCatalog m) sid ses'"
  shows "lab_inv (m\<lparr>mSessions := (mSessions m)(sid \<mapsto> ses')\<rparr>)"
  using assms lab_parts [OF assms(1)]
  by (simp add: lab_inv_def pool_session_update sessions_ok_upd)


section \<open>Scenarios\<close>

lemma scenario_ok_timeline [simp]: "scenario_ok c (sc\<lparr>scTimeline := tml\<rparr>) = scenario_ok c sc"
  by (simp add: scenario_ok_def SupportsTarget_def)

lemma scenario_ok_normal: "scenario_ok c (scenarioByName ScenarioNormal)"
  using scName_scenarioByName [of ScenarioNormal]
  by (simp add: scenario_ok_def lookupScenario_def)

lemma SupportsTarget_scName: "scName s = scName s' \<Longrightarrow> SupportsTarget s = SupportsTarget s'"
  by (simp add: SupportsTarget_def)

lemma scenario_ok_step:
  assumes "timeline_step_ok c step"
  shows "scenario_ok c (scenarioFromTimelineStep step)"
proof -
  obtain s where s: "lookupScenario (stName step) = Some s"
    "stServiceID step \<noteq> '''' \<or> stMuxID step \<noteq> '''' \<longrightarrow> SupportsTarget s"
    "stServiceID step \<noteq> '''' \<longrightarrow> ServiceByID c (stServiceID step) \<noteq> None"
    "stMuxID step \<noteq> '''' \<longrightarrow> MuxByID c (stMuxID step) \<noteq> None"
    using assms by (auto simp: timeline_step_ok_def split: option.splits)
  have name: "scName (scenarioFromTimelineStep step) = stName step"
    using s(1) by (simp add: scenarioFromTimelineStep_def scName_scenarioByName)
  have "SupportsTarget (scenarioFromTimelineStep step) = SupportsTarget s"
    using name lookupScenario_name [OF s(1)] by (intro SupportsTarget_scName) simp
  then show ?thesis
    using s by (simp add: scenario_ok_def name) (simp add: scenarioFromTimelineStep_def)
qed

lemma scTimeline_step: "scTimeline (scenarioFromTimelineStep step) = None"
  by (simp add: scenarioFromTimelineStep_def)

lemma scenarioFromTimelineStep_untimed:
  "(scenarioFromTimelineStep step)\<lparr>scTimeline := None\<rparr> = scenarioFromTimelineStep step"
  using scTimeline_step [of step] by (cases "scenarioFromTimelineStep step") simp

lemma timeline_step_at:
  assumes "timeline_ok c sc (Some tml)" "j < length (tlSteps tml)"
  shows "timeline_step_ok c (tlSteps tml ! j)"
  using assms by (auto simp: timeline_ok_def validateTimelineSteps_inr)

lemma lab_scenarioAt: "lab_inv m \<Longrightarrow> lab_inv (snd (scenarioAtLocked now m))"
proof (cases "mTimeline m")
  case (Some tml)
  assume inv: "lab_inv m"
  let ?j = "due_step (elapsed_ms now tml) 0 (tlStepIndex tml) (tlSteps tml)"
  have tml: "timeline_ok (mCatalog m) (mScenario m) (Some tml)" using lab_timeline [OF inv] Some by simp
  have j: "?j < length (tlSteps tml)"
    using tml by (intro due_step_bound) (simp_all add: timeline_ok_def)
  have "timeline_ok (mCatalog m) (scenarioFromTimelineStep (tlSteps tml ! ?j))
      (Some (tml\<lparr>tlStepIndex := ?j\<rparr>))"
    using tml j by (simp add: timeline_ok_def scenarioFromTimelineStep_untimed)
  moreover note scenario_ok_step [OF timeline_step_at [OF tml j]]
  ultimately have "lab_inv (m\<lparr>mTimeline := Some (tml\<lparr>tlStepIndex := ?j\<rparr>),
      mScenario := scenarioFromTimelineStep (tlSteps tml ! ?j), mScenarioChangedAt := now\<rparr>)"
    using lab_parts [OF inv] by (simp add: lab_inv_def)
  then show ?thesis
    using inv Some unfolding scenarioAtLocked_def
    by (auto simp: Let_def intro: lab_record lab_recompute_all)
qed (simp add: scenarioAtLocked_def)

lemma lab_Scenario: "lab_inv m \<Longrightarrow> lab_inv (snd (Scenario m))"
  by (simp add: Scenario_def ScenarioAt_def time_now_def lab_scenarioAt)

lemma lab_SetScenarioOptionsAt:
  assumes inv: "lab_inv m"
  shows "lab_inv (snd (SetScenarioOptionsAt name sid mux dur now m))"
proof (cases "lookupScenario name")
  case None
  then show ?thesis using inv by (simp add: SetScenarioOptionsAt_def)
next
  case (Some sc)
  let ?sc = "sc\<lparr>scServiceID := sid, scMuxID := mux, scDurationMin := dur\<rparr>"
  have "scenario_ok (mCatalog m) ?sc"
    if "\<not> ((sid \<noteq> '''' \<or> mux \<noteq> '''') \<and> \<not> SupportsTarget sc)"
      "\<not> (sid \<noteq> '''' \<and> ServiceByID (mCatalog m) sid = None)"
      "\<not> (mux \<noteq> '''' \<and> MuxByID (mCatalog m) mux = None)"
  proof -
    have "SupportsTarget ?sc = SupportsTarget sc" by (rule SupportsTarget_scName) simp
    then show ?thesis using that Some lookupScenario_name [OF Some] by (auto simp: scenario_ok_def)
  qed
  moreover have "timeline_ok c sc None" for c sc by (simp add: timeline_ok_def)
  ultimately show ?thesis
    using Some inv unfolding SetScenarioOptionsAt_def
    by (auto simp: Let_def intro!: lab_record lab_recompute_all lab_set_scenario lab_scenarioAt)
qed

lemma lab_SetScenarioOptions: "lab_inv m \<Longrightarrow> lab_inv (snd (SetScenarioOptions name sid mux dur m))"
  by (simp add: SetScenarioOptions_def time_now_def lab_SetScenarioOptionsAt)

lemma lab_SetScenarioTimelineAt:
  assumes inv: "lab_inv m"
  shows "lab_inv (snd (SetScenarioTimelineAt steps now m))"
proof (cases "validateTimelineSteps (mCatalog m) steps")
  case (Inl e)
  then show ?thesis using inv by (simp add: SetScenarioTimelineAt_def)
next
  case (Inr v)
  then have v: "v = steps" "steps \<noteq> []" "timeline_step_ok (mCatalog m) (hd steps)"
    by (simp_all add: validateTimelineSteps_inr)
  let ?first = "(scenarioFromTimelineStep (hd v))\<lparr>scTimeline := Some (timeline_status 0 0 v)\<rparr>"
  let ?tml = "\<lparr>tlStartedAt = now, tlStepIndex = 0, tlSteps = v\<rparr>"
  have "timeline_ok (mCatalog m) ?first (Some ?tml)"
    using v Inr by (simp add: timeline_ok_def scenarioFromTimelineStep_untimed hd_conv_nth)
  moreover have "scenario_ok (mCatalog m) ?first" using v by (simp add: scenario_ok_step)
  ultimately have "lab_inv (m\<lparr>mTimeline := Some ?tml, mScenario := ?first, mScenarioChangedAt := now\<rparr>)"
    using lab_parts [OF inv] by (simp add: lab_inv_def)
  then show ?thesis
    using Inr unfolding SetScenarioTimelineAt_def
    by (simp add: Let_def lab_record lab_recompute_all)
qed

lemma lab_SetScenarioTimeline: "lab_inv m \<Longrightarrow> lab_inv (snd (SetScenarioTimeline steps m))"
  by (simp add: SetScenarioTimeline_def time_now_def lab_SetScenarioTimelineAt)


section \<open>Sessions\<close>

text \<open>Allocation and the new session, as one change of the pool.\<close>

definition attach_tuner :: "string \<Rightarrow> time \<Rightarrow> string \<Rightarrow> tuner \<Rightarrow> tuner" where
  "attach_tuner mux now sid t =
     (if tunState t = ''idle''
      then t\<lparr>tunState := ''tuned'', tunMuxID := mux, tunTuneStartedAt := now,
             tunSessions := tunSessions t @ [sid]\<rparr>
      else t\<lparr>tunSessions := tunSessions t @ [sid]\<rparr>)"

lemma update_tuner_cong:
  "(\<And>t. t \<in> set ts \<Longrightarrow> tunID t = i \<Longrightarrow> f t = g t) \<Longrightarrow> update_tuner i f ts = update_tuner i g ts"
  by (induction ts) auto

lemma update_tuner_at:
  assumes "distinct (map tunID ts)" "t \<in> set ts" "f t = g t"
  shows "update_tuner (tunID t) f ts = update_tuner (tunID t) g ts"
proof (rule update_tuner_cong)
  fix u assume "u \<in> set ts" "tunID u = tunID t"
  then have "u = t" using same_id_eq [OF assms(1) _ assms(2)] by blast
  then show "f u = g u" using assms(3) by simp
qed

text \<open>Whether and where \<open>allocateTunerLocked\<close> finds room.\<close>

lemma allocate_cases:
  assumes inv: "pool_inv (mTuners m) ss" and alloc: "allocateTunerLocked mux now m = (r, m')"
  obtains (full) "r = Inl ErrNoTunerAvailable" "m' = m"
      "\<forall>t\<in>set (mTuners m). tunState t = ''tuned'' \<and> tunMuxID t \<noteq> mux"
  | (room) t where "r = Inr (tunID t)" "t \<in> set (mTuners m)"
      "tunState t = ''idle'' \<or> tunState t = ''tuned'' \<and> tunMuxID t = mux"
      "\<forall>u\<in>set (mTuners m). u \<noteq> t \<longrightarrow> tunState u = ''tuned'' \<longrightarrow> tunMuxID u \<noteq> mux"
      "mTuners (addSessionToTunerLocked (tunID t) sid m') =
         update_tuner (tunID t) (attach_tuner mux now sid) (mTuners m)"
proof (cases "find (\<lambda>t. tunState t = ''tuned'' \<and> tunMuxID t = mux) (mTuners m)")
  case (Some t)
  then have t: "t \<in> set (mTuners m)" "tunState t = ''tuned''" "tunMuxID t = mux"
    using find_SomeD [OF Some] by simp_all
  have r: "r = Inr (tunID t)" "m' = m" using alloc Some by (simp_all add: allocateTunerLocked_def)
  show ?thesis
  proof (rule room [of t])
    have "u = t" if "u \<in> set (mTuners m)" "tunState u = ''tuned''" "tunMuxID u = mux" for u
      using pool_mux [OF inv t(1) that(1) t(2) that(2)] that(3) t(3) by simp
    then show "\<forall>u\<in>set (mTuners m). u \<noteq> t \<longrightarrow> tunState u = ''tuned'' \<longrightarrow> tunMuxID u \<noteq> mux"
      by metis
    show "mTuners (addSessionToTunerLocked (tunID t) sid m') =
        update_tuner (tunID t) (attach_tuner mux now sid) (mTuners m)"
      using update_tuner_at [OF pool_distinct [OF inv] t(1),
          of "\<lambda>t. t\<lparr>tunSessions := tunSessions t @ [sid]\<rparr>" "attach_tuner mux now sid"] t(2)
      by (simp add: addSessionToTunerLocked_def attach_tuner_def r(2))
  qed (use r t in simp_all)
next
  case find: None
  then have none: "\<forall>u\<in>set (mTuners m). tunState u = ''tuned'' \<longrightarrow> tunMuxID u \<noteq> mux"
    unfolding find_None_ball by blast
  show ?thesis
  proof (cases "tune_first_idle mux now (mTuners m)")
    case None
    have "tunState t = ''tuned''" if "t \<in> set (mTuners m)" for t
      using None that pool_shape [OF inv that] unfolding tune_first_idle_None tuner_shape_def by blast
    then show ?thesis
      using alloc None find none
      by (intro full) (simp_all add: allocateTunerLocked_def)
  next
    case (Some p)
    obtain i ts where p: "p = (i, ts)" by (cases p)
    obtain t where t: "t \<in> set (mTuners m)" "tunState t = ''idle''" "tunID t = i"
      "ts = update_tuner i (\<lambda>t. t\<lparr>tunState := ''tuned'', tunMuxID := mux, tunTuneStartedAt := now\<rparr>)
        (mTuners m)"
      using tune_first_idle_Some [OF Some [unfolded p] pool_distinct [OF inv]] by blast
    have r: "r = Inr (tunID t)" "m' = m\<lparr>mTuners := ts\<rparr>"
      using alloc Some find p t(3) by (simp_all add: allocateTunerLocked_def)
    have "update_tuner (tunID t) (\<lambda>t. t\<lparr>tunSessions := tunSessions t @ [sid]\<rparr>) ts =
        update_tuner (tunID t) (attach_tuner mux now sid) (mTuners m)"
      unfolding t(4) t(3) [symmetric] using t(2)
      by (subst update_tuner_twice, simp, intro update_tuner_at [OF pool_distinct [OF inv] t(1)])
        (simp add: attach_tuner_def)
    then show ?thesis
      using r none t(1,2) by (intro room [of t]) (simp_all add: addSessionToTunerLocked_def)
  qed
qed


lemma lab_attach:
  assumes inv: "lab_inv m" and fresh: "mSessions m sid = None"
    and alloc: "allocateTunerLocked mux now m = (Inr i, m')"
    and ses: "session_ok (mCatalog m) sid ses" "sesTunerID ses = i" "sesMuxID ses = mux"
  shows "lab_inv (addSessionToTunerLocked i sid (m'\<lparr>mSessions := (mSessions m')(sid \<mapsto> ses)\<rparr>))"
proof -
  have frame: "m' = m\<lparr>mTuners := mTuners m'\<rparr>" by (rule allocate_frame [OF alloc])
  have same: "mCatalog m' = mCatalog m" "mSessions m' = mSessions m" "mEvents m' = mEvents m"
      "mScenario m' = mScenario m" "mTimeline m' = mTimeline m"
    by (subst frame, simp)+
  obtain t where t: "i = tunID t" "t \<in> set (mTuners m)"
      "tunState t = ''idle'' \<or> tunState t = ''tuned'' \<and> tunMuxID t = mux"
      "\<forall>u\<in>set (mTuners m). u \<noteq> t \<longrightarrow> tunState u = ''tuned'' \<longrightarrow> tunMuxID u \<noteq> mux"
      "mTuners (addSessionToTunerLocked i sid m') =
         update_tuner i (attach_tuner mux now sid) (mTuners m)"
    using allocate_cases [OF lab_pool [OF inv] alloc, of thesis sid] by simp
  have "pool_inv (update_tuner (tunID t) (attach_tuner mux now sid) (mTuners m))
      ((mSessions m)(sid \<mapsto> ses))"
  proof (rule pool_attach [OF lab_pool [OF inv] fresh t(2,3)])
    show "tunMuxID u \<noteq> mux" if "u \<in> set (mTuners m)" "u \<noteq> t" "tunState u = ''tuned''" for u
      using t(4) that by blast
    show "tunID (attach_tuner mux now sid u) = tunID u" for u by (simp add: attach_tuner_def)
    show "tunState (attach_tuner mux now sid t) = ''tuned''" "tunMuxID (attach_tuner mux now sid t) = mux"
      "tunSessions (attach_tuner mux now sid t) = tunSessions t @ [sid]"
      using t(3) by (auto simp: attach_tuner_def)
  qed (use ses t(1) in simp_all)
  moreover have "mTuners (addSessionToTunerLocked i sid (m'\<lparr>mSessions := s\<rparr>)) =
      mTuners (addSessionToTunerLocked i sid m')" for s
    by (simp add: addSessionToTunerLocked_def)
  ultimately show ?thesis
    using lab_parts [OF inv] ses(1) t(1,5) same by (simp add: lab_inv_def sessions_ok_upd)
qed

text \<open>The session that \<open>Setup\<close> stores.\<close>

lemma session_ok_new:
  assumes wf: "wf_catalog c" and match: "MatchService c q = Inr (svc, mux)"
    and pids: "requestedPIDs q svc = Inr (pids, pids_all)"
  shows "session_ok c sid (new_session sid i svc mux pids pids_all client now)"
proof -
  have "ServiceByID c (svcID svc) = Some svc" "MuxByID c (mxID mux) = Some mux"
      "svcMuxID svc = mxID mux"
    using lab_catalog.tune_service [OF wf match] lab_catalog.tune_mux [OF wf match]
      lab_catalog.tune_same_mux [OF wf match] by simp_all
  moreover have "pids_all \<longrightarrow> pids = []"
    using requestedPIDs_shape [OF pids] .
  ultimately show ?thesis by (simp add: session_ok_def new_session_def session_states_def)
qed

lemma lab_Setup:
  assumes inv: "lab_inv m" and fresh: "mSessions m sid = None"
  shows "lab_inv (snd (Setup sid q client m))"
proof (cases "MatchService (mCatalog m) q")
  case (Inl e)
  then show ?thesis using inv by (simp add: Setup_def lab_record)
next
  case (Inr p)
  obtain svc mux where p: "p = (svc, mux)" by (cases p)
  obtain now m0 where now: "time_now m = (now, m0)" by (cases "time_now m")
  then have m0: "m0 = snd (time_now m)" by simp
  obtain sc m1 where sc: "scenarioAtLocked now m0 = (sc, m1)" by (cases "scenarioAtLocked now m0")
  then have m1: "m1 = snd (scenarioAtLocked now m0)" by simp
  have inv1: "lab_inv m1" unfolding m1 m0 using inv by (simp add: lab_scenarioAt)
  have same: "mCatalog m1 = mCatalog m" "mSessions m1 = mSessions m" unfolding m1 m0 by simp_all
  have good: "lab_inv (recordLocked e (recomputeTunerFrontendLocked i now
      (addSessionToTunerLocked i sid (m2\<lparr>mSessions := (mSessions m2)(sid \<mapsto>
        new_session sid i svc mux pids pids_all client now)\<rparr>))))"
    if "requestedPIDs q svc = Inr (pids, pids_all)"
      "allocateTunerLocked (mxID mux) now m1 = (Inr i, m2)" for pids pids_all i m2 e
    using inv1 fresh that same session_ok_new [OF lab_wf [OF inv] Inr [unfolded p] that(1)]
    by (intro lab_record lab_recompute_one lab_attach [OF inv1 _ that(2)])
      (simp_all add: new_session_def)
  have full: "lab_inv (recordLocked e m2)"
    if "allocateTunerLocked (mxID mux) now m1 = (Inl x, m2)" for x m2 e
    using allocate_cases [OF lab_pool [OF inv1] that] inv1 by (metis lab_record sum.distinct(1))
  show ?thesis
    using inv1 good full
    by (simp add: Setup_def Inr p now sc Let_def lab_record split: sum.splits prod.splits)
qed


text \<open>The methods that change one session record keep its tuner, mux and service.\<close>

definition same_home :: "session \<Rightarrow> session \<Rightarrow> bool" where
  "same_home ses ses' \<longleftrightarrow> sesID ses' = sesID ses \<and> sesTunerID ses' = sesTunerID ses \<and>
     sesMuxID ses' = sesMuxID ses \<and> sesServiceID ses' = sesServiceID ses \<and>
     sesService ses' = sesService ses"

lemma lab_change:
  assumes inv: "lab_inv m" and ses: "mSessions m sid = Some ses"
    and upd: "mSessions m' = (mSessions m)(sid \<mapsto> ses')" and same: "same_home ses ses'"
    and ok: "sesState ses' \<in> set session_states" "sesPIDsAll ses' \<longrightarrow> sesPIDs ses' = []"
    and m': "mCatalog m' = mCatalog m"
      "mTuners m' = mTuners m" "mScenario m' = mScenario m" "mTimeline m' = mTimeline m"
      "length (mEvents m') \<le> 200"
  shows "lab_inv m'"
proof -
  have "session_ok (mCatalog m) sid ses'"
    using sessions_ok_get [OF lab_sessions [OF inv] ses] same ok
    by (simp add: session_ok_def same_home_def split: option.splits)
  then show ?thesis
    using lab_parts [OF inv] upd m' same ses
    by (simp add: lab_inv_def sessions_ok_upd pool_session_update same_home_def)
qed

lemma lab_session_state:
  "lab_inv m \<Longrightarrow> mSessions m sid = Some ses \<Longrightarrow> sesState ses \<in> set session_states"
  and lab_session_pids:
  "lab_inv m \<Longrightarrow> mSessions m sid = Some ses \<Longrightarrow> sesPIDsAll ses \<longrightarrow> sesPIDs ses = []"
  using sessions_ok_get [OF lab_sessions] by (auto simp: session_ok_def)

lemmas lab_session = lab_session_state lab_session_pids lab_events

lemmas session_change = Let_def time_now_def same_home_def session_states_def mEvents_recordLocked
  length_lastn

lemma lab_Play: "lab_inv m \<Longrightarrow> lab_inv (snd (Play sid m))"
  by (cases "mSessions m sid", simp add: Play_def, simp add: Play_def session_change,
      rule lab_change, assumption, assumption, simp)
    (auto simp: session_change dest: lab_session)

lemma lab_SetRTPTransportDetails: "lab_inv m \<Longrightarrow> lab_inv (snd (SetRTPTransportDetails sid tr dest p q ch ch' m))"
  by (cases "mSessions m sid", simp add: SetRTPTransportDetails_def, simp add: SetRTPTransportDetails_def session_change,
      rule lab_change, assumption, assumption, simp)
    (auto simp: session_change dest: lab_session)

lemma lab_Touch: "lab_inv m \<Longrightarrow> lab_inv (snd (Touch sid now m))"
  by (cases "mSessions m sid", simp add: Touch_def, simp add: Touch_def session_change,
      rule lab_change, assumption, assumption, simp)
    (auto simp: session_change dest: lab_session)

lemma lab_Pause: "lab_inv m \<Longrightarrow> lab_inv (snd (Pause sid m))"
  by (cases "mSessions m sid", simp add: Pause_def, simp add: Pause_def session_change,
      rule lab_change, assumption, assumption, simp)
    (auto simp: session_change dest: lab_session)


lemma lab_SetRTPTransport: "lab_inv m \<Longrightarrow> lab_inv (snd (SetRTPTransport sid tr dest m))"
  by (simp add: SetRTPTransport_def lab_SetRTPTransportDetails split: prod.splits)

lemma lab_RecordRTPSentAt: "lab_inv m \<Longrightarrow> lab_inv (snd (RecordRTPSentAt sid n now m))"
  by (cases "mSessions m sid", simp add: RecordRTPSentAt_def,
      simp add: RecordRTPSentAt_def session_change split: prod.splits, intro conjI impI allI;
      rule lab_change, assumption, assumption, force)
    (auto simp: session_change dest: lab_session)

lemma lab_RecordRTPSent: "lab_inv m \<Longrightarrow> lab_inv (snd (RecordRTPSent sid n m))"
  by (simp add: RecordRTPSent_def time_now_def lab_RecordRTPSentAt)

lemma lab_UpdatePIDs:
  assumes inv: "lab_inv m"
  shows "lab_inv (snd (UpdatePIDs sid q m))"
proof (cases "mSessions m sid")
  case None
  then show ?thesis using inv by (simp add: UpdatePIDs_def split: option.splits)
next
  case (Some ses)
  have pids: "pids_all \<longrightarrow> pids = []"
    if "updated_pids vs (sesPIDs ses, sesPIDsAll ses) = Inr (pids, pids_all)" for vs pids pids_all
    using updated_pids_shape [OF that] lab_session_pids [OF inv Some] by blast
  have upd: "lab_inv (recordLocked e (m\<lparr>mReads := n, mSessions := (mSessions m)(sid \<mapsto>
      ses\<lparr>sesPIDs := pids, sesPIDsAll := pids_all, sesUpdatedAt := now\<rparr>)\<rparr>))"
    if "pids_all \<longrightarrow> pids = []" for pids pids_all now n e
    by (rule lab_change [OF inv Some], simp)
      (use that lab_session [OF inv] Some in \<open>auto simp: session_change\<close>)
  show ?thesis
    using inv Some pids upd
    by (auto simp: UpdatePIDs_def Let_def time_now_def split: option.splits sum.splits)
qed

section \<open>Dropping sessions\<close>

lemma lab_drop_session:
  assumes inv: "lab_inv m" and ses: "mSessions m sid = Some ses"
  shows "lab_inv (drop_session ty sid ses m)"
proof -
  obtain t where t: "t \<in> set (mTuners m)" "tunID t = sesTunerID ses"
    using pool_session [OF lab_pool [OF inv] ses] by blast
  let ?rest = "filter (\<lambda>s. s \<noteq> sid) (tunSessions t)"
  let ?ss = "(mSessions m)(sid := None)"
  have find: "find (\<lambda>u. tunID u = sesTunerID ses) (mTuners m) = Some t"
    using find_key [OF pool_distinct [OF lab_pool [OF inv]] t(1)] t(2) by simp
  have pool: "pool_inv (mTuners (removeSessionFromTunerLocked (sesTunerID ses) sid
      (m\<lparr>mSessions := ?ss\<rparr>))) ?ss"
  proof (cases "?rest = []")
    case True
    let ?g = "\<lambda>u. u\<lparr>tunSessions := [], tunState := ''idle'', tunMuxID := '''',
      tunTuneStartedAt := 0, tunFrontend := idleFrontend\<rparr>"
    have "pool_inv (update_tuner (tunID t) ?g (mTuners m)) ?ss"
      by (rule pool_detach [OF lab_pool [OF inv] ses t]) (use True in \<open>simp_all add: tuner_shape_def\<close>)
    then show ?thesis
      using True find t(2) by (simp add: removeSessionFromTunerLocked_def Let_def)
  next
    case False
    let ?g = "\<lambda>u. u\<lparr>tunSessions := ?rest\<rparr>"
    have "pool_inv (update_tuner (tunID t) ?g (mTuners m)) ?ss"
      by (rule pool_detach [OF lab_pool [OF inv] ses t]) (use False in simp_all)
    then show ?thesis
      using False find t(2)
      by (simp add: removeSessionFromTunerLocked_def Let_def time_now_def pool_recompute_one)
  qed
  show ?thesis
    unfolding drop_session_def Let_def
    by (rule lab_record) (use lab_parts [OF inv] pool in \<open>simp add: lab_inv_def sessions_ok_del\<close>)
qed

lemma lab_Teardown: "lab_inv m \<Longrightarrow> lab_inv (Teardown sid m)"
  by (cases "mSessions m sid") (simp_all add: Teardown_def lab_drop_session)

lemma lab_expire_one: "lab_inv (snd st) \<Longrightarrow> lab_inv (snd (expire_one now timeout st sid))"
  by (auto simp: expire_one_def lab_drop_session split: option.splits prod.splits)

lemma lab_expire_fold:
  "lab_inv (snd st) \<Longrightarrow> lab_inv (snd (foldl (expire_one now timeout) st order))"
  by (induction order arbitrary: st) (simp_all add: lab_expire_one)

lemma lab_ExpireSessions: "lab_inv m \<Longrightarrow> lab_inv (snd (ExpireSessions order now timeout m))"
  using lab_expire_fold [of "([], m)" now timeout order]
  by (cases "foldl (expire_one now timeout) ([], m) order") (simp add: ExpireSessions_def)

section \<open>Status, reset and the fresh manager\<close>

lemma lab_StatusAt: "lab_inv m \<Longrightarrow> lab_inv (snd (StatusAt order now m))"
  by (simp add: StatusAt_def Let_def lab_scenarioAt lab_recompute_all)

lemma lab_Status: "lab_inv m \<Longrightarrow> lab_inv (snd (Status order m))"
  by (simp add: Status_def time_now_def lab_StatusAt)

lemma lab_Reset:
  assumes inv: "lab_inv m"
  shows "lab_inv (Reset m)"
proof -
  let ?blank = "\<lambda>t. t\<lparr>tunState := ''idle'', tunMuxID := '''', tunSessions := [],
    tunTuneStartedAt := 0, tunFrontend := idleFrontend\<rparr>"
  have "pool_inv (map ?blank (mTuners m)) Map.empty"
    using pool_distinct [OF lab_pool [OF inv]]
    by (intro pool_blank) (auto simp: comp_def tuner_shape_def)
  moreover have "sessions_ok c Map.empty" for c by (simp add: sessions_ok_def)
  moreover have "timeline_ok c sc None" for c sc by (simp add: timeline_ok_def)
  ultimately show ?thesis
    using lab_parts [OF inv] unfolding Reset_def Let_def
    by (intro lab_record) (simp add: lab_inv_def scenario_ok_normal)
qed

lemma lab_NewManager:
  assumes "wf_catalog c"
  shows "lab_inv (NewManager c n clock)"
proof -
  have "pool_inv (map (\<lambda>i. \<lparr>tunID = int i + 1, tunState = ''idle'', tunMuxID = '''',
      tunSessions = [], tunFrontend = idleFrontend, tunTuneStartedAt = 0\<rparr>) [0..<k]) Map.empty" for k
    by (rule pool_blank) (auto simp: comp_def distinct_map inj_on_def tuner_shape_def)
  then show ?thesis
    using assms by (simp add: NewManager_def Let_def lab_inv_def sessions_ok_def timeline_ok_def
        scenario_ok_normal)
qed


section \<open>The manager as a state machine\<close>

text \<open>A fresh manager over a well-formed catalog, and one step for each method. The sessions are set
  up under fresh ids (the RTSP server counts them up), and a range over the session map yields each
  key once.\<close>

definition manager_init :: "manager \<Rightarrow> bool" where
  "manager_init m \<longleftrightarrow> (\<exists>c n clock. wf_catalog c \<and> m = NewManager c n clock)"

inductive manager_step :: "manager \<Rightarrow> manager \<Rightarrow> bool" where
  step_Setup: "mSessions m sid = None \<Longrightarrow> manager_step m (snd (Setup sid q client m))"
| step_Play: "manager_step m (snd (Play sid m))"
| step_Transport: "manager_step m (snd (SetRTPTransportDetails sid tr dest p q ch ch' m))"
| step_TransportDefault: "manager_step m (snd (SetRTPTransport sid tr dest m))"
| step_RTPSentAt: "manager_step m (snd (RecordRTPSentAt sid n now m))"
| step_RTPSent: "manager_step m (snd (RecordRTPSent sid n m))"
| step_Pause: "manager_step m (snd (Pause sid m))"
| step_UpdatePIDs: "manager_step m (snd (UpdatePIDs sid q m))"
| step_Touch: "manager_step m (snd (Touch sid now m))"
| step_Expire: "distinct order \<Longrightarrow> set order = dom (mSessions m) \<Longrightarrow>
    manager_step m (snd (ExpireSessions order now timeout m))"
| step_Teardown: "manager_step m (Teardown sid m)"
| step_Status: "manager_step m (snd (Status order m))"
| step_StatusAt: "manager_step m (snd (StatusAt order now m))"
| step_Reset: "manager_step m (Reset m)"
| step_ScenarioAt: "manager_step m (snd (ScenarioAt now m))"
| step_Scenario: "manager_step m (snd (Scenario m))"
| step_SetScenario: "manager_step m (snd (SetScenarioOptions name sid mux dur m))"
| step_SetScenarioAt: "manager_step m (snd (SetScenarioOptionsAt name sid mux dur now m))"
| step_SetTimeline: "manager_step m (snd (SetScenarioTimeline steps m))"
| step_SetTimelineAt: "manager_step m (snd (SetScenarioTimelineAt steps now m))"

lemmas lab_preserved = lab_Setup lab_Play lab_SetRTPTransportDetails lab_SetRTPTransport
  lab_RecordRTPSentAt lab_RecordRTPSent lab_Pause lab_UpdatePIDs lab_Touch lab_ExpireSessions
  lab_Teardown lab_Status lab_StatusAt lab_Reset lab_scenarioAt lab_Scenario
  lab_SetScenarioOptions lab_SetScenarioOptionsAt lab_SetScenarioTimeline lab_SetScenarioTimelineAt

lemma lab_step: "manager_step m m' \<Longrightarrow> lab_inv m \<Longrightarrow> lab_inv m'"
  by (induction rule: manager_step.induct) (simp_all add: lab_preserved ScenarioAt_def)

interpretation lab: inductive_invariant manager_init manager_step lab_inv
  by unfold_locales (auto simp: manager_init_def lab_NewManager intro: lab_step)

end
