(* ===== verification/DemoLab.thy ===== *)
theory DemoLab
  imports ManagerInv
begin

text \<open>
  A small laboratory on which the properties of the manager are instantiated: two muxes with one
  service each, one tuner, and its states before and after a first session.
\<close>

definition demo_catalog :: catalog where
  "demo_catalog = \<lparr>catMuxes =
      [\<lparr>mxID = ''a'', mxSrc = 1, mxFrequency = 11, mxPolarization = ''h'', mxSymbolRate = 22,
        mxDelivery = ''dvbs2''\<rparr>,
       \<lparr>mxID = ''b'', mxSrc = 1, mxFrequency = 12, mxPolarization = ''v'', mxSymbolRate = 22,
        mxDelivery = ''dvbs2''\<rparr>],
     catServices =
      [\<lparr>svcID = ''one'', svcNumber = 1, svcName = ''One'', svcGroup = ''DE'', svcTvgID = ''one.de'',
        svcMuxID = ''a'', svcServiceID = 100, svcPMTPID = 100, svcVideoPID = 101, svcAudioPID = 102\<rparr>,
       \<lparr>svcID = ''two'', svcNumber = 2, svcName = ''Two'', svcGroup = ''DE'', svcTvgID = ''two.de'',
        svcMuxID = ''b'', svcServiceID = 200, svcPMTPID = 200, svcVideoPID = 201, svcAudioPID = 202\<rparr>]\<rparr>"

definition query_one :: string where
  "query_one = ''src=1&freq=11&pol=h&msys=dvbs2&sr=22&pids=100,101,102''"

definition query_two :: string where
  "query_two = ''src=1&freq=12&pol=v&msys=dvbs2&sr=22&pids=all''"

text \<open>The clock reads 5 ns and then one millisecond more at each reading.\<close>

definition demo_lab :: manager where
  "demo_lab = NewManager demo_catalog 1 (\<lambda>n. millisecond * int n + 5)"

definition demo_busy :: manager where
  "demo_busy = snd (Setup ''s1'' query_one ''10.0.0.2'' demo_lab)"

definition demo_steps :: "scenario_timeline_step list" where
  "demo_steps =
     [\<lparr>stAtMS = 0, stName = ''normal'', stServiceID = '''', stMuxID = '''', stDurationMin = 0\<rparr>,
      \<lparr>stAtMS = 500, stName = ''lock_loss'', stServiceID = ''one'', stMuxID = '''', stDurationMin = 0\<rparr>]"

definition demo_timeline :: manager where
  "demo_timeline = snd (SetScenarioTimelineAt demo_steps 1000 demo_lab)"

lemma demo_wf: "wf_catalog demo_catalog"
  by (simp add: wf_catalog_def demo_catalog_def)

lemma demo_lab_init: "manager_init demo_lab"
  unfolding manager_init_def demo_lab_def using demo_wf by blast

lemma demo_lab_inv: "lab_inv demo_lab"
  unfolding demo_lab_def by (rule lab_NewManager [OF demo_wf])

lemma demo_lab_sessions: "mSessions demo_lab = Map.empty"
  by (simp add: demo_lab_def NewManager_def Let_def)

lemma demo_busy_inv: "lab_inv demo_busy"
  unfolding demo_busy_def by (rule lab_Setup [OF demo_lab_inv]) (simp add: demo_lab_sessions)

lemma demo_busy_step: "manager_step demo_lab demo_busy"
  unfolding demo_busy_def by (rule step_Setup) (simp add: demo_lab_sessions)

lemma demo_busy_reach: "reach manager_init manager_step demo_busy"
  by (rule reach_step, rule reach_init, rule demo_lab_init, rule demo_busy_step)

lemma demo_timeline_inv: "lab_inv demo_timeline"
  unfolding demo_timeline_def by (rule lab_SetScenarioTimelineAt [OF demo_lab_inv])

lemma demo_places: "map (\<lambda>t. (tunState t, tunMuxID t, tunSessions t)) (mTuners demo_busy) =
    [(''tuned'', ''a'', [''s1''])]"
  by code_simp

end
