(* ===== verification/ManagerSpec.thy ===== *)
theory ManagerSpec
  imports DemoLab
begin

text \<open>
  What the lab manager promises: the pool of tuners on every reachable state, when \<open>Setup\<close>
  succeeds and what it and \<open>Teardown\<close> change, expiry, the event log, the timeline, the frontends
  and the reset.
\<close>

section \<open>The pool\<close>

text \<open>C1. On every state that the manager reaches by its methods: tuner ids are distinct, an idle
  tuner is blank and a tuned one has sessions, no two tuners are tuned to the same mux, the tuners'
  session lists and the sessions' own records agree on who is where, every session's service and mux
  are in the catalog, the log holds at most 200 events, the active scenario is supported and its
  target exists, and a running timeline is a validated one whose current step is the active
  scenario.\<close>

theorem manager_reachable_inv:
  assumes "reach manager_init manager_step m"
  shows "lab_inv m"
  by (rule lab.reach_inv [OF assms])

theorem manager_reachable_inv_witness: "lab_inv demo_busy"
  by (rule manager_reachable_inv [OF demo_busy_reach])

text \<open>Which muxes the sessions are on.\<close>

definition muxes_in_use :: "manager \<Rightarrow> string set" where
  "muxes_in_use m = (\<lambda>sid. sesMuxID (the (mSessions m sid))) ` dom (mSessions m)"

lemma muxes_in_use_tuned:
  assumes "lab_inv m"
  shows "muxes_in_use m = tunMuxID ` tuned_tuners (mTuners m)"
proof (intro equalityI subsetI)
  note pool = lab_pool [OF assms]
  fix x assume "x \<in> muxes_in_use m"
  then obtain sid ses where "mSessions m sid = Some ses" "x = sesMuxID ses"
    unfolding muxes_in_use_def by auto
  then obtain t where t: "t \<in> set (mTuners m)" "tunMuxID t = x" "sid \<in> set (tunSessions t)"
    using pool_session [OF pool] by metis
  then have "tunState t = ''tuned''" using pool_shape [OF pool t(1)] by (auto simp: tuner_shape_def)
  with t show "x \<in> tunMuxID ` tuned_tuners (mTuners m)" by (auto simp: tuned_tuners_def)
next
  note pool = lab_pool [OF assms]
  fix x assume "x \<in> tunMuxID ` tuned_tuners (mTuners m)"
  then obtain t where t: "t \<in> set (mTuners m)" "tunState t = ''tuned''" "tunMuxID t = x"
    by (auto simp: tuned_tuners_def)
  then obtain sid where "sid \<in> set (tunSessions t)"
    using pool_shape [OF pool t(1)] by (cases "tunSessions t") (auto simp: tuner_shape_def)
  then obtain ses where "mSessions m sid = Some ses" "sesMuxID ses = tunMuxID t"
    using pool_listed [OF pool t(1)] by metis
  then show "x \<in> muxes_in_use m"
    using t(3) unfolding muxes_in_use_def by force
qed

text \<open>The sessions of a reachable manager are on at most as many muxes as it has tuners, and on
  exactly as many as it has tuned tuners.\<close>

theorem muxes_bounded_by_tuners:
  assumes "reach manager_init manager_step m"
  shows "card (muxes_in_use m) = length (filter (\<lambda>t. tunState t = ''tuned'') (mTuners m)) \<and>
    card (muxes_in_use m) \<le> length (mTuners m)"
proof -
  note inv = lab.reach_inv [OF assms]
  have "distinct (mTuners m)" using pool_distinct [OF lab_pool [OF inv]] by (simp add: distinct_map)
  moreover have "tuned_tuners (mTuners m) = set (filter (\<lambda>t. tunState t = ''tuned'') (mTuners m))"
    by (auto simp: tuned_tuners_def)
  ultimately have "card (tuned_tuners (mTuners m)) =
      length (filter (\<lambda>t. tunState t = ''tuned'') (mTuners m))"
    by (metis distinct_card distinct_filter)
  then show ?thesis
    using card_image [OF pool_inj [OF lab_pool [OF inv]]] muxes_in_use_tuned [OF inv]
    by simp
qed

theorem muxes_bounded_by_tuners_witness:
  "card (muxes_in_use demo_busy) = 1 \<and> length (mTuners demo_busy) = 1"
proof -
  have "length (mTuners demo_busy) = 1"
    using arg_cong [OF demo_places, of length] by simp
  moreover have "length (filter (\<lambda>t. tunState t = ''tuned'') (mTuners demo_busy)) = 1"
  proof -
    have "map tunState (mTuners demo_busy) = [''tuned'']"
      using arg_cong [OF demo_places, of "map fst"] by (simp add: comp_def)
    then obtain t where "mTuners demo_busy = [t]" "tunState t = ''tuned''" by auto
    then show ?thesis by simp
  qed
  ultimately show ?thesis using muxes_bounded_by_tuners [OF demo_busy_reach] by simp
qed

section \<open>Setup\<close>

text \<open>The three scenarios that reject a setup.\<close>

definition setup_blocked :: "scenario \<Rightarrow> service \<Rightarrow> mux \<Rightarrow> bool" where
  "setup_blocked sc svc mux \<longleftrightarrow>
     (scName sc = ScenarioNoSignal \<and> AppliesTo sc (svcID svc) (mxID mux)) \<or>
     scName sc = ScenarioTunerWedged \<or> scName sc = ScenarioTunerBusy"

definition setup_scenario :: "manager \<Rightarrow> scenario \<times> manager" where
  "setup_scenario m = (let (now, m) = time_now m in scenarioAtLocked now m)"

text \<open>The abstract pool: for each tuner its id, state, mux and sessions, without its telemetry.\<close>

definition tuner_place :: "tuner \<Rightarrow> int \<times> string \<times> string \<times> string list" where
  "tuner_place t = (tunID t, tunState t, tunMuxID t, tunSessions t)"

definition pool_places :: "manager \<Rightarrow> (int \<times> string \<times> string \<times> string list) list" where
  "pool_places m = map tuner_place (mTuners m)"

fun attach_place :: "int \<Rightarrow> string \<Rightarrow> string \<Rightarrow> int \<times> string \<times> string \<times> string list
    \<Rightarrow> int \<times> string \<times> string \<times> string list" where
  "attach_place i mux sid (j, state, mx, sids) =
     (if j = i then (j, ''tuned'', mux, sids @ [sid]) else (j, state, mx, sids))"

fun detach_place :: "int \<Rightarrow> string \<Rightarrow> int \<times> string \<times> string \<times> string list
    \<Rightarrow> int \<times> string \<times> string \<times> string list" where
  "detach_place i sid (j, state, mx, sids) =
     (if j \<noteq> i then (j, state, mx, sids)
      else if filter (\<lambda>s. s \<noteq> sid) sids = [] then (j, ''idle'', '''', [])
      else (j, state, mx, filter (\<lambda>s. s \<noteq> sid) sids))"

lemma tuner_place_frontend [simp]: "tuner_place (t\<lparr>tunFrontend := f\<rparr>) = tuner_place t"
  by (simp add: tuner_place_def)

lemma update_tuner_keep:
  "(\<And>t. h (f t) = h t) \<Longrightarrow> map h (update_tuner i f ts) = map h ts"
  by (induction ts) auto

lemma places_recompute_one [simp]:
  "pool_places (recomputeTunerFrontendLocked i now m) = pool_places m"
  by (simp add: pool_places_def recomputeTunerFrontendLocked_def update_tuner_keep)

lemma places_recompute_fold:
  "pool_places (foldl (\<lambda>m t. recomputeTunerFrontendLocked (tunID t) now m) m ts) = pool_places m"
  by (induction ts arbitrary: m) simp_all

lemma places_recompute_all [simp]:
  "pool_places (recomputeAllFrontendsLocked now m) = pool_places m"
  by (simp add: recomputeAllFrontendsLocked_def places_recompute_fold)

lemma places_record [simp]: "pool_places (recordLocked e m) = pool_places m"
  by (simp add: pool_places_def)

lemma places_frame [simp]:
  "pool_places (m\<lparr>mReads := n\<rparr>) = pool_places m" "pool_places (m\<lparr>mSessions := ss\<rparr>) = pool_places m"
  "pool_places (m\<lparr>mTimeline := tml, mScenario := sc, mScenarioChangedAt := now\<rparr>) = pool_places m"
  by (simp_all add: pool_places_def)

lemma places_scenarioAt [simp]: "pool_places (snd (scenarioAtLocked now m)) = pool_places m"
  by (simp add: scenarioAtLocked_def Let_def split: option.splits)

lemma places_setup_scenario:
  "pool_places (snd (setup_scenario m)) = pool_places m"
  by (simp add: setup_scenario_def time_now_def)

lemma setup_scenario_frame:
  "mCatalog (snd (setup_scenario m)) = mCatalog m" "mSessions (snd (setup_scenario m)) = mSessions m"
  by (simp_all add: setup_scenario_def time_now_def)

lemma lab_setup_scenario: "lab_inv m \<Longrightarrow> lab_inv (snd (setup_scenario m))"
  by (simp add: setup_scenario_def time_now_def lab_scenarioAt)


definition has_room :: "string \<Rightarrow> tuner list \<Rightarrow> bool" where
  "has_room mux ts \<longleftrightarrow> (\<exists>t\<in>set ts. tunState t = ''idle'' \<or> tunMuxID t = mux)"

lemma has_room_places:
  assumes "pool_places m = pool_places m'"
  shows "has_room mux (mTuners m) = has_room mux (mTuners m')"
proof -
  have "has_room mux (mTuners m) \<longleftrightarrow>
      (\<exists>(j, state, mx, sids)\<in>set (pool_places m). state = ''idle'' \<or> mx = mux)" for m
    by (simp add: has_room_def tuner_place_def pool_places_def)
  then show ?thesis using assms by simp
qed

lemma allocate_full_iff:
  assumes "pool_inv (mTuners m) ss" "allocateTunerLocked mux now m = (r, m')"
  shows "(\<exists>i. r = Inr i) \<longleftrightarrow> has_room mux (mTuners m)"
  using assms
proof (cases rule: allocate_cases [where sid = "''''"])
  case full
  then show ?thesis by (fastforce simp: has_room_def)
next
  case (room t)
  then show ?thesis by (auto simp: has_room_def)
qed

text \<open>The successful path of \<open>Setup\<close> from allocation on.\<close>

definition setup_granted :: "string \<Rightarrow> string \<Rightarrow> service \<Rightarrow> mux \<Rightarrow> int list \<times> bool \<Rightarrow> time \<Rightarrow> int
    \<Rightarrow> manager \<Rightarrow> (lab_error + setup_result) \<times> manager" where
  "setup_granted sid client svc mux pids now i m =
     (let ses = new_session sid i svc mux (fst pids) (snd pids) client now;
          m = addSessionToTunerLocked i sid (m\<lparr>mSessions := (mSessions m)(sid \<mapsto> ses)\<rparr>)
      in (Inr \<lparr>srSession = ses, srService = svc, srMux = mux, srTunerID = i\<rparr>,
          recordLocked (new_event ''session_setup'' sid i (svcID svc) (mxID mux) '''')
            (recomputeTunerFrontendLocked i now m)))"

lemma Setup_cases:
  obtains (invalid) e where "MatchService (mCatalog m) q = Inl e"
      "fst (Setup sid q client m) = Inl e" "\<exists>ev. snd (Setup sid q client m) = recordLocked ev m"
  | (blocked) svc mux e ev where "MatchService (mCatalog m) q = Inr (svc, mux)"
      "setup_blocked (fst (setup_scenario m)) svc mux"
      "Setup sid q client m = (Inl e, recordLocked ev (snd (setup_scenario m)))"
  | (pids) svc mux e ev where "MatchService (mCatalog m) q = Inr (svc, mux)"
      "\<not> setup_blocked (fst (setup_scenario m)) svc mux" "requestedPIDs q svc = Inl e"
      "Setup sid q client m = (Inl ErrInvalidTune, recordLocked ev (snd (setup_scenario m)))"
  | (busy) svc mux pids e ev m2 where "MatchService (mCatalog m) q = Inr (svc, mux)"
      "\<not> setup_blocked (fst (setup_scenario m)) svc mux" "requestedPIDs q svc = Inr pids"
      "allocateTunerLocked (mxID mux) (mClock m (mReads m)) (snd (setup_scenario m)) = (Inl e, m2)"
      "Setup sid q client m = (Inl e, recordLocked ev m2)"
  | (granted) svc mux pids i m2 where "MatchService (mCatalog m) q = Inr (svc, mux)"
      "\<not> setup_blocked (fst (setup_scenario m)) svc mux" "requestedPIDs q svc = Inr pids"
      "allocateTunerLocked (mxID mux) (mClock m (mReads m)) (snd (setup_scenario m)) = (Inr i, m2)"
      "Setup sid q client m = setup_granted sid client svc mux pids (mClock m (mReads m)) i m2"
proof (cases "MatchService (mCatalog m) q")
  case (Inl e)
  then show ?thesis by (intro invalid [of e]) (auto simp: Setup_def)
next
  case (Inr p)
  obtain svc mux where p: "p = (svc, mux)" by (cases p)
  obtain sc m1 where sc: "setup_scenario m = (sc, m1)" by (cases "setup_scenario m")
  then have sc': "scenarioAtLocked (mClock m (mReads m)) (m\<lparr>mReads := Suc (mReads m)\<rparr>) = (sc, m1)"
    by (simp add: setup_scenario_def time_now_def)
  note match = Inr [unfolded p]
  show ?thesis
  proof (cases "setup_blocked sc svc mux")
    case True
    then have "\<exists>e ev. Setup sid q client m = (Inl e, recordLocked ev m1)"
      by (cases "scName sc = ScenarioNoSignal \<and> AppliesTo sc (svcID svc) (mxID mux)";
          cases "scName sc = ScenarioTunerWedged"; cases "scName sc = ScenarioTunerBusy")
        (auto simp: Setup_def match sc' time_now_def Let_def setup_blocked_def)
    then obtain e ev where "Setup sid q client m = (Inl e, recordLocked ev m1)" by blast
    then show ?thesis using True match sc by (intro blocked) auto
  next
    case free: False
    show ?thesis
    proof (cases "requestedPIDs q svc")
      case (Inl e)
      then show ?thesis
        using free match sc
        by (intro pids) (auto simp: Setup_def sc' time_now_def Let_def setup_blocked_def)
    next
      case (Inr ps)
      obtain r m2 where alloc: "allocateTunerLocked (mxID mux) (mClock m (mReads m)) m1 = (r, m2)"
        by fastforce
      show ?thesis
        using free match sc Inr alloc
        by (cases r; cases ps)
          (auto simp: Setup_def sc' time_now_def Let_def setup_blocked_def setup_granted_def
            intro: busy granted)
    qed
  qed
qed

text \<open>C12. \<open>Setup\<close> succeeds exactly when the query names a service and its mux, the active scenario
  does not reject setups for them, the PID list is valid, and some tuner is idle or already on the
  mux.\<close>

theorem Setup_succeeds_iff:
  assumes "lab_inv m"
  shows "(\<exists>r. fst (Setup sid q client m) = Inr r) \<longleftrightarrow>
    (\<exists>svc mux pids. MatchService (mCatalog m) q = Inr (svc, mux) \<and>
       \<not> setup_blocked (fst (setup_scenario m)) svc mux \<and> requestedPIDs q svc = Inr pids \<and>
       has_room (mxID mux) (mTuners m))"
proof -
  note pool = lab_pool [OF lab_setup_scenario [OF assms]]
  have room: "has_room mux (mTuners (snd (setup_scenario m))) = has_room mux (mTuners m)" for mux
    by (rule has_room_places [OF places_setup_scenario])
  show ?thesis
  proof (cases rule: Setup_cases [of m q sid client])
    case (busy svc mux pids e ev m2)
    with allocate_full_iff [OF pool busy(4)] room show ?thesis by simp
  next
    case (granted svc mux pids i m2)
    with allocate_full_iff [OF pool granted(4)] room show ?thesis
      by (simp add: setup_granted_def Let_def)
  qed auto
qed


theorem Setup_succeeds_iff_witness:
  "(\<exists>r. fst (Setup ''s2'' query_one ''10.0.0.3'' demo_busy) = Inr r) \<and>
   \<not> (\<exists>r. fst (Setup ''s2'' query_two ''10.0.0.3'' demo_busy) = Inr r)"
proof
  have "\<exists>svc mux pids. MatchService (mCatalog demo_busy) query_one = Inr (svc, mux) \<and>
      \<not> setup_blocked (fst (setup_scenario demo_busy)) svc mux \<and> requestedPIDs query_one svc = Inr pids \<and>
      has_room (mxID mux) (mTuners demo_busy)"
  proof (intro exI conjI)
    show "MatchService (mCatalog demo_busy) query_one = Inr (hd (catServices demo_catalog), hd (catMuxes demo_catalog))"
      by code_simp
    show "requestedPIDs query_one (hd (catServices demo_catalog)) = Inr ([100, 101, 102], False)"
      by code_simp
    show "\<not> setup_blocked (fst (setup_scenario demo_busy)) (hd (catServices demo_catalog)) (hd (catMuxes demo_catalog))"
      by code_simp
    show "has_room (mxID (hd (catMuxes demo_catalog))) (mTuners demo_busy)" by code_simp
  qed
  then show "\<exists>r. fst (Setup ''s2'' query_one ''10.0.0.3'' demo_busy) = Inr r"
    unfolding Setup_succeeds_iff [OF demo_busy_inv] .
  have match: "MatchService (mCatalog demo_busy) query_two =
      Inr (hd (tl (catServices demo_catalog)), hd (tl (catMuxes demo_catalog)))"
    by code_simp
  have "\<not> has_room (mxID (hd (tl (catMuxes demo_catalog)))) (mTuners demo_busy)" by code_simp
  then show "\<not> (\<exists>r. fst (Setup ''s2'' query_two ''10.0.0.3'' demo_busy) = Inr r)"
    unfolding Setup_succeeds_iff [OF demo_busy_inv] match by auto
qed

lemma places_update:
  assumes "distinct (map tunID ts)" "\<And>t. t \<in> set ts \<Longrightarrow> tunID t = i \<Longrightarrow> tuner_place (f t) = h (tuner_place t)"
    "\<And>t. tunID t \<noteq> i \<Longrightarrow> h (tuner_place t) = tuner_place t"
  shows "map tuner_place (update_tuner i f ts) = map h (map tuner_place ts)"
  unfolding update_tuner_map [OF assms(1)] using assms(2,3) by simp

lemma places_attach:
  assumes inv: "pool_inv (mTuners m) ss" and alloc: "allocateTunerLocked mux now m = (Inr i, m')"
  shows "pool_places (addSessionToTunerLocked i sid m') = map (attach_place i mux sid) (pool_places m)"
proof -
  obtain t where t: "i = tunID t" "t \<in> set (mTuners m)"
      "tunState t = ''idle'' \<or> tunState t = ''tuned'' \<and> tunMuxID t = mux"
      "mTuners (addSessionToTunerLocked i sid m') =
         update_tuner i (attach_tuner mux now sid) (mTuners m)"
    using allocate_cases [OF inv alloc, of thesis sid] by simp
  show ?thesis
    unfolding pool_places_def t(4)
  proof (rule places_update [OF pool_distinct [OF inv]])
    fix u assume "u \<in> set (mTuners m)" "tunID u = i"
    then have "u = t" using same_id_eq [OF pool_distinct [OF inv] _ t(2)] t(1) by blast
    then show "tuner_place (attach_tuner mux now sid u) = attach_place i mux sid (tuner_place u)"
      using t(1,3) by (auto simp: tuner_place_def attach_tuner_def)
  qed (simp add: tuner_place_def)
qed

lemma Setup_effect':
  assumes "lab_inv m"
  shows "case Setup sid q client m of
      (Inl e, m') \<Rightarrow> mSessions m' = mSessions m \<and> pool_places m' = pool_places m
    | (Inr r, m') \<Rightarrow>
        mSessions m' = (mSessions m)(sid \<mapsto> srSession r) \<and>
        sesTunerID (srSession r) = srTunerID r \<and> sesMuxID (srSession r) = mxID (srMux r) \<and>
        sesState (srSession r) = ''setup'' \<and> sesClient (srSession r) = client \<and>
        srTunerID r \<in> tunID ` set (mTuners m) \<and>
        pool_places m' = map (attach_place (srTunerID r) (mxID (srMux r)) sid) (pool_places m)"
proof (cases rule: Setup_cases [of m q sid client])
  case invalid
  then show ?thesis by (cases "Setup sid q client m") (auto split: sum.splits)
next
  case (busy svc mux pids e ev m2)
  have "m2 = snd (setup_scenario m)"
    using allocate_cases [OF lab_pool [OF lab_setup_scenario [OF assms]] busy(4)] by blast
  with busy show ?thesis by (simp add: setup_scenario_frame places_setup_scenario)
next
  case (granted svc mux pids i m2)
  note pool = lab_pool [OF lab_setup_scenario [OF assms]]
  have sess: "mSessions m2 = mSessions m"
    by (subst allocate_frame [OF granted(4)]) (simp add: setup_scenario_frame)
  have "addSessionToTunerLocked i sid (m2\<lparr>mSessions := s\<rparr>) = (addSessionToTunerLocked i sid m2)\<lparr>mSessions := s\<rparr>" for s
    by (simp add: addSessionToTunerLocked_def)
  moreover have "i \<in> tunID ` set (mTuners m)"
  proof -
    have ids: "tunID ` set (mTuners m') = fst ` set (pool_places m')" for m'
      by (simp add: pool_places_def tuner_place_def image_image)
    have "i \<in> tunID ` set (mTuners (snd (setup_scenario m)))"
      using allocate_cases [OF pool granted(4)] by blast
    then show ?thesis by (simp add: ids places_setup_scenario)
  qed
  ultimately show ?thesis
    using granted places_attach [OF pool granted(4), of sid]
    by (simp add: setup_granted_def Let_def new_session_def sess places_setup_scenario)
qed (simp_all add: setup_scenario_frame places_setup_scenario)


text \<open>C11. What \<open>Setup\<close> changes: a failing one leaves every session and the whole pool as they
  were (only telemetry and the log may move); a successful one adds exactly the returned session,
  in state \<open>setup\<close> for the requested client, and appends it to the one tuner it names, which is then
  tuned to the service's mux.\<close>

theorem Setup_effect:
  assumes "lab_inv m"
  shows "case Setup sid q client m of
      (Inl e, m') \<Rightarrow> mSessions m' = mSessions m \<and> pool_places m' = pool_places m
    | (Inr r, m') \<Rightarrow>
        mSessions m' = (mSessions m)(sid \<mapsto> srSession r) \<and>
        sesTunerID (srSession r) = srTunerID r \<and> sesMuxID (srSession r) = mxID (srMux r) \<and>
        sesState (srSession r) = ''setup'' \<and> sesClient (srSession r) = client \<and>
        srTunerID r \<in> tunID ` set (mTuners m) \<and>
        pool_places m' = map (attach_place (srTunerID r) (mxID (srMux r)) sid) (pool_places m)"
  by (rule Setup_effect' [OF assms])

theorem Setup_effect_witness:
  "mSessions (snd (Setup ''s2'' query_two ''10.0.0.3'' demo_busy)) = mSessions demo_busy \<and>
   pool_places (snd (Setup ''s2'' query_two ''10.0.0.3'' demo_busy)) = [(1, ''tuned'', ''a'', [''s1''])]"
proof -
  have "map_sum id srTunerID (fst (Setup ''s2'' query_two ''10.0.0.3'' demo_busy)) = Inl ErrNoTunerAvailable"
    by code_simp
  then obtain e where "fst (Setup ''s2'' query_two ''10.0.0.3'' demo_busy) = Inl e"
    by (cases "fst (Setup ''s2'' query_two ''10.0.0.3'' demo_busy)") auto
  moreover have "pool_places demo_busy = [(1, ''tuned'', ''a'', [''s1''])]" by code_simp
  ultimately show ?thesis
    using Setup_effect [OF demo_busy_inv, where sid = "''s2''" and q = query_two and client = "''10.0.0.3''"]
    by (auto split: prod.splits)
qed

section \<open>Teardown\<close>

lemma sessions_drop: "mSessions (drop_session ty sid ses m) = (mSessions m)(sid := None)"
  by (simp add: drop_session_def Let_def)

lemma places_drop:
  assumes inv: "lab_inv m" and ses: "mSessions m sid = Some ses"
  shows "pool_places (drop_session ty sid ses m) =
    map (detach_place (sesTunerID ses) sid) (pool_places m)"
proof -
  note pool = lab_pool [OF inv] and dist = pool_distinct [OF lab_pool [OF inv]]
  obtain t where t: "t \<in> set (mTuners m)" "tunID t = sesTunerID ses"
    using pool_session [OF pool ses] by blast
  have find: "find (\<lambda>u. tunID u = sesTunerID ses) (mTuners m) = Some t"
    using find_key [OF dist t(1)] t(2) by simp
  let ?rest = "filter (\<lambda>s. s \<noteq> sid) (tunSessions t)"
  have upd: "map tuner_place (update_tuner (sesTunerID ses) g (mTuners m)) =
      map (detach_place (sesTunerID ses) sid) (map tuner_place (mTuners m))"
    if "tuner_place (g t) = detach_place (sesTunerID ses) sid (tuner_place t)" for g
  proof (rule places_update [OF dist])
    fix u assume "u \<in> set (mTuners m)" "tunID u = sesTunerID ses"
    then have "u = t" using same_id_eq [OF dist _ t(1)] t(2) by simp
    then show "tuner_place (g u) = detach_place (sesTunerID ses) sid (tuner_place u)"
      using that by simp
  qed (simp add: tuner_place_def)
  show ?thesis
  proof (cases "?rest = []")
    case True
    then show ?thesis
      using upd [of "\<lambda>t. t\<lparr>tunSessions := [], tunState := ''idle'', tunMuxID := '''',
          tunTuneStartedAt := 0, tunFrontend := idleFrontend\<rparr>"] find t(2)
      by (simp add: drop_session_def Let_def removeSessionFromTunerLocked_def tuner_place_def
          pool_places_def)
  next
    case False
    then show ?thesis
      using upd [of "\<lambda>t. t\<lparr>tunSessions := ?rest\<rparr>"] find t(2)
      by (simp add: drop_session_def Let_def removeSessionFromTunerLocked_def tuner_place_def
          time_now_def) (simp add: pool_places_def tuner_place_def)
  qed
qed



text \<open>Detaching what was attached gives back the place, for a tuner that keeps the pool's shape.\<close>

lemma detach_attach_place:
  assumes inv: "pool_inv (mTuners m) (mSessions m)" and fresh: "mSessions m sid = None"
    and t: "t \<in> set (mTuners m)" and mux: "tunState t = ''idle'' \<or> tunID t \<noteq> i \<or> tunMuxID t = mux"
  shows "detach_place i sid (attach_place i mux sid (tuner_place t)) = tuner_place t"
proof -
  have "sid \<notin> set (tunSessions t)"
    using pool_listed [OF inv t, of sid] fresh by force
  then have "filter (\<lambda>s. s \<noteq> sid) (tunSessions t) = tunSessions t" by (auto intro: filter_True)
  then show ?thesis
    using pool_shape [OF inv t] mux by (auto simp: tuner_place_def tuner_shape_def)
qed

lemma Setup_tuner:
  assumes inv: "lab_inv m" and ok: "fst (Setup sid q client m) = Inr r"
    and t: "t \<in> set (mTuners m)" "tunID t = srTunerID r"
  shows "tunState t = ''idle'' \<or> tunMuxID t = mxID (srMux r)"
proof (cases rule: Setup_cases [of m q sid client])
  case (granted svc mux pids i m2)
  note pool = lab_pool [OF lab_setup_scenario [OF inv]]
  have r: "i = srTunerID r" "mux = srMux r" using granted(5) ok by (auto simp: setup_granted_def Let_def)
  have "tuner_place t \<in> set (pool_places (snd (setup_scenario m)))"
    unfolding places_setup_scenario using t(1) by (simp add: pool_places_def)
  then obtain u where u: "u \<in> set (mTuners (snd (setup_scenario m)))" "tuner_place u = tuner_place t"
    unfolding pool_places_def by auto
  obtain v where v: "v \<in> set (mTuners (snd (setup_scenario m)))" "tunID v = i"
      "tunState v = ''idle'' \<or> tunMuxID v = mxID mux"
    using allocate_cases [OF pool granted(4)] by blast
  have "u = v" using same_id_eq [OF pool_distinct [OF pool] u(1) v(1)] u(2) t(2) r v(2)
    by (simp add: tuner_place_def)
  then show ?thesis using u(2) v(3) r(2) by (simp add: tuner_place_def)
qed (use ok in auto)

text \<open>Setting up a session under a fresh id and tearing it down gives back the sessions and the
  pool: no tuner, mux or session list is leaked.\<close>

theorem Setup_Teardown_roundtrip:
  assumes "lab_inv m" "mSessions m sid = None"
  shows "mSessions (Teardown sid (snd (Setup sid q client m))) = mSessions m \<and>
    pool_places (Teardown sid (snd (Setup sid q client m))) = pool_places m"
proof -
  let ?m = "snd (Setup sid q client m)"
  note eff = Setup_effect' [OF assms(1), where sid = sid and q = q and client = client]
  show ?thesis
  proof (cases "fst (Setup sid q client m)")
    case (Inl e)
    then have "mSessions ?m = mSessions m" "pool_places ?m = pool_places m"
      using eff by (auto split: prod.splits)
    then show ?thesis using assms(2) by (simp add: Teardown_def)
  next
    case (Inr r)
    let ?i = "srTunerID r" and ?mux = "mxID (srMux r)"
    have m: "mSessions ?m = (mSessions m)(sid \<mapsto> srSession r)" "sesTunerID (srSession r) = ?i"
        "pool_places ?m = map (attach_place ?i ?mux sid) (pool_places m)"
      using eff Inr by (auto split: prod.splits)
    have "map (detach_place ?i sid) (map (attach_place ?i ?mux sid) (pool_places m)) = pool_places m"
      using detach_attach_place [OF lab_pool [OF assms(1)] assms(2)] Setup_tuner [OF assms(1) Inr]
      unfolding pool_places_def by simp
    then show ?thesis
      using m assms places_drop [OF lab_Setup [OF assms], where sid = sid and ses = "srSession r"]
      by (simp add: Teardown_def sessions_drop fun_upd_idem)
  qed
qed


theorem Setup_Teardown_roundtrip_witness:
  "pool_places (Teardown ''s2'' (snd (Setup ''s2'' query_one ''10.0.0.3'' demo_busy))) =
     [(1, ''tuned'', ''a'', [''s1''])]"
proof -
  have "mSessions demo_busy ''s2'' = None" by code_simp
  moreover have "pool_places demo_busy = [(1, ''tuned'', ''a'', [''s1''])]" by code_simp
  ultimately show ?thesis using Setup_Teardown_roundtrip [OF demo_busy_inv] by simp
qed

section \<open>Expiry\<close>

definition timed_out :: "time \<Rightarrow> duration \<Rightarrow> (string \<rightharpoonup> session) \<Rightarrow> string \<Rightarrow> bool" where
  "timed_out now timeout ss sid =
     (case ss sid of None \<Rightarrow> False | Some ses \<Rightarrow> timeout < time_sub now (sesUpdatedAt ses))"

lemma timed_out_restrict:
  "sid \<notin> A \<Longrightarrow> timed_out now timeout (ss |` (- A)) sid = timed_out now timeout ss sid"
  by (simp add: timed_out_def)

lemma timed_out_upd: "sid \<noteq> x \<Longrightarrow> timed_out now timeout (ss(x := None)) sid = timed_out now timeout ss sid"
  by (simp add: timed_out_def)

lemma expire_one_cases:
  "expire_one now timeout (expired, m) sid =
     (if timed_out now timeout (mSessions m) sid
      then (expired @ [sid], drop_session ''session_timeout'' sid (the (mSessions m sid)) m)
      else (expired, m))"
  by (auto simp: expire_one_def timed_out_def split: option.splits)

lemma expire_fold:
  "distinct order \<Longrightarrow>
     fst (foldl (expire_one now timeout) (expired, m) order) =
       expired @ filter (timed_out now timeout (mSessions m)) order \<and>
     mSessions (snd (foldl (expire_one now timeout) (expired, m) order)) =
       mSessions m |` (- {sid \<in> set order. timed_out now timeout (mSessions m) sid})"
proof (induction order arbitrary: expired m)
  case Nil
  show ?case by (auto simp: restrict_map_def)
next
  case (Cons x xs)
  let ?out = "timed_out now timeout (mSessions m)"
  show ?case
  proof (cases "?out x")
    case True
    let ?m = "drop_session ''session_timeout'' x (the (mSessions m x)) m"
    have "filter (timed_out now timeout (mSessions ?m)) xs = filter ?out xs"
    proof (rule filter_cong [OF refl])
      fix sid assume "sid \<in> set xs"
      then have "sid \<noteq> x" using Cons.prems by auto
      then show "timed_out now timeout (mSessions ?m) sid = ?out sid"
        by (simp add: sessions_drop timed_out_upd)
    qed
    moreover have "mSessions ?m |` (- {sid \<in> set xs. timed_out now timeout (mSessions ?m) sid}) =
        mSessions m |` (- {sid \<in> set (x # xs). ?out sid})"
    proof
      fix sid
      show "(mSessions ?m |` (- {sid \<in> set xs. timed_out now timeout (mSessions ?m) sid})) sid =
          (mSessions m |` (- {sid \<in> set (x # xs). ?out sid})) sid"
        using True Cons.prems
        by (cases "sid = x") (simp_all add: sessions_drop timed_out_upd restrict_map_def)
    qed
    ultimately show ?thesis
      using Cons.IH [of "expired @ [x]" ?m] Cons.prems True by (simp add: expire_one_cases)
  next
    case False
    have "{sid \<in> set (x # xs). ?out sid} = {sid \<in> set xs. ?out sid}" using False by auto
    then show ?thesis
      using Cons.IH [of expired m] Cons.prems False by (simp add: expire_one_cases)
  qed
qed

text \<open>C14. With a positive timeout \<open>ExpireSessions\<close> removes exactly the sessions that were not
  touched for longer than the timeout and returns their ids in increasing order; the result does not
  depend on the order in which the session map is ranged over.\<close>

theorem ExpireSessions_exact:
  assumes "distinct order" "set order = dom (mSessions m)" "0 < timeout"
  shows "fst (ExpireSessions order now timeout m) =
      sorted_list_of_set {sid. timed_out now timeout (mSessions m) sid} \<and>
    mSessions (snd (ExpireSessions order now timeout m)) =
      mSessions m |` {sid. \<not> timed_out now timeout (mSessions m) sid}"
proof -
  let ?out = "timed_out now timeout (mSessions m)"
  have "sid \<in> dom (mSessions m)" if "?out sid" for sid
    using that by (auto simp: timed_out_def split: option.splits)
  then have set: "{sid \<in> set order. ?out sid} = {sid. ?out sid}" using assms(2) by blast
  have "sort (filter ?out order) = sorted_list_of_set (set (filter ?out order))"
    using assms(1) by (metis distinct_filter distinct_remdups_id sorted_list_of_set_sort_remdups)
  then show ?thesis
    using expire_fold [OF assms(1), of now timeout "[]" m] assms(3)
    by (cases "foldl (expire_one now timeout) ([], m) order")
      (simp add: ExpireSessions_def set Collect_neg_eq)
qed

theorem ExpireSessions_exact_witness:
  "fst (ExpireSessions [''s1''] (30 * second) (20 * second) demo_busy) = [''s1'']"
proof -
  have one: "dom (mSessions demo_busy) = {''s1''}"
  proof -
    have "placed (mTuners demo_busy) = homes (mSessions demo_busy)"
      by (rule pool_homes [OF lab_pool [OF demo_busy_inv]])
    moreover have "fst ` placed (mTuners demo_busy) = {''s1''}" by code_simp
    ultimately show ?thesis by (simp add: homes_def image_image)
  qed
  have out: "timed_out (30 * second) (20 * second) (mSessions demo_busy) ''s1''" by code_simp
  have "sid = ''s1''" if "timed_out (30 * second) (20 * second) (mSessions demo_busy) sid" for sid
    using that one by (auto simp: timed_out_def split: option.splits)
  then have "{sid. timed_out (30 * second) (20 * second) (mSessions demo_busy) sid} = {''s1''}"
    using out by blast
  then show ?thesis
    using ExpireSessions_exact [of "[''s1'']" demo_busy "20 * second" "30 * second"] one
    by (simp add: second_def millisecond_def)
qed

section \<open>The event log\<close>

text \<open>The log as a bounded buffer: recording a list of events keeps the last 200 of everything ever
  recorded, each stamped with its own reading of the clock.\<close>

definition stamped :: "manager \<Rightarrow> event list \<Rightarrow> event list" where
  "stamped m es = map (\<lambda>(i, e). e\<lparr>evAt := mClock m (mReads m + i)\<rparr>) (enumerate 0 es)"

lemma stamped_Cons:
  "stamped m (e # es) = e\<lparr>evAt := mClock m (mReads m)\<rparr> # stamped (recordLocked x m) es"
proof -
  have "mClock (recordLocked x m) = mClock m" "mReads (recordLocked x m) = Suc (mReads m)"
    by (simp_all add: recordLocked_def time_now_def Let_def)
  then show ?thesis
    by (simp add: stamped_def enumerate_Suc_eq comp_def case_prod_beta)
qed

text \<open>However many events are recorded, the log is the suffix of at most 200 events of the old
  log followed by the new events in order, stamped with successive clock readings.\<close>

theorem recordLocked_bounded_buffer:
  "mEvents (foldl (\<lambda>m e. recordLocked e m) m es) =
     (if es = [] then mEvents m else lastn 200 (mEvents m @ stamped m es))"
proof (induction es arbitrary: m)
  case (Cons e es)
  let ?m = "recordLocked e m"
  have "mEvents (foldl (\<lambda>m e. recordLocked e m) ?m es) = lastn 200 (mEvents ?m @ stamped ?m es)"
    using Cons.IH [of ?m] by (cases "es = []") (auto simp: mEvents_recordLocked stamped_def)
  then show ?case
    by (simp add: mEvents_recordLocked stamped_Cons [of m e es e] lastn_append_lastn)
qed simp


section \<open>The timeline\<close>

definition due_at :: "scenario_timeline_step list \<Rightarrow> int \<Rightarrow> nat \<Rightarrow> bool" where
  "due_at steps elapsed j \<longleftrightarrow> j < length steps \<and> stAtMS (steps ! j) \<le> elapsed \<and>
     (\<forall>k<length steps. j < k \<longrightarrow> elapsed < stAtMS (steps ! k))"

text \<open>C15. While a timeline runs, the scenario that the manager reports at an instant is the one of
  the step whose interval holds the elapsed milliseconds. It does not depend on which step the
  manager had reached before, so a client that polls rarely sees the same as one that polls often.\<close>

theorem timeline_scenario_due:
  assumes inv: "lab_inv m" and tml: "mTimeline m = Some tml"
  shows "\<exists>j. due_at (tlSteps tml) (elapsed_ms now tml) j \<and>
    fst (ScenarioAt now m) = (scenarioFromTimelineStep (tlSteps tml ! j))\<lparr>scTimeline :=
      Some (timeline_status j (elapsed_ms now tml) (tlSteps tml))\<rparr>"
proof -
  let ?steps = "tlSteps tml" and ?e = "elapsed_ms now tml"
  have ok: "validateTimelineSteps (mCatalog m) ?steps = Inr ?steps"
      "(mScenario m)\<lparr>scTimeline := None\<rparr> = scenarioFromTimelineStep (?steps ! tlStepIndex tml)"
    using lab_timeline [OF inv] tml by (simp_all add: timeline_ok_def)
  then have steps: "?steps \<noteq> []" "stAtMS (hd ?steps) = 0" "sorted_wrt (<) (map stAtMS ?steps)"
    by (simp_all add: validateTimelineSteps_inr)
  have "0 \<le> ?e" by (simp add: elapsed_ms_def Let_def)
  then obtain j where j: "j < length ?steps" "stAtMS (?steps ! j) \<le> ?e"
      "\<forall>k<length ?steps. j < k \<longrightarrow> ?e < stAtMS (?steps ! k)"
    using due_step_exists [OF steps(1,2) _ steps(3)] by blast
  have due: "due_step ?e 0 (tlStepIndex tml) ?steps = j" by (rule due_step_spec [OF steps(3) j])
  have "(mScenario m)\<lparr>scTimeline := x\<rparr> =
      (scenarioFromTimelineStep (?steps ! tlStepIndex tml))\<lparr>scTimeline := x\<rparr>" for x
    using arg_cong [OF ok(2), of "\<lambda>s. s\<lparr>scTimeline := x\<rparr>"] by simp
  then have "fst (ScenarioAt now m) = (scenarioFromTimelineStep (?steps ! j))\<lparr>scTimeline :=
      Some (timeline_status j ?e ?steps)\<rparr>"
    using tml due by (auto simp: ScenarioAt_def scenarioAtLocked_def Let_def)
  then show ?thesis using j unfolding due_at_def by blast
qed

theorem timeline_scenario_due_witness:
  "\<exists>j. due_at demo_steps 600 j \<and> scName (fst (ScenarioAt (600 * millisecond + 1000) demo_timeline)) =
     scName (scenarioFromTimelineStep (demo_steps ! j))"
proof -
  have "mTimeline demo_timeline = Some \<lparr>tlStartedAt = 1000, tlStepIndex = 0, tlSteps = demo_steps\<rparr>"
    by code_simp
  from timeline_scenario_due [OF demo_timeline_inv this, of "600 * millisecond + 1000"]
  show ?thesis by (auto simp: elapsed_ms_def time_sub_def go_quot_def millisecond_def)
qed

section \<open>Frontends\<close>

lemma recomputed_frontend_telemetry [simp]:
  "recomputed_frontend c ss sc ch tml (t\<lparr>tunFrontend := f\<rparr>) now = recomputed_frontend c ss sc ch tml t now"
  by (simp add: recomputed_frontend_def timelineRecoveryFrontend_def Let_def
      cong: if_cong option.case_cong)

definition refreshed :: "manager \<Rightarrow> time \<Rightarrow> tuner \<Rightarrow> tuner" where
  "refreshed m now t = t\<lparr>tunFrontend := recomputed_frontend (mCatalog m) (mSessions m) (mScenario m)
     (mScenarioChangedAt m) (mTimeline m) t now\<rparr>"

lemma refreshed_simps [simp]:
  "tunID (refreshed m now t) = tunID t" "refreshed m now (refreshed m' now t) = refreshed m now t"
  "refreshed (m\<lparr>mTuners := ts\<rparr>) now t = refreshed m now t"
  "tuner_place (refreshed m now t) = tuner_place t"
  by (simp_all add: refreshed_def)

lemma recompute_fold_map:
  "distinct (map tunID (mTuners m)) \<Longrightarrow>
     foldl (\<lambda>m t. recomputeTunerFrontendLocked (tunID t) now m) m us =
       m\<lparr>mTuners := map (\<lambda>t. if tunID t \<in> tunID ` set us then refreshed m now t else t) (mTuners m)\<rparr>"
proof (induction us arbitrary: m)
  case (Cons u us)
  let ?ts = "map (\<lambda>t. if tunID t = tunID u then refreshed m now t else t) (mTuners m)"
  have step: "recomputeTunerFrontendLocked (tunID u) now m = m\<lparr>mTuners := ?ts\<rparr>"
    using update_tuner_map [OF Cons.prems, of "tunID u" "refreshed m now"]
    by (simp add: recomputeTunerFrontendLocked_def refreshed_def [abs_def])
  have "map tunID ?ts = map tunID (mTuners m)" by simp
  then have "distinct (map tunID (mTuners (m\<lparr>mTuners := ?ts\<rparr>)))"
    using Cons.prems by (simp del: map_map)
  from Cons.IH [OF this] show ?case by (simp add: step comp_def)
qed (simp add: map_idI)

lemma recomputeAll_map:
  "distinct (map tunID (mTuners m)) \<Longrightarrow>
     recomputeAllFrontendsLocked now m = m\<lparr>mTuners := map (refreshed m now) (mTuners m)\<rparr>"
  unfolding recomputeAllFrontendsLocked_def recompute_fold_map
  by (intro arg_cong [where f = "\<lambda>ts. m\<lparr>mTuners := ts\<rparr>"] map_cong) simp_all


lemma distinct_ids: "lab_inv m \<Longrightarrow> distinct (map tunID (mTuners m))"
  by (rule pool_distinct [OF lab_pool])

lemma StatusAt_tuners:
  assumes "lab_inv m"
  shows "statTuners (fst (StatusAt order now m)) =
    map (refreshed (snd (scenarioAtLocked now m)) now) (mTuners (snd (scenarioAtLocked now m)))"
  using recomputeAll_map [OF distinct_ids [OF lab_scenarioAt [OF assms]]]
  by (simp add: StatusAt_def Let_def)

text \<open>A session's target, on a state that satisfies the invariant.\<close>

lemma session_target_known:
  assumes inv: "lab_inv m" and t: "t \<in> set (mTuners m)" "sid \<in> set (tunSessions t)"
  obtains ses svc mux where "mSessions m sid = Some ses"
    "session_target (mCatalog m) (mSessions m) sid = Some (svc, mux)"
    "svcID svc = sesServiceID ses" "mxID mux = sesMuxID ses" "sesMuxID ses = tunMuxID t"
proof -
  obtain ses where ses: "mSessions m sid = Some ses" "sesMuxID ses = tunMuxID t"
    using pool_listed [OF lab_pool [OF inv] t] by metis
  have "session_ok (mCatalog m) sid ses" by (rule sessions_ok_get [OF lab_sessions [OF inv] ses(1)])
  then obtain svc mux where found: "ServiceByID (mCatalog m) (sesServiceID ses) = Some svc"
      "MuxByID (mCatalog m) (sesMuxID ses) = Some mux"
    by (auto simp: session_ok_def split: option.splits)
  have "svcID svc = sesServiceID ses" "mxID mux = sesMuxID ses"
    using find_SomeD [OF found(1) [unfolded ServiceByID_def]]
      find_SomeD [OF found(2) [unfolded MuxByID_def]] by simp_all
  moreover have "session_target (mCatalog m) (mSessions m) sid = Some (svc, mux)"
    using ses(1) found by (simp add: session_target_def)
  ultimately show thesis using that ses by blast
qed

text \<open>Whether a scenario is aimed at some session of a tuner.\<close>

definition tuner_hit :: "manager \<Rightarrow> scenario \<Rightarrow> tuner \<Rightarrow> bool" where
  "tuner_hit m sc t \<longleftrightarrow> (\<exists>sid\<in>set (tunSessions t). case mSessions m sid of None \<Rightarrow> False
     | Some ses \<Rightarrow> AppliesTo sc (sesServiceID ses) (sesMuxID ses))"

text \<open>The steady fault readings.\<close>

definition fault_reading :: "string \<Rightarrow> time \<Rightarrow> tuner_frontend option" where
  "fault_reading name now =
     (if name = ScenarioSignalDegraded then
        Some \<lparr>feState = FrontendDegraded, feSignalStrength = 42, feSNRDB = 65 / 10,
          feBER = 25 / 100000, fePER = 2 / 100, feLockMS = 250, feLastLockChange = Some now\<rparr>
      else if name = ScenarioLockLoss then
        Some \<lparr>feState = FrontendLost, feSignalStrength = 0, feSNRDB = 0, feBER = 1, fePER = 1,
          feLockMS = 250, feLastLockChange = Some now\<rparr>
      else if name = ScenarioSlowLock then
        Some \<lparr>feState = FrontendTuning, feSignalStrength = 55, feSNRDB = 8, feBER = 1 / 10000,
          fePER = 1 / 100, feLockMS = 1200, feLastLockChange = Some now\<rparr>
      else None)"

lemma frontendForScenario_fault:
  "frontendForScenario sc svc mux now =
     (if AppliesTo sc (svcID svc) (mxID mux) then fault_reading (scName sc) now else None)"
  by (simp add: frontendForScenario_def fault_reading_def defaultLockMS_def)

lemma frontend_loop_fault:
  assumes "scName sc \<noteq> ScenarioSignalRecovery"
    and "\<And>sid. sid \<in> set ids \<Longrightarrow> \<exists>ses svc mux. ss sid = Some ses \<and>
      session_target c ss sid = Some (svc, mux) \<and> svcID svc = sesServiceID ses \<and> mxID mux = sesMuxID ses"
  shows "frontend_loop c ss sc ch b now f ids =
    (if \<exists>sid\<in>set ids. case ss sid of None \<Rightarrow> False
       | Some ses \<Rightarrow> AppliesTo sc (sesServiceID ses) (sesMuxID ses)
     then (case fault_reading (scName sc) now of None \<Rightarrow> f | Some r \<Rightarrow> r) else f)"
  using assms(2)
proof (induction ids)
  case (Cons sid ids)
  obtain ses svc mux where "ss sid = Some ses" "session_target c ss sid = Some (svc, mux)"
      "svcID svc = sesServiceID ses" "mxID mux = sesMuxID ses"
    using Cons.prems [of sid] by auto
  then show ?case
    using Cons.IH Cons.prems assms(1) by (auto simp: frontendForScenario_fault split: option.splits)
qed simp

text \<open>C16. The frontends that \<open>Status\<close> reports without a timeline, for every scenario but
  \<open>signal_recovery\<close>: an idle tuner shows the idle reading; a tuner with a session that a degraded,
  lock-loss or slow-lock scenario is aimed at shows that fault; any other tuner is tuning during the
  first 250 ms after it was tuned and locked from then on.\<close>

theorem StatusAt_frontends:
  assumes inv: "lab_inv m" and plain: "mTimeline m = None"
    and name: "scName (mScenario m) \<noteq> ScenarioSignalRecovery"
    and t: "t \<in> set (statTuners (fst (StatusAt order now m)))"
  shows "tunFrontend t =
    (if tunState t = ''idle'' then idleFrontend
     else if tuner_hit m (mScenario m) t \<and> fault_reading (scName (mScenario m)) now \<noteq> None
     then the (fault_reading (scName (mScenario m)) now)
     else if is_zero_time (tunTuneStartedAt t) then lockedFrontend now
     else if now < tunTuneStartedAt t + 250 * millisecond then tuningFrontend (tunTuneStartedAt t)
     else lockedFrontend (tunTuneStartedAt t + 250 * millisecond))"
proof -
  have same: "snd (scenarioAtLocked now m) = m" using plain by (simp add: scenarioAtLocked_def)
  obtain u where u: "u \<in> set (mTuners m)" "t = refreshed m now u"
    using t StatusAt_tuners [OF inv, of order now] by (auto simp: same)
  have keep: "tunState t = tunState u" "tunSessions t = tunSessions u"
      "tunTuneStartedAt t = tunTuneStartedAt u" "tuner_hit m sc t = tuner_hit m sc u" for sc
    by (simp_all add: u(2) refreshed_def tuner_hit_def)
  have fe: "tunFrontend t = recomputed_frontend (mCatalog m) (mSessions m) (mScenario m)
      (mScenarioChangedAt m) None u now"
    using plain by (simp add: u(2) refreshed_def)
  show ?thesis
  proof (cases "tunState u = ''idle''")
    case True
    then show ?thesis by (simp add: keep fe idle_recomputed)
  next
    case False
    then have "tunSessions u \<noteq> []"
      using pool_shape [OF lab_pool [OF inv] u(1)] by (auto simp: tuner_shape_def)
    moreover have "frontend_loop (mCatalog m) (mSessions m) (mScenario m) ch b now f (tunSessions u) =
        (if tuner_hit m (mScenario m) u
         then (case fault_reading (scName (mScenario m)) now of None \<Rightarrow> f | Some r \<Rightarrow> r) else f)" for ch b f
      unfolding tuner_hit_def
      by (rule frontend_loop_fault [OF name]) (metis session_target_known [OF inv u(1)])
    ultimately show ?thesis
      using False
      by (auto simp: keep fe recomputed_frontend_def timelineRecoveryFrontend_def
          lifecycleFrontend_def defaultLockDuration_def defaultLockMS_def Let_def split: option.splits)
  qed
qed

theorem StatusAt_frontends_witness:
  "map tunFrontend (statTuners (fst (StatusAt [''s1''] (100 * millisecond) demo_busy))) = [tuningFrontend 1000005]"
proof -
  have "map tunState (statTuners (fst (StatusAt [''s1''] (100 * millisecond) demo_busy))) = [''tuned'']"
      "map tunTuneStartedAt (statTuners (fst (StatusAt [''s1''] (100 * millisecond) demo_busy))) = [1000005]"
    by code_simp+
  then obtain t where t: "statTuners (fst (StatusAt [''s1''] (100 * millisecond) demo_busy)) = [t]"
      "tunState t = ''tuned''" "tunTuneStartedAt t = 1000005"
    by auto
  have "mTimeline demo_busy = None" "scName (mScenario demo_busy) = ''normal''" by code_simp+
  then have "tunFrontend t = tuningFrontend 1000005"
    using StatusAt_frontends [OF demo_busy_inv, of t "[''s1'']" "100 * millisecond"] t
    by (simp add: scenario_names fault_reading_def is_zero_time_def millisecond_def)
  then show ?thesis by (simp add: t)
qed

section \<open>Reset\<close>

text \<open>\<open>Reset\<close> drops every session, makes every tuner idle and blank under its old id, keeps the
  active scenario and timeline except for \<open>tuner_wedged\<close>, which becomes \<open>normal\<close>, and does not clear
  the event log: it appends a \<open>reset\<close> event to it.\<close>

theorem Reset_effect:
  "mSessions (Reset m) = Map.empty \<and>
   mTuners (Reset m) = map (\<lambda>t. \<lparr>tunID = tunID t, tunState = ''idle'', tunMuxID = '''', tunSessions = [],
     tunFrontend = idleFrontend, tunTuneStartedAt = 0\<rparr>) (mTuners m) \<and>
   (if scName (mScenario m) = ScenarioTunerWedged
    then mScenario (Reset m) = scenarioByName ScenarioNormal \<and> mTimeline (Reset m) = None
    else mScenario (Reset m) = mScenario m \<and> mTimeline (Reset m) = mTimeline m) \<and>
   mEvents (Reset m) =
     lastn 200 (mEvents m @ [(new_event ''reset'' '''' 0 '''' '''' '''')\<lparr>evAt := mClock m (mReads m)\<rparr>])"
  by (simp add: Reset_def Let_def mEvents_recordLocked)

end
