(* ===== verification/RtspServer.thy ===== *)
theory RtspServer
  imports RtspStream TsSource Config Epg ManagerSpec
begin

text \<open>
  The RTSP server (\<open>internal/rtsp/server.go\<close>): its sessions, the request handlers and their calls of
  the lab manager, the reaper, and the payload and status providers of a stream.

  A session object is created by one SETUP, under the id that the counter gives it; other code keeps
  pointers to it. The model keeps all objects in \<open>srvObjects\<close>, an object's address being its id, and
  the keys of the map \<open>sessions\<close> in \<open>srvSessions\<close>. The goroutine of a session runs while its
  \<open>stopCh\<close> is not nil: \<open>rssStreaming\<close> holds what it was started with. Mutexes make each handler one
  step; \<open>afterWrite\<close> callbacks run in a step of their own. Waiting (slow_rtsp, cold_boot) is not
  modelled. What lies outside the program is in \<open>rtsp_env\<close>: files, the zone database, address parsing,
  whether a UDP socket can be opened, and the order in which a range over the session map goes.
\<close>

section \<open>State\<close>

record rtsp_env =
  envFiles :: files
  envBerlin :: "location option"
  envParseIP :: "string \<Rightarrow> string option"
  envHost :: location
  envListenUDP :: bool
  envOrder :: "(string \<rightharpoonup> session) \<Rightarrow> string list"

type_synonym play_target = "service \<times> mux"

record rtsp_session =
  rssID :: string
  rssClientIP :: string
  rssClientRTPPort :: int
  rssClientRTCPPort :: int
  rssTransport :: transport_mode
  rssRtpChannel :: int
  rssRtcpChannel :: int
  rssRtcpInterval :: duration
  rssService :: service
  rssStreaming :: "play_target option"

record connection =
  connDescribed :: bool
  connSessionIDs :: "string set"
  connAfterWrite :: "(string \<times> play_target) list"

record server =
  srvConfig :: config
  srvProfile :: profile
  srvSource :: source
  srvLab :: manager
  srvObjects :: "string \<rightharpoonup> rtsp_session"
  srvSessions :: "string set"
  srvNextID :: int

definition rtspSessionTimeout :: duration where "rtspSessionTimeout = 60 * second"
definition defaultRTCPStatusInterval :: duration where "defaultRTCPStatusInterval = 200 * millisecond"
definition delayedPSIStartupDelay :: duration where "delayedPSIStartupDelay = 80 * millisecond"

definition NewServer :: "config \<Rightarrow> source \<Rightarrow> manager option \<Rightarrow> (nat \<Rightarrow> time) \<Rightarrow> server" where
  "NewServer cfg src labManager clock =
     (let m = (case labManager of
                 Some m \<Rightarrow> m
               | None \<Rightarrow> NewManager DefaultCatalog (cfgTunerCount cfg) clock)
      in \<lparr>srvConfig = cfg, srvProfile = CompatibilityProfile cfg, srvSource = src,
          srvLab = m, srvObjects = Map.empty, srvSessions = {}, srvNextID = 0\<rparr>)"

definition newConnectionState :: connection where
  "newConnectionState = \<lparr>connDescribed = False, connSessionIDs = {}, connAfterWrite = []\<rparr>"

definition rememberSession :: "string \<Rightarrow> connection option \<Rightarrow> connection option" where
  "rememberSession sid c = map_option (\<lambda>c. c\<lparr>connSessionIDs := insert sid (connSessionIDs c)\<rparr>) c"

definition forgetSession :: "string \<Rightarrow> connection option \<Rightarrow> connection option" where
  "forgetSession sid c = map_option (\<lambda>c. c\<lparr>connSessionIDs := connSessionIDs c - {sid}\<rparr>) c"

definition afterResponse :: "string \<times> play_target \<Rightarrow> connection option \<Rightarrow> connection option" where
  "afterResponse fn c = map_option (\<lambda>c. c\<lparr>connAfterWrite := connAfterWrite c @ [fn]\<rparr>) c"

text \<open>Reading the clock and calling the manager.\<close>

definition srv_now :: "server \<Rightarrow> time \<times> server" where
  "srv_now s = (case time_now (srvLab s) of (t, m) \<Rightarrow> (t, s\<lparr>srvLab := m\<rparr>))"

definition with_lab :: "(manager \<Rightarrow> 'r \<times> manager) \<Rightarrow> server \<Rightarrow> 'r \<times> server" where
  "with_lab f s = (case f (srvLab s) of (r, m) \<Rightarrow> (r, s\<lparr>srvLab := m\<rparr>))"

section \<open>Sessions\<close>

definition sessionByID :: "string \<Rightarrow> server \<Rightarrow> rtsp_session option" where
  "sessionByID sid s = (if sid \<in> srvSessions s then srvObjects s sid else None)"

definition stop_object :: "string \<Rightarrow> server \<Rightarrow> server" where
  "stop_object sid s =
     s\<lparr>srvObjects := (srvObjects s)(sid := map_option (\<lambda>o'. o'\<lparr>rssStreaming := None\<rparr>) (srvObjects s sid))\<rparr>"

text \<open>\<open>startStreaming\<close>: the old goroutine is stopped first; without a UDP socket none is started.\<close>

definition startStreaming :: "rtsp_env \<Rightarrow> string \<times> play_target \<Rightarrow> server \<Rightarrow> server" where
  "startStreaming env call s =
     (case call of (sid, target) \<Rightarrow>
        let s = stop_object sid s
        in case srvObjects s sid of
             None \<Rightarrow> s
           | Some ob \<Rightarrow>
               if rssTransport ob = transportInterleaved \<or> envListenUDP env
               then s\<lparr>srvObjects := (srvObjects s)(sid \<mapsto> ob\<lparr>rssStreaming := Some target\<rparr>)\<rparr>
               else s)"

definition stopAndDeleteSession :: "string \<Rightarrow> server \<Rightarrow> server" where
  "stopAndDeleteSession sid s =
     (if sid \<in> srvSessions s
      then stop_object sid (s\<lparr>srvSessions := srvSessions s - {sid}\<rparr>) else s)"

definition closeSessionAfterConnectionLoss :: "string \<Rightarrow> server \<Rightarrow> server" where
  "closeSessionAfterConnectionLoss sid s =
     (let s = stopAndDeleteSession sid s in s\<lparr>srvLab := Teardown sid (srvLab s)\<rparr>)"

text \<open>The order is that in which the range over the connection's session ids goes.\<close>

definition close_one :: "server \<times> connection \<Rightarrow> string \<Rightarrow> server \<times> connection" where
  "close_one sc sid =
     (case sc of (s, c) \<Rightarrow>
        let c' = c\<lparr>connSessionIDs := connSessionIDs c - {sid}\<rparr>
        in case sessionByID sid s of
             None \<Rightarrow> (s, c')
           | Some ob \<Rightarrow>
               if rssTransport ob \<noteq> transportInterleaved then (s, c')
               else (closeSessionAfterConnectionLoss sid s, c'))"

definition closeConnectionSessions :: "string list \<Rightarrow> connection \<Rightarrow> server \<Rightarrow> server \<times> connection" where
  "closeConnectionSessions order c s = foldl close_one (s, c) order"

definition expire_object :: "server \<Rightarrow> string \<Rightarrow> server" where
  "expire_object s sid =
     (if sid \<in> srvSessions s
      then (stop_object sid s)\<lparr>srvSessions := srvSessions s - {sid}\<rparr> else s)"

definition expireSessions :: "rtsp_env \<Rightarrow> time \<Rightarrow> server \<Rightarrow> server" where
  "expireSessions env now s =
     (case with_lab (\<lambda>m. ExpireSessions (envOrder env (mSessions m)) now rtspSessionTimeout m) s of
        (expired, s) \<Rightarrow> foldl expire_object s expired)"

definition Server_Reset :: "server \<Rightarrow> server" where
  "Server_Reset s =
     s\<lparr>srvObjects := (\<lambda>sid. map_option (\<lambda>ob. if sid \<in> srvSessions s then ob\<lparr>rssStreaming := None\<rparr> else ob)
         (srvObjects s sid)), srvSessions := {}\<rparr>"

definition touchRequestSession :: "request \<Rightarrow> time \<Rightarrow> server \<Rightarrow> server" where
  "touchRequestSession req now s =
     (let sid = sessionIDFrom (header req ''session'')
      in if sid = [] then s
         else if sessionByID sid s = None then s
         else snd (with_lab (Touch sid now) s))"

section \<open>Headers\<close>

definition setupSessionHeader :: "server \<Rightarrow> string \<Rightarrow> string" where
  "setupSessionHeader s sid =
     (let hdr = profSessionHeader (srvProfile s) @ '': '' @ sid
      in if profIncludeSetupTimeout (srvProfile s)
         then hdr @ '';timeout='' @ itoa (go_quot rtspSessionTimeout second) else hdr)"

definition sessionHeaders :: "server \<Rightarrow> string \<Rightarrow> string list" where
  "sessionHeaders s sid = [profSessionHeader (srvProfile s) @ '': '' @ sid]"

definition rtcpStatusInterval :: "server \<Rightarrow> duration" where
  "rtcpStatusInterval s =
     (if profRTCPStatusInterval (srvProfile s) > 0 then profRTCPStatusInterval (srvProfile s)
      else defaultRTCPStatusInterval)"

section \<open>What a stream plays\<close>

definition streamBehavior :: "service \<Rightarrow> mux \<Rightarrow> server \<Rightarrow> stream_behavior \<times> server" where
  "streamBehavior svc mux s =
     (case with_lab Scenario s of (sc, s) \<Rightarrow>
        (if \<not> AppliesTo sc (svcID svc) (mxID mux) then plain_behavior
         else if scName sc = ScenarioRTPStop then plain_behavior\<lparr>sbPacketLimit := 3\<rparr>
         else if scName sc = ScenarioRTPLoss then plain_behavior\<lparr>sbDropEvery := 3\<rparr>
         else if scName sc = ScenarioRTPJitter
           then plain_behavior\<lparr>sbJitterEvery := 3, sbJitterDelay := 40 * millisecond\<rparr>
         else if scName sc = ScenarioRTPBlackhole then plain_behavior\<lparr>sbDropAll := True\<rparr>
         else if scName sc = ScenarioDelayedPSI then plain_behavior\<lparr>sbStartupDelay := delayedPSIStartupDelay\<rparr>
         else plain_behavior, s))"

definition streamPayloadKey :: "scenario \<Rightarrow> service \<Rightarrow> mux \<Rightarrow> string" where
  "streamPayloadKey sc svc mux =
     (if \<not> AppliesTo sc (svcID svc) (mxID mux) then ScenarioNormal
      else if scName sc = ScenarioMalformedPSI \<or> scName sc = ScenarioContinuityErrors \<or> scName sc = ScenarioEPGGap
        then scName sc @ ''|'' @ scServiceID sc @ ''|'' @ scMuxID sc @ ''|'' @ itoa (scDurationMin sc)
      else ScenarioNormal)"

datatype payload_error = ClockError clock_error | SourceError source_error

text \<open>A real lab clock shows the present; this reading of the clock is not counted among the readings
  of the manager's clock.\<close>

definition playPayloadForScenario :: "rtsp_env \<Rightarrow> service_profile \<Rightarrow> service \<Rightarrow> mux \<Rightarrow> scenario \<Rightarrow> server
    \<Rightarrow> payload_error + bytes" where
  "playPayloadForScenario env p svc mux sc s =
     (case ParseClock (envBerlin env) (fst (srv_now s)) (cfgEPGClock (srvConfig s)) of
        Inl e \<Rightarrow> Inl (ClockError e)
      | Inr clock \<Rightarrow>
          let applies = AppliesTo sc (svcID svc) (mxID mux);
              eit = \<lparr>eitNow = clkNow clock, eitLocation = clkLocation clock,
                     eitSuppress = (scName sc = ScenarioEPGGap \<and> applies)\<rparr>
          in case LoadServicePayloadWithOptions (envFiles env) (srvSource s) p (envHost env) eit of
               Inl e \<Rightarrow> Inl (SourceError e)
             | Inr payload \<Rightarrow>
                 Inr (if \<not> applies then payload
                      else if scName sc = ScenarioMalformedPSI then MalformedPSI payload
                      else if scName sc = ScenarioContinuityErrors then ContinuityCounterErrors payload
                      else payload))"

definition playPayload :: "rtsp_env \<Rightarrow> service_profile \<Rightarrow> service \<Rightarrow> mux \<Rightarrow> server \<Rightarrow> (payload_error + bytes) \<times> server" where
  "playPayload env p svc mux s =
     (case with_lab Scenario s of (sc, s) \<Rightarrow> (playPayloadForScenario env p svc mux sc s, s))"

text \<open>The provider of a playing session: the payloads it has loaded, by key, and what it gave last.\<close>

record payload_cache =
  pcCache :: "string \<rightharpoonup> bytes"
  pcLastKey :: string
  pcLastPreserve :: bool

definition empty_cache :: payload_cache where
  "empty_cache = \<lparr>pcCache = Map.empty, pcLastKey = [], pcLastPreserve = False\<rparr>"

definition preserve_for :: "scenario \<Rightarrow> service \<Rightarrow> mux \<Rightarrow> bool" where
  "preserve_for sc svc mux = (scName sc = ScenarioContinuityErrors \<and> AppliesTo sc (svcID svc) (mxID mux))"

definition load_payload :: "rtsp_env \<Rightarrow> service_profile \<Rightarrow> service \<Rightarrow> mux \<Rightarrow> scenario \<Rightarrow> server \<Rightarrow> payload_cache
    \<Rightarrow> (payload_error + bytes) \<times> payload_cache" where
  "load_payload env p svc mux sc s pc =
     (let key = streamPayloadKey sc svc mux;
          preserve = preserve_for sc svc mux
      in case pcCache pc key of
           Some payload \<Rightarrow> (Inr payload, pc\<lparr>pcLastKey := key, pcLastPreserve := preserve\<rparr>)
         | None \<Rightarrow>
             (case playPayloadForScenario env p svc mux sc s of
                Inl e \<Rightarrow> (Inl e, pc)
              | Inr payload \<Rightarrow> (Inr payload, pc\<lparr>pcCache := (pcCache pc)(key \<mapsto> payload), pcLastKey := key,
                  pcLastPreserve := preserve\<rparr>)))"

definition playPayloadProvider :: "rtsp_env \<Rightarrow> service_profile \<Rightarrow> service \<Rightarrow> mux \<Rightarrow> server
    \<Rightarrow> (payload_error + payload_cache) \<times> server" where
  "playPayloadProvider env p svc mux s =
     (case with_lab Scenario s of (sc, s) \<Rightarrow>
        case load_payload env p svc mux sc s empty_cache of
          (Inl e, _) \<Rightarrow> (Inl e, s)
        | (Inr _, pc) \<Rightarrow> (Inr pc, s))"

text \<open>A call of the provider.\<close>

definition next_payload :: "rtsp_env \<Rightarrow> service_profile \<Rightarrow> service \<Rightarrow> mux \<Rightarrow> payload_cache \<times> server
    \<Rightarrow> stream_payload \<times> payload_cache \<times> server" where
  "next_payload env p svc mux w =
     (case w of (pc, s) \<Rightarrow>
        case with_lab Scenario s of (sc, s) \<Rightarrow>
          case load_payload env p svc mux sc s pc of
            (Inr payload, pc) \<Rightarrow>
              (\<lparr>splKey = streamPayloadKey sc svc mux, splData = payload,
                splPreserve = preserve_for sc svc mux\<rparr>, pc, s)
          | (Inl _, pc) \<Rightarrow>
              (\<lparr>splKey = pcLastKey pc, splData = (case pcCache pc (pcLastKey pc) of None \<Rightarrow> [] | Some b \<Rightarrow> b),
                splPreserve = pcLastPreserve pc\<rparr>, pc, s))"

section \<open>The RTCP status\<close>

definition rtcpLockFromFrontend :: "string \<Rightarrow> int" where
  "rtcpLockFromFrontend st =
     (if st = FrontendLocked \<or> st = FrontendDegraded \<or> st = FrontendRecovering then 1 else 0)"

text \<open>Conversion of a float to an int truncates towards zero.\<close>

definition truncate_rat :: "rat \<Rightarrow> int" where
  "truncate_rat x = (if x \<ge> 0 then \<lfloor>x\<rfloor> else \<lceil>x\<rceil>)"

definition rtcpQualityFromFrontend :: "tuner_frontend \<Rightarrow> int \<Rightarrow> int" where
  "rtcpQualityFromFrontend fe lock =
     (if lock = 0 then 0
      else
        let quality = truncate_rat (feSNRDB fe + 1 / 2)
        in if quality < 1 then 1 else if quality > 15 then 15 else quality)"

definition rtcpPIDsFromSession :: "session \<Rightarrow> string" where
  "rtcpPIDsFromSession ses = (if sesPIDsAll ses then ''all'' else join '','' (map itoa (sesPIDs ses)))"

definition rtcpStatusForSession :: "rtsp_env \<Rightarrow> string \<Rightarrow> server \<Rightarrow> rtcp_status option \<times> server" where
  "rtcpStatusForSession env sid s =
     (case with_lab (\<lambda>m. Status (envOrder env (mSessions m)) m) s of (st, s) \<Rightarrow>
        (case find (\<lambda>ses. sesID ses = sid) (statSessions st) of
           None \<Rightarrow> None
         | Some ses \<Rightarrow>
             (case find (\<lambda>t. tunID t = sesTunerID ses) (statTuners st) of
                None \<Rightarrow> None
              | Some tuner \<Rightarrow>
                  (case MuxByID (mCatalog (srvLab s)) (sesMuxID ses) of
                     None \<Rightarrow> None
                   | Some mux \<Rightarrow>
                       let lock = rtcpLockFromFrontend (feState (tunFrontend tuner))
                       in Some \<lparr>rsSourceID = mxSrc mux, rsTunerID = tunID tuner,
                            rsLevel = feSignalStrength (tunFrontend tuner), rsLock = lock,
                            rsQuality = rtcpQualityFromFrontend (tunFrontend tuner) lock,
                            rsFrequency = mxFrequency mux, rsPolarity = to_lower (mxPolarization mux),
                            rsDeliverySystem = to_lower (mxDelivery mux), rsSymbolRate = mxSymbolRate mux,
                            rsPIDs = rtcpPIDsFromSession ses\<rparr>)), s))"

definition rtcpPacketProvider :: "rtsp_env \<Rightarrow> string \<Rightarrow> server \<Rightarrow> bytes option \<times> server" where
  "rtcpPacketProvider env sid s =
     (case rtcpStatusForSession env sid s of
        (None, s) \<Rightarrow> (None, s)
      | (Some status, s) \<Rightarrow> (Some (RTCP_Packet NewRTCPStatusSender status), s))"

section \<open>The handlers\<close>

type_synonym handled = "string \<times> connection option \<times> server"

definition handleDescribe :: "request \<Rightarrow> string \<Rightarrow> server \<Rightarrow> string" where
  "handleDescribe req cseq s =
     (let controlURI = (if rqURI req = [] then ''stream=0'' else rqURI req);
          body = join crlf [''v=0'', ''o=- 0 0 IN IP4 '' @ cfgPublicHost (srvConfig s), ''s=SAT>IP Lab Server'',
            ''t=0 0'', ''a=control:*'', ''m=video 0 RTP/AVP 33'', ''a=rtpmap:33 MP2T/90000'',
            ''a=control:'' @ controlURI, []]
      in buildResponseWithBody cseq ''200 OK'' [''Content-Type: application/sdp''] body)"

definition setup_error_response :: "server \<Rightarrow> string \<Rightarrow> lab_error \<Rightarrow> string" where
  "setup_error_response s cseq e =
     (case e of
        ErrNoTunerAvailable \<Rightarrow> buildResponse cseq (profTunerBusyStatus (srvProfile s)) [''Reason: tuner busy'']
      | ErrNoSignal \<Rightarrow> buildResponse cseq ''503 Service Unavailable'' [''Reason: no signal'']
      | ErrTunerWedged \<Rightarrow> buildResponse cseq ''503 Service Unavailable'' [''Reason: tuner wedged'']
      | ErrServiceNotFound \<Rightarrow> buildResponse cseq ''404 Not Found'' [''Reason: service not found'']
      | _ \<Rightarrow> buildResponse cseq ''400 Bad Request'' [''Reason: invalid tuning''])"

definition setup_object :: "server \<Rightarrow> string \<Rightarrow> transport_spec \<Rightarrow> string \<Rightarrow> setup_result \<Rightarrow> rtsp_session" where
  "setup_object s sid t remoteIP r =
     \<lparr>rssID = sid, rssClientIP = destination t remoteIP, rssClientRTPPort = tsRtpPort t,
      rssClientRTCPPort = tsRtcpPort t, rssTransport = tsMode t, rssRtpChannel = tsRtpChannel t,
      rssRtcpChannel = tsRtcpChannel t, rssRtcpInterval = rtcpStatusInterval s,
      rssService = srService r, rssStreaming = None\<rparr>"

definition setup_response :: "server \<Rightarrow> string \<Rightarrow> string \<Rightarrow> transport_spec \<Rightarrow> string \<Rightarrow> string" where
  "setup_response s cseq sid t clientIP =
     buildResponse cseq ''200 OK''
       [setupSessionHeader s sid,
        profTransportHeader (srvProfile s) @
        (if tsMode t = transportInterleaved
         then '': RTP/AVP/TCP;unicast;interleaved='' @ itoa (tsRtpChannel t) @ ''-'' @ itoa (tsRtcpChannel t)
           @ '';source='' @ cfgPublicHost (srvConfig s)
         else '': RTP/AVP;unicast;destination='' @ clientIP @ '';source='' @ cfgPublicHost (srvConfig s)
           @ '';client_port='' @ itoa (tsRtpPort t) @ ''-'' @ itoa (tsRtcpPort t) @ '';server_port=5000-5001'')]"

definition handleSetupWithState :: "rtsp_env \<Rightarrow> string \<Rightarrow> request \<Rightarrow> string \<Rightarrow> connection option \<Rightarrow> server \<Rightarrow> handled" where
  "handleSetupWithState env remoteIP req cseq c s =
     (let s = s\<lparr>srvNextID := wrap64 (srvNextID s + 1)\<rparr>;
          sid = pad_int 8 (srvNextID s);
          t = parseTransport (envParseIP env) (header req ''transport'')
      in if tsInvalid t
         then (buildResponse cseq ''461 Unsupported Transport'' [''Reason: invalid interleaved channel''], c, s)
         else
           (case with_lab (Setup sid (tuningQueryFromURI (rqURI req)) remoteIP) s of
              (Inl e, s) \<Rightarrow> (setup_error_response s cseq e, c, s)
            | (Inr r, s) \<Rightarrow>
                let ob = setup_object s sid t remoteIP r;
                    s = snd (with_lab (SetRTPTransportDetails sid (apiName t)
                          (apiDestination t (rssClientIP ob)) (apiRTPPort t) (apiRTCPPort t)
                          (apiRTPChannel t) (apiRTCPChannel t)) s);
                    c = rememberSession sid c;
                    s = s\<lparr>srvObjects := (srvObjects s)(sid \<mapsto> ob), srvSessions := insert sid (srvSessions s)\<rparr>
                in (setup_response s cseq sid t (rssClientIP ob), c, s)))"

definition profile_of :: "service \<Rightarrow> service_profile" where
  "profile_of svc = \<lparr>spID = svcID svc, spName = svcName svc, spServiceID = svcServiceID svc,
     spPMTPID = svcPMTPID svc, spVideoPID = svcVideoPID svc, spAudioPID = svcAudioPID svc\<rparr>"

definition session_not_found :: "string \<Rightarrow> string" where
  "session_not_found cseq = buildResponse cseq ''454 Session Not Found'' []"

definition handlePlayWithState :: "rtsp_env \<Rightarrow> request \<Rightarrow> string \<Rightarrow> connection option \<Rightarrow> server \<Rightarrow> handled" where
  "handlePlayWithState env req cseq c s =
     (let sid = sessionIDFrom (header req ''session'')
      in if sid = [] then (session_not_found cseq, c, s)
         else
           (case sessionByID sid s of
              None \<Rightarrow> (session_not_found cseq, c, s)
            | Some ob \<Rightarrow>
                (case with_lab (UpdatePIDs sid (tuningQueryFromURI (rqURI req))) s of
                   (Some e, s) \<Rightarrow> (buildResponse cseq ''400 Bad Request'' [''Reason: invalid pid update''], c, s)
                 | (None, s) \<Rightarrow>
                     (case with_lab (Play sid) s of
                        (Inl e, s) \<Rightarrow> (session_not_found cseq, c, s)
                      | (Inr r, s) \<Rightarrow>
                          (case playPayloadProvider env (profile_of (srService r)) (srService r) (srMux r) s of
                             (Inl e, s) \<Rightarrow> (buildResponse cseq ''500 Internal Server Error'' [], c, s)
                           | (Inr pc, s) \<Rightarrow>
                               let start = (sid, (srService r, srMux r));
                                   (c, s) = (if c \<noteq> None \<and> rssTransport ob = transportInterleaved
                                             then (afterResponse start c, s)
                                             else (c, startStreaming env start s))
                               in (buildResponse cseq ''200 OK'' (sessionHeaders s sid), c, s))))))"

definition handlePause :: "request \<Rightarrow> string \<Rightarrow> server \<Rightarrow> string \<times> server" where
  "handlePause req cseq s =
     (let sid = sessionIDFrom (header req ''session'')
      in if sid = [] then (session_not_found cseq, s)
         else if sessionByID sid s = None then (session_not_found cseq, s)
         else
           let s = stop_object sid s
           in case with_lab (Pause sid) s of
                (Some e, s) \<Rightarrow> (session_not_found cseq, s)
              | (None, s) \<Rightarrow> (buildResponse cseq ''200 OK'' (sessionHeaders s sid), s))"

definition handleTeardownWithState :: "request \<Rightarrow> string \<Rightarrow> connection option \<Rightarrow> server \<Rightarrow> handled" where
  "handleTeardownWithState req cseq c s =
     (let sid = sessionIDFrom (header req ''session'')
      in if sid \<noteq> [] then
           let s = stopAndDeleteSession sid s;
               s = s\<lparr>srvLab := Teardown sid (srvLab s)\<rparr>
           in (buildResponse cseq ''200 OK'' (sessionHeaders s sid), forgetSession sid c, s)
         else (buildResponse cseq ''200 OK'' [], c, s))"

definition handleGetParameter :: "request \<Rightarrow> string \<Rightarrow> server \<Rightarrow> string" where
  "handleGetParameter req cseq s =
     (let sid = sessionIDFrom (header req ''session'')
      in if sid = [] then session_not_found cseq
         else if sessionByID sid s = None then session_not_found cseq
         else buildResponse cseq ''200 OK'' (sessionHeaders s sid))"

section \<open>Dispatch\<close>

definition dispatch :: "rtsp_env \<Rightarrow> string \<Rightarrow> request \<Rightarrow> string \<Rightarrow> connection option \<Rightarrow> server \<Rightarrow> handled" where
  "dispatch env remoteIP req cseq c s =
     (if rqMethod req = ''OPTIONS'' then
        (buildResponse cseq ''200 OK''
           [''Public: OPTIONS, DESCRIBE, SETUP, PLAY, PAUSE, TEARDOWN, GET_PARAMETER''], c, s)
      else if rqMethod req = ''DESCRIBE'' then (handleDescribe req cseq s, c, s)
      else if rqMethod req = ''SETUP'' then handleSetupWithState env remoteIP req cseq c s
      else if rqMethod req = ''PLAY'' then handlePlayWithState env req cseq c s
      else if rqMethod req = ''PAUSE'' then (case handlePause req cseq s of (resp, s) \<Rightarrow> (resp, c, s))
      else if rqMethod req = ''TEARDOWN'' then handleTeardownWithState req cseq c s
      else if rqMethod req = ''GET_PARAMETER'' then (handleGetParameter req cseq s, c, s)
      else (buildResponse cseq ''501 Not Implemented'' [], c, s))"

definition handleRequestWithState :: "rtsp_env \<Rightarrow> string \<Rightarrow> request \<Rightarrow> connection option \<Rightarrow> server \<Rightarrow> handled" where
  "handleRequestWithState env remoteIP req c s =
     (let cseq = (if header req ''cseq'' = [] then ''0'' else header req ''cseq'');
          (now, s) = srv_now s;
          s = expireSessions env now s;
          (now, s) = srv_now s;
          s = touchRequestSession req now s;
          c = (if rqMethod req = ''DESCRIBE'' then map_option (\<lambda>c. c\<lparr>connDescribed := True\<rparr>) c else c)
      in if profRequireDescribeBeforeSetup (srvProfile s) \<and> rqMethod req = ''SETUP''
            \<and> (case c of None \<Rightarrow> True | Some c \<Rightarrow> \<not> connDescribed c)
         then (buildResponse cseq ''455 Method Not Valid in This State''
                 [''Reason: DESCRIBE required before SETUP''], c, s)
         else if cfgScenario (srvConfig s) = StartTunerBusy \<and> rqMethod req = ''SETUP''
         then (buildResponse cseq (profTunerBusyStatus (srvProfile s)) [''Reason: tuner busy''], c, s)
         else dispatch env remoteIP req cseq c (snd (with_lab Scenario s)))"

definition handleRequest :: "rtsp_env \<Rightarrow> string \<Rightarrow> request \<Rightarrow> server \<Rightarrow> string \<times> server" where
  "handleRequest env remoteIP req s =
     (case handleRequestWithState env remoteIP req (Some newConnectionState) s of (resp, _, s) \<Rightarrow> (resp, s))"

section \<open>A connection\<close>

definition runAfterWrite :: "rtsp_env \<Rightarrow> connection \<Rightarrow> server \<Rightarrow> connection \<times> server" where
  "runAfterWrite env c s =
     (c\<lparr>connAfterWrite := []\<rparr>, foldl (\<lambda>s call. startStreaming env call s) s (connAfterWrite c))"

text \<open>One turn of \<open>handleConn\<close>: read a request, handle it, write the response. \<open>None\<close> in place of the
  rest of the input means that the loop has returned and the deferred close follows.\<close>

definition handleConn_turn :: "rtsp_env \<Rightarrow> string \<Rightarrow> bool \<Rightarrow> string \<Rightarrow> connection \<Rightarrow> server
    \<Rightarrow> string option \<times> string option \<times> connection \<times> server" where
  "handleConn_turn env remoteIP write_ok input c s =
     (case readRequest input of
        None \<Rightarrow> (None, None, c, s)
      | Some (req, rest) \<Rightarrow>
          (case handleRequestWithState env remoteIP req (Some c) s of
             (resp, c', s) \<Rightarrow>
               let c = (case c' of Some x \<Rightarrow> x | None \<Rightarrow> c) in
               if \<not> write_ok then (None, None, c, s)
               else case runAfterWrite env c s of (c, s) \<Rightarrow> (Some resp, Some rest, c, s)))"

section \<open>The goroutine of a playing session\<close>

definition statusInterval :: "rtsp_session \<Rightarrow> duration" where
  "statusInterval ob = (if rssRtcpInterval ob > 0 then rssRtcpInterval ob else defaultRTCPStatusInterval)"

text \<open>The closures that \<open>handlePlay\<close> and \<open>handleSetup\<close> pass to it, on the payloads loaded so far and the
  server.\<close>

definition session_providers :: "rtsp_env \<Rightarrow> string \<Rightarrow> play_target \<Rightarrow> (payload_cache \<times> server) providers" where
  "session_providers env sid target =
     (case target of (svc, mux) \<Rightarrow>
        \<lparr>pvRTCP = (\<lambda>(pc, s). case rtcpPacketProvider env sid s of (p, s) \<Rightarrow> (p, (pc, s))),
         pvBehavior = (\<lambda>(pc, s). case streamBehavior svc mux s of (b, s) \<Rightarrow> (b, (pc, s))),
         pvPayload = next_payload env (profile_of svc) svc mux,
         pvOnPacketSent = (\<lambda>n (pc, s). (pc, snd (with_lab (RecordRTPSent sid n) s)))\<rparr>)"

text \<open>One tick. Without a streamer the goroutine has returned: after a lost connection it also closes
  its session.\<close>

definition session_tick :: "rtsp_env \<Rightarrow> (bytes \<Rightarrow> bool) \<Rightarrow> string \<Rightarrow> rtsp_session \<Rightarrow> play_target \<Rightarrow> streamer
    \<Rightarrow> payload_cache \<times> server \<Rightarrow> stream_output list \<times> streamer option \<times> payload_cache \<times> server" where
  "session_tick env send sid ob target st w =
     (case w of (pc, s) \<Rightarrow>
        case srv_now s of (now, s) \<Rightarrow>
          let pv = session_providers env sid target;
              tick = (if rssTransport ob = transportInterleaved
                      then interleaved_tick (rssRtpChannel ob) (rssRtcpChannel ob)
                      else udp_tick (rssClientRTCPPort ob))
          in case tick (statusInterval ob) send pv now st (pc, s) of
               (out, Running st, pc, s) \<Rightarrow> (out, Some st, pc, s)
             | (out, Finished, pc, s) \<Rightarrow> (out, None, pc, stop_object sid s)
             | (out, Lost, pc, s) \<Rightarrow> (out, None, pc, closeSessionAfterConnectionLoss sid (stop_object sid s)))"

end
