(* ===== verification/SessionRegistry.thy ===== *)
theory SessionRegistry
  imports ManagerSpec
begin

text \<open>
  The manager as the RTSP server uses it: a registry of sessions by id. The server keeps a map of its
  own under the same ids, so what it relies on is how each call of the manager changes the set of
  registered ids.
\<close>

section \<open>The contract\<close>

locale session_registry =
  fixes inv :: "'m \<Rightarrow> bool"
    and ids :: "'m \<Rightarrow> 'id set"
    and enter :: "'id \<Rightarrow> 'q \<Rightarrow> 'c \<Rightarrow> 'm \<Rightarrow> ('e + 'r) \<times> 'm"
    and leave :: "'id \<Rightarrow> 'm \<Rightarrow> 'm"
    and expire :: "'id list \<Rightarrow> 't \<Rightarrow> 'd \<Rightarrow> 'm \<Rightarrow> 'id list \<times> 'm"
    and quiet :: "'m \<Rightarrow> 'm \<Rightarrow> bool"
  assumes enter_inv: "inv m \<Longrightarrow> i \<notin> ids m \<Longrightarrow> inv (snd (enter i q c m))"
    and enter_ok: "inv m \<Longrightarrow> enter i q c m = (Inr r, m') \<Longrightarrow> ids m' = insert i (ids m)"
    and enter_error: "inv m \<Longrightarrow> enter i q c m = (Inl e, m') \<Longrightarrow> ids m' = ids m"
    and leave_inv: "inv m \<Longrightarrow> inv (leave i m)"
    and leave_ids: "ids (leave i m) = ids m - {i}"
    and expire_inv: "inv m \<Longrightarrow> inv (snd (expire order now timeout m))"
    and expire_ids: "distinct order \<Longrightarrow> set order = ids m \<Longrightarrow>
      ids (snd (expire order now timeout m)) = ids m - set (fst (expire order now timeout m))"
    and quiet_inv: "quiet m m' \<Longrightarrow> inv m \<Longrightarrow> inv m'"
    and quiet_ids: "quiet m m' \<Longrightarrow> ids m' = ids m"
begin

text \<open>A client's own set of ids agrees with the registry, and keeps agreeing when the client follows
  each call.\<close>

definition agrees :: "'m \<Rightarrow> 'id set \<Rightarrow> bool" where
  "agrees m S \<longleftrightarrow> inv m \<and> ids m = S"

lemma agrees_enter:
  assumes "agrees m S" "i \<notin> S"
  shows "case enter i q c m of (Inl e, m') \<Rightarrow> agrees m' S | (Inr r, m') \<Rightarrow> agrees m' (insert i S)"
  using assms enter_inv [of m i q c] enter_ok [of m i q c] enter_error [of m i q c]
  by (auto simp: agrees_def split: prod.splits sum.splits)

lemma agrees_leave: "agrees m S \<Longrightarrow> agrees (leave i m) (S - {i})"
  by (simp add: agrees_def leave_inv leave_ids)

lemma agrees_expire:
  assumes "agrees m S" "distinct order" "set order = S" "expire order now timeout m = (gone, m')"
  shows "agrees m' (S - set gone)"
  using assms expire_inv [of m order now timeout] expire_ids [of order m now timeout]
  by (simp add: agrees_def)

lemma agrees_quiet: "agrees m S \<Longrightarrow> quiet m m' \<Longrightarrow> agrees m' S"
  by (simp add: agrees_def quiet_inv quiet_ids)

end

section \<open>The calls that register and remove nothing\<close>

named_theorems registry_frame \<open>the ids that a call leaves registered\<close>

lemma ids_Play [registry_frame]: "dom (mSessions (snd (Play sid m))) = dom (mSessions m)"
  by (auto simp: Play_def time_now_def Let_def split: option.splits)

lemma ids_SetRTPTransportDetails [registry_frame]:
  "dom (mSessions (snd (SetRTPTransportDetails sid tr dest p q ch ch' m))) = dom (mSessions m)"
  by (auto simp: SetRTPTransportDetails_def split: option.splits)

lemma ids_RecordRTPSent [registry_frame]:
  "dom (mSessions (snd (RecordRTPSentAt sid n now m))) = dom (mSessions m)"
  "dom (mSessions (snd (RecordRTPSent sid n m))) = dom (mSessions m)"
  by (auto simp: RecordRTPSent_def RecordRTPSentAt_def time_now_def Let_def split: option.splits prod.splits)

lemma ids_Pause [registry_frame]: "dom (mSessions (snd (Pause sid m))) = dom (mSessions m)"
  by (auto simp: Pause_def time_now_def Let_def split: option.splits)

lemma ids_UpdatePIDs [registry_frame]: "dom (mSessions (snd (UpdatePIDs sid q m))) = dom (mSessions m)"
  by (auto simp: UpdatePIDs_def time_now_def Let_def split: option.splits sum.splits)

lemma ids_Touch [registry_frame]: "dom (mSessions (snd (Touch sid now m))) = dom (mSessions m)"
  by (auto simp: Touch_def split: option.splits)

lemma sessions_of_scenario [registry_frame]:
  "mSessions (snd (ScenarioAt now m)) = mSessions m" "mSessions (snd (Scenario m)) = mSessions m"
  "mSessions (snd (SetScenarioOptionsAt name sid mx dur now m)) = mSessions m"
  "mSessions (snd (SetScenarioOptions name sid mx dur m)) = mSessions m"
  "mSessions (snd (SetScenarioTimelineAt steps now m)) = mSessions m"
  "mSessions (snd (SetScenarioTimeline steps m)) = mSessions m"
  by (simp_all add: ScenarioAt_def Scenario_def SetScenarioOptions_def SetScenarioOptionsAt_def
      SetScenarioTimeline_def SetScenarioTimelineAt_def time_now_def Let_def
      split: option.splits sum.splits)

lemma sessions_of_status [registry_frame]:
  "mSessions (snd (StatusAt order now m)) = mSessions m" "mSessions (snd (Status order m)) = mSessions m"
  by (simp_all add: Status_def StatusAt_def time_now_def Let_def)

inductive quiet_step :: "manager \<Rightarrow> manager \<Rightarrow> bool" where
  quiet_now: "quiet_step m (snd (time_now m))"
| quiet_Play: "quiet_step m (snd (Play sid m))"
| quiet_Transport: "quiet_step m (snd (SetRTPTransportDetails sid tr dest p q ch ch' m))"
| quiet_RTPSent: "quiet_step m (snd (RecordRTPSent sid n m))"
| quiet_Pause: "quiet_step m (snd (Pause sid m))"
| quiet_UpdatePIDs: "quiet_step m (snd (UpdatePIDs sid q m))"
| quiet_Touch: "quiet_step m (snd (Touch sid now m))"
| quiet_Status: "quiet_step m (snd (Status order m))"
| quiet_Scenario: "quiet_step m (snd (Scenario m))"
| quiet_SetScenario: "quiet_step m (snd (SetScenarioOptions name sid mx dur m))"
| quiet_SetTimeline: "quiet_step m (snd (SetScenarioTimeline steps m))"

section \<open>The manager keeps it\<close>

lemma Setup_ids:
  assumes "lab_inv m"
  shows "Setup sid q client m = (Inr r, m') \<Longrightarrow> dom (mSessions m') = insert sid (dom (mSessions m))"
    and "Setup sid q client m = (Inl e, m') \<Longrightarrow> dom (mSessions m') = dom (mSessions m)"
  using Setup_effect' [OF assms, where sid = sid and q = q and client = client] by auto

lemma Teardown_ids: "dom (mSessions (Teardown sid m)) = dom (mSessions m) - {sid}"
  by (auto simp: Teardown_def sessions_drop split: option.splits)

lemma ExpireSessions_ids:
  assumes "distinct order" "set order = dom (mSessions m)"
  shows "dom (mSessions (snd (ExpireSessions order now timeout m))) =
    dom (mSessions m) - set (fst (ExpireSessions order now timeout m))"
  using expire_fold [OF assms(1), of now timeout "[]" m] assms(2)
  by (cases "foldl (expire_one now timeout) ([], m) order") (auto simp: ExpireSessions_def)

interpretation reg: session_registry lab_inv "\<lambda>m. dom (mSessions m)" Setup Teardown ExpireSessions quiet_step
proof unfold_locales
  show "lab_inv (snd (Setup i q c m))" if "lab_inv m" "i \<notin> dom (mSessions m)" for i q c m
    using lab_Setup [OF that(1)] that(2) by auto
  show "quiet_step m m' \<Longrightarrow> lab_inv m \<Longrightarrow> lab_inv m'" for m m'
    by (induction rule: quiet_step.induct) (simp_all add: lab_preserved)
  show "quiet_step m m' \<Longrightarrow> dom (mSessions m') = dom (mSessions m)" for m m'
    by (induction rule: quiet_step.induct) (simp_all add: registry_frame)
qed (auto simp: Setup_ids Teardown_ids ExpireSessions_ids lab_preserved)

end
