(* ===== verification/RtspInv.thy ===== *)
theory RtspInv
  imports RtspServer SessionRegistry
begin

text \<open>
  The RTSP server and the lab manager together. The server keeps its own map of sessions beside the
  manager's; here are the invariant that ties the two, and the steps of the whole node: requests on
  any number of connections, callbacks after a response was written, lost connections, the reaper, the
  ticks of the streaming goroutines, resets and scenario changes over HTTP.
\<close>

section \<open>The invariant\<close>

definition issued :: "int \<Rightarrow> string \<Rightarrow> bool" where
  "issued n sid \<longleftrightarrow> (\<exists>i. 1 \<le> i \<and> i \<le> n \<and> sid = pad_int 8 i)"

text \<open>Every object has an id the counter has given out, every session has its object, and a goroutine
  of an object that is no session any more can only be that of an interleaved stream.\<close>

definition objects_ok :: "(string \<rightharpoonup> rtsp_session) \<Rightarrow> string set \<Rightarrow> int \<Rightarrow> bool" where
  "objects_ok objs S n \<longleftrightarrow> 0 \<le> n \<and> n < 2 ^ 63 \<and> finite S \<and> S \<subseteq> dom objs \<and>
     (\<forall>sid ob. objs sid = Some ob \<longrightarrow> issued n sid \<and>
        (rssStreaming ob \<noteq> None \<longrightarrow> sid \<in> S \<or> rssTransport ob = transportInterleaved))"

definition server_ok :: "server \<Rightarrow> bool" where
  "server_ok s \<longleftrightarrow> reg.agrees (srvLab s) (srvSessions s) \<and>
     objects_ok (srvObjects s) (srvSessions s) (srvNextID s)"

text \<open>Pointers stay valid: an object stays where it is, with its transport.\<close>

definition keeps :: "server \<Rightarrow> server \<Rightarrow> bool" where
  "keeps s s' \<longleftrightarrow> (\<forall>sid ob. srvObjects s sid = Some ob \<longrightarrow>
     (\<exists>ob'. srvObjects s' sid = Some ob' \<and> rssTransport ob' = rssTransport ob))"

definition ok_to :: "server \<Rightarrow> server \<Rightarrow> bool" where
  "ok_to s s' \<longleftrightarrow> (server_ok s \<longrightarrow> server_ok s' \<and> keeps s s')"

lemma ok_refl [simp, intro]: "ok_to s s"
  by (auto simp: ok_to_def keeps_def)

lemma ok_trans [trans]: "ok_to s t \<Longrightarrow> ok_to t u \<Longrightarrow> ok_to s u"
  unfolding ok_to_def keeps_def by metis

lemma keeps_trans: "keeps s t \<Longrightarrow> keeps t u \<Longrightarrow> keeps s u"
  unfolding keeps_def by metis

lemma ok_fold: "(\<And>s x. x \<in> set xs \<Longrightarrow> ok_to s (f s x)) \<Longrightarrow> ok_to s (foldl f s xs)"
  by (induction xs arbitrary: s) (auto intro: ok_trans)

lemma issued_mono: "issued n sid \<Longrightarrow> n \<le> n' \<Longrightarrow> issued n' sid"
  by (auto simp: issued_def)

lemma issued_next [intro]: "issued n sid \<Longrightarrow> issued (n + 1) sid"
  by (erule issued_mono) simp

lemma issued_fresh: "0 \<le> n \<Longrightarrow> \<not> issued n (pad_int 8 (n + 1))"
  by (auto simp: issued_def dest: pad_int_inj)

lemma objects_fresh: "objects_ok objs S n \<Longrightarrow> objs (pad_int 8 (n + 1)) = None"
  using issued_fresh [of n] by (cases "objs (pad_int 8 (n + 1))") (auto simp: objects_ok_def)

section \<open>The primitive changes\<close>

lemma ok_quiet: "quiet_step (srvLab s) m \<Longrightarrow> ok_to s (s\<lparr>srvLab := m\<rparr>)"
  by (auto simp: ok_to_def server_ok_def keeps_def intro: reg.agrees_quiet)

lemma ok_with:
  assumes "with_lab f s = (r, s')" "quiet_step (srvLab s) (snd (f (srvLab s)))"
  shows "ok_to s s'"
  using assms ok_quiet [OF assms(2)] by (auto simp: with_lab_def split: prod.splits)

lemma ok_with_snd: "quiet_step (srvLab s) (snd (f (srvLab s))) \<Longrightarrow> ok_to s (snd (with_lab f s))"
  using ok_with [of f s "fst (with_lab f s)"] by simp

lemma ok_now: "srv_now s = (now, s') \<Longrightarrow> ok_to s s'"
  using ok_quiet [OF quiet_now, of s] by (auto simp: srv_now_def split: prod.splits)

text \<open>Changing an object without starting a stream that must not be.\<close>

lemma ok_object:
  assumes "objs' = (srvObjects s)(sid := map_option f (srvObjects s sid))"
    "\<And>ob. rssTransport (f ob) = rssTransport ob"
    "\<And>ob. srvObjects s sid = Some ob \<Longrightarrow> rssStreaming (f ob) \<noteq> None \<Longrightarrow>
       sid \<in> srvSessions s \<or> rssTransport ob = transportInterleaved"
  shows "ok_to s (s\<lparr>srvObjects := objs'\<rparr>)"
  unfolding ok_to_def server_ok_def objects_ok_def keeps_def assms(1)
  using assms(2,3) by (auto simp: dom_def)

lemma ok_stop: "ok_to s (stop_object sid s)"
  unfolding stop_object_def by (rule ok_object [OF refl]) simp_all

lemma stop_object_simps [simp]:
  "srvSessions (stop_object sid s) = srvSessions s" "srvLab (stop_object sid s) = srvLab s"
  "srvNextID (stop_object sid s) = srvNextID s" "srvConfig (stop_object sid s) = srvConfig s"
  "srvProfile (stop_object sid s) = srvProfile s"
  "dom (srvObjects (stop_object sid s)) = dom (srvObjects s)"
  by (auto simp: stop_object_def split: if_splits)

lemma ok_start:
  assumes "\<And>ob. srvObjects s sid = Some ob \<Longrightarrow> sid \<in> srvSessions s \<or> rssTransport ob = transportInterleaved"
  shows "ok_to s (startStreaming env (sid, target) s)"
proof (cases "srvObjects s sid")
  case None
  then show ?thesis using ok_stop [of s sid] by (simp add: startStreaming_def stop_object_def Let_def)
next
  case (Some ob)
  have "ok_to s (s\<lparr>srvObjects := (srvObjects s)(sid \<mapsto> ob\<lparr>rssStreaming := Some target\<rparr>)\<rparr>)"
    by (rule ok_object [where f = "\<lambda>o'. o'\<lparr>rssStreaming := Some target\<rparr>"])
      (use assms Some in \<open>auto\<close>)
  then show ?thesis
    using Some ok_stop [of s sid] by (simp add: startStreaming_def stop_object_def Let_def)
qed

text \<open>Removing sessions on both sides.\<close>

lemma objects_remove:
  assumes "objects_ok objs S n" "dom objs' = dom objs"
    "\<And>sid ob'. objs' sid = Some ob' \<Longrightarrow> \<exists>ob. objs sid = Some ob \<and> rssTransport ob' = rssTransport ob \<and>
       (rssStreaming ob' = None \<or> sid \<notin> gone \<and> rssStreaming ob' = rssStreaming ob)"
  shows "objects_ok objs' (S - gone) n"
proof -
  have "issued n sid \<and> (rssStreaming ob' \<noteq> None \<longrightarrow> sid \<in> S - gone \<or> rssTransport ob' = transportInterleaved)"
    if "objs' sid = Some ob'" for sid ob'
    using assms(3) [OF that] assms(1) unfolding objects_ok_def by (metis DiffI)
  then show ?thesis using assms(1,2) by (auto simp: objects_ok_def)
qed

lemma ok_remove:
  assumes "reg.agrees (srvLab s) (srvSessions s) \<Longrightarrow> reg.agrees m (srvSessions s - gone)"
    and "objs' = (\<lambda>sid. map_option (\<lambda>ob. if sid \<in> gone then ob\<lparr>rssStreaming := None\<rparr> else ob) (srvObjects s sid))"
  shows "ok_to s (s\<lparr>srvLab := m, srvObjects := objs', srvSessions := srvSessions s - gone\<rparr>)"
proof -
  have "objects_ok objs' (srvSessions s - gone) (srvNextID s)"
    if "objects_ok (srvObjects s) (srvSessions s) (srvNextID s)"
    by (rule objects_remove [OF that]) (auto simp: assms(2) dom_def)
  moreover have "keeps s (s\<lparr>srvLab := m, srvObjects := objs', srvSessions := srvSessions s - gone\<rparr>)"
    by (auto simp: keeps_def assms(2))
  ultimately show ?thesis using assms(1) by (simp add: ok_to_def server_ok_def)
qed

lemma ok_lab:
  "(reg.agrees (srvLab s) (srvSessions s) \<Longrightarrow> reg.agrees m (srvSessions s)) \<Longrightarrow> ok_to s (s\<lparr>srvLab := m\<rparr>)"
  by (simp add: ok_to_def server_ok_def keeps_def)

lemma ok_close: "ok_to s ((stopAndDeleteSession sid s)\<lparr>srvLab := Teardown sid (srvLab s)\<rparr>)"
proof (cases "sid \<in> srvSessions s")
  case True
  have "(stopAndDeleteSession sid s)\<lparr>srvLab := Teardown sid (srvLab s)\<rparr> =
      s\<lparr>srvLab := Teardown sid (srvLab s),
        srvObjects := (\<lambda>x. map_option (\<lambda>ob. if x \<in> {sid} then ob\<lparr>rssStreaming := None\<rparr> else ob) (srvObjects s x)),
        srvSessions := srvSessions s - {sid}\<rparr>"
    using True by (auto simp: stopAndDeleteSession_def stop_object_def fun_eq_iff option.map_ident)
  then show ?thesis
    using ok_remove [where s = s and gone = "{sid}", OF reg.agrees_leave refl] by simp
next
  case False
  then show ?thesis
    using ok_lab [of s "Teardown sid (srvLab s)"] reg.agrees_leave [of "srvLab s" "srvSessions s" sid]
    by (simp add: stopAndDeleteSession_def)
qed

lemma stopAndDelete_lab [simp]: "srvLab (stopAndDeleteSession sid s) = srvLab s"
  by (simp add: stopAndDeleteSession_def)

lemma ok_connection_loss: "ok_to s (closeSessionAfterConnectionLoss sid s)"
  using ok_close [of s sid] by (simp add: closeSessionAfterConnectionLoss_def Let_def)

lemma expire_objects:
  "foldl expire_object s xs =
     s\<lparr>srvObjects := (\<lambda>x. map_option (\<lambda>ob. if x \<in> set xs \<inter> srvSessions s then ob\<lparr>rssStreaming := None\<rparr> else ob)
         (srvObjects s x)),
       srvSessions := srvSessions s - (set xs \<inter> srvSessions s)\<rparr>"
proof (induction xs arbitrary: s)
  case Nil
  then show ?case by (simp add: option.map_ident)
next
  case (Cons x xs)
  have "foldl expire_object s (x # xs) = foldl expire_object (expire_object s x) xs" by simp
  also have "\<dots> = s\<lparr>srvObjects := (\<lambda>y. map_option (\<lambda>ob. if y \<in> set (x # xs) \<inter> srvSessions s
        then ob\<lparr>rssStreaming := None\<rparr> else ob) (srvObjects s y)),
      srvSessions := srvSessions s - (set (x # xs) \<inter> srvSessions s)\<rparr>"
    unfolding Cons
    by (rule server.equality)
      (auto simp: expire_object_def stop_object_def fun_eq_iff option.map_comp comp_def
        intro!: option.map_cong)
  finally show ?case .
qed

text \<open>The runtime ranges over a map of sessions in some order, each key once.\<close>

definition env_ok :: "rtsp_env \<Rightarrow> bool" where
  "env_ok env \<longleftrightarrow> (\<forall>ss. finite (dom ss) \<longrightarrow> distinct (envOrder env ss) \<and> set (envOrder env ss) = dom ss)"

lemma ok_expire:
  assumes "env_ok env"
  shows "ok_to s (expireSessions env now s)"
proof -
  obtain gone m where e: "ExpireSessions (envOrder env (mSessions (srvLab s))) now rtspSessionTimeout (srvLab s)
      = (gone, m)" by fastforce
  have "ok_to s (s\<lparr>srvLab := m, srvObjects := (\<lambda>x. map_option (\<lambda>ob. if x \<in> set gone \<inter> srvSessions s
        then ob\<lparr>rssStreaming := None\<rparr> else ob) (srvObjects s x)),
      srvSessions := srvSessions s - (set gone \<inter> srvSessions s)\<rparr>)" if "finite (srvSessions s)"
  proof (rule ok_remove [OF _ refl])
    assume a: "reg.agrees (srvLab s) (srvSessions s)"
    then have "dom (mSessions (srvLab s)) = srvSessions s" by (simp add: reg.agrees_def)
    then show "reg.agrees m (srvSessions s - set gone \<inter> srvSessions s)"
      using reg.agrees_expire [OF a _ _ e] assms that by (simp add: env_ok_def Diff_Int_distrib2 Diff_Int)
  qed
  then show ?thesis
    by (auto simp: expireSessions_def with_lab_def e expire_objects ok_to_def server_ok_def objects_ok_def)
qed

lemma ok_Reset: "ok_to s ((Server_Reset s)\<lparr>srvLab := Reset (srvLab s)\<rparr>)"
proof -
  have "reg.agrees (Reset (srvLab s)) (srvSessions s - srvSessions s)"
    if "reg.agrees (srvLab s) (srvSessions s)"
    using that by (simp add: reg.agrees_def lab_Reset) (simp add: Reset_def Let_def)
  moreover have "(Server_Reset s)\<lparr>srvLab := m\<rparr> = s\<lparr>srvLab := m,
      srvObjects := (\<lambda>sid. map_option (\<lambda>ob. if sid \<in> srvSessions s then ob\<lparr>rssStreaming := None\<rparr> else ob)
        (srvObjects s sid)), srvSessions := srvSessions s - srvSessions s\<rparr>" for m
    by (rule server.equality) (simp_all add: Server_Reset_def)
  ultimately show ?thesis
    using ok_remove [where s = s and gone = "srvSessions s", OF _ refl] by simp
qed

section \<open>The handlers\<close>

text \<open>The streams that a connection has still to start are interleaved ones.\<close>

definition calls_ok :: "server \<Rightarrow> connection option \<Rightarrow> bool" where
  "calls_ok s c \<longleftrightarrow> (case c of None \<Rightarrow> True | Some c \<Rightarrow>
     (\<forall>call\<in>set (connAfterWrite c). \<exists>ob. srvObjects s (fst call) = Some ob \<and> rssTransport ob = transportInterleaved))"

lemma calls_keep: "calls_ok s c \<Longrightarrow> keeps s s' \<Longrightarrow> calls_ok s' c"
  unfolding calls_ok_def keeps_def by (cases c) (simp, simp, metis)

lemma calls_connection [simp]:
  "calls_ok s (rememberSession sid c) = calls_ok s c" "calls_ok s (forgetSession sid c) = calls_ok s c"
  "calls_ok s (map_option (\<lambda>c. c\<lparr>connDescribed := b\<rparr>) c) = calls_ok s c"
  by (cases c; simp add: calls_ok_def rememberSession_def forgetSession_def)+

text \<open>What a handler promises: the server is still as it must be, and so are the pending calls.\<close>

definition handled_ok :: "server \<Rightarrow> connection option \<Rightarrow> handled \<Rightarrow> bool" where
  "handled_ok s c r \<longleftrightarrow> (server_ok s \<longrightarrow> calls_ok s c \<longrightarrow>
     (case r of (_, c', s') \<Rightarrow> server_ok s' \<and> keeps s s' \<and> calls_ok s' c'))"

lemma handled_same: "ok_to s s' \<Longrightarrow> handled_ok s c (resp, c, s')"
  by (auto simp: handled_ok_def ok_to_def intro: calls_keep)

lemma handled_after: "ok_to s t \<Longrightarrow> handled_ok t c r \<Longrightarrow> handled_ok s c r"
  unfolding handled_ok_def ok_to_def
  by (cases r) (simp, metis calls_keep keeps_trans)

lemma handled_connection:
  "handled_ok s c (resp, c', s') \<Longrightarrow> handled_ok s c (resp, rememberSession sid c', s')"
  "handled_ok s c (resp, c', s') \<Longrightarrow> handled_ok s c (resp, forgetSession sid c', s')"
  by (simp_all add: handled_ok_def)

lemma handle_Teardown: "handled_ok s c (handleTeardownWithState req cseq c s)"
  by (simp add: handleTeardownWithState_def Let_def handled_same handled_connection ok_close)

lemma handle_Pause:
  assumes "handlePause req cseq s = (resp, s')"
  shows "ok_to s s'"
proof -
  have "ok_to s s1" if "with_lab (Pause sid) (stop_object sid s) = (e, s1)" for sid e s1
    by (rule ok_trans [OF ok_stop]) (rule ok_with [OF that quiet_Pause])
  then show ?thesis
    using assms by (auto simp: handlePause_def Let_def split: if_splits prod.splits option.splits)
qed

text \<open>\<open>SETUP\<close> counts up, so its id is fresh.\<close>

lemma server_fresh:
  assumes "server_ok s"
  shows "pad_int 8 (srvNextID s + 1) \<notin> srvSessions s" "srvObjects s (pad_int 8 (srvNextID s + 1)) = None"
proof -
  show gone: "srvObjects s (pad_int 8 (srvNextID s + 1)) = None"
    using assms objects_fresh by (auto simp: server_ok_def)
  show "pad_int 8 (srvNextID s + 1) \<notin> srvSessions s"
    using assms gone by (auto simp: server_ok_def objects_ok_def)
qed

lemma ok_count:
  "srvNextID s + 1 < 2 ^ 63 \<Longrightarrow> ok_to s (s\<lparr>srvNextID := srvNextID s + 1\<rparr>)"
  by (auto simp: ok_to_def server_ok_def objects_ok_def keeps_def)

lemma ok_register:
  assumes "server_ok s" "srvNextID s + 1 < 2 ^ 63" "rssStreaming ob = None"
    "reg.agrees m (insert (pad_int 8 (srvNextID s + 1)) (srvSessions s))"
  defines "sid \<equiv> pad_int 8 (srvNextID s + 1)"
  shows "ok_to s (s\<lparr>srvNextID := srvNextID s + 1, srvLab := m,
    srvObjects := (srvObjects s)(sid \<mapsto> ob), srvSessions := insert sid (srvSessions s)\<rparr>)"
proof -
  have "issued (srvNextID s + 1) sid" unfolding issued_def sid_def
    using assms(1) by (intro exI [of _ "srvNextID s + 1"]) (auto simp: server_ok_def objects_ok_def)
  then have "objects_ok ((srvObjects s)(sid \<mapsto> ob)) (insert sid (srvSessions s)) (srvNextID s + 1)"
    using assms(1-3) by (auto simp: server_ok_def objects_ok_def)
  then show ?thesis
    using assms(4) server_fresh(2) [OF assms(1)] by (auto simp: ok_to_def server_ok_def keeps_def sid_def)
qed

lemma srv_wrap: "server_ok s \<Longrightarrow> srvNextID s + 1 < 2 ^ 63 \<Longrightarrow> wrap64 (srvNextID s + 1) = srvNextID s + 1"
  by (rule wrap64_id) (auto simp: server_ok_def objects_ok_def)

text \<open>The three ways through \<open>SETUP\<close>.\<close>

definition registered :: "server \<Rightarrow> string \<Rightarrow> transport_spec \<Rightarrow> string \<Rightarrow> setup_result \<Rightarrow> manager \<Rightarrow> server" where
  "registered s sid t ip r m =
     s\<lparr>srvNextID := srvNextID s + 1,
       srvLab := snd (SetRTPTransportDetails sid (apiName t) (apiDestination t (destination t ip))
         (apiRTPPort t) (apiRTCPPort t) (apiRTPChannel t) (apiRTCPChannel t) m),
       srvObjects := (srvObjects s)(sid \<mapsto> setup_object s sid t ip r),
       srvSessions := insert sid (srvSessions s)\<rparr>"

lemma setup_texts:
  "setup_error_response (s\<lparr>srvNextID := n\<rparr>) = setup_error_response s"
  "setup_error_response (s\<lparr>srvLab := m\<rparr>) = setup_error_response s"
  "setup_response (s\<lparr>srvNextID := n\<rparr>) = setup_response s"
  "setup_response (s\<lparr>srvLab := m\<rparr>) = setup_response s"
  "setup_response (s\<lparr>srvObjects := obs\<rparr>) = setup_response s"
  "setup_response (s\<lparr>srvSessions := ss\<rparr>) = setup_response s"
  "setup_object (s\<lparr>srvNextID := n\<rparr>) = setup_object s"
  "setup_object (s\<lparr>srvLab := m\<rparr>) = setup_object s"
  by (simp_all add: fun_eq_iff setup_error_response_def setup_response_def setup_object_def
      setupSessionHeader_def rtcpStatusInterval_def split: lab_error.split)

lemma handleSetup_eq:
  assumes "wrap64 (srvNextID s + 1) = srvNextID s + 1"
  shows "handleSetupWithState env ip req cseq c s =
    (let sid = pad_int 8 (srvNextID s + 1); t = parseTransport (envParseIP env) (header req ''transport'') in
     if tsInvalid t
     then (buildResponse cseq ''461 Unsupported Transport'' [''Reason: invalid interleaved channel''], c,
           s\<lparr>srvNextID := srvNextID s + 1\<rparr>)
     else case Setup sid (tuningQueryFromURI (rqURI req)) ip (srvLab s) of
       (Inl e, m) \<Rightarrow> (setup_error_response s cseq e, c, s\<lparr>srvNextID := srvNextID s + 1, srvLab := m\<rparr>)
     | (Inr r, m) \<Rightarrow> (setup_response s cseq sid t (destination t ip), rememberSession sid c,
         registered s sid t ip r m))"
proof -
  have ip: "rssClientIP (setup_object s' sid t ip r) = destination t ip" for s' sid t r
    by (simp add: setup_object_def)
  show ?thesis
    unfolding handleSetupWithState_def assms Let_def with_lab_def registered_def
    by (simp add: setup_texts ip split_beta split: sum.split)
qed

lemma handle_Setup:
  assumes room: "srvNextID s + 1 < 2 ^ 63"
  shows "handled_ok s c (handleSetupWithState env ip req cseq c s)"
proof (cases "server_ok s")
  case ok: True
  let ?s = "s\<lparr>srvNextID := srvNextID s + 1\<rparr>" and ?sid = "pad_int 8 (srvNextID s + 1)"
  let ?t = "parseTransport (envParseIP env) (header req ''transport'')"
  let ?q = "tuningQueryFromURI (rqURI req)"
  note counted = ok_count [OF room] and eq = handleSetup_eq [OF srv_wrap [OF ok room]]
  obtain r m where called: "Setup ?sid ?q ip (srvLab s) = (r, m)" by fastforce
  have sides: "case r of Inl e \<Rightarrow> reg.agrees m (srvSessions s) | Inr _ \<Rightarrow> reg.agrees m (insert ?sid (srvSessions s))"
    using reg.agrees_enter [of "srvLab s" "srvSessions s" ?sid ?q ip] server_fresh(1) [OF ok] ok called
    by (auto simp: server_ok_def split: sum.splits)
  show ?thesis
  proof (cases r)
    case (Inl e)
    then have "ok_to ?s (?s\<lparr>srvLab := m\<rparr>)" using sides by (intro ok_lab) simp
    from ok_trans [OF counted this] show ?thesis
      using counted by (simp add: eq Let_def called Inl handled_same)
  next
    case (Inr res)
    have "ok_to s (registered s ?sid ?t ip res m)"
      unfolding registered_def
      by (intro ok_register ok room reg.agrees_quiet [OF _ quiet_Transport])
        (use sides Inr in \<open>simp_all add: setup_object_def\<close>)
    then show ?thesis
      using counted by (simp add: eq Let_def called Inr handled_same handled_connection)
  qed
qed (simp add: handled_ok_def)

lemma handle_Play: "handled_ok s c (handlePlayWithState env req cseq c s)"
proof -
  let ?sid = "sessionIDFrom (header req ''session'')"
  show ?thesis
  proof (cases "?sid = [] \<or> sessionByID ?sid s = None")
    case True
    then show ?thesis by (auto simp: handlePlayWithState_def Let_def handled_same)
  next
    case False
    then obtain ob where ob: "?sid \<noteq> []" "?sid \<in> srvSessions s" "srvObjects s ?sid = Some ob"
      by (auto simp: sessionByID_def split: if_splits)
    obtain e s1 where u: "with_lab (UpdatePIDs ?sid (tuningQueryFromURI (rqURI req))) s = (e, s1)" by fastforce
    obtain r s2 where p: "with_lab (Play ?sid) s1 = (r, s2)" by fastforce
    obtain sc s3 where sc: "with_lab Scenario s2 = (sc, s3)" by fastforce
    have ok1: "ok_to s s1" by (rule ok_with [OF u quiet_UpdatePIDs])
    have ok2: "ok_to s s2" by (rule ok_trans [OF ok1 ok_with [OF p quiet_Play]])
    have ok3: "ok_to s s3" by (rule ok_trans [OF ok2 ok_with [OF sc quiet_Scenario]])
    have same: "srvObjects s3 = srvObjects s" "srvSessions s3 = srvSessions s"
      using u p sc by (auto simp: with_lab_def split: prod.splits)
    have now: "handled_ok s c (resp, c, startStreaming env (?sid, target) s3)" for resp target
      by (rule handled_same, rule ok_trans [OF ok3], rule ok_start) (use ob same in simp)
    have later: "handled_ok s c (resp, afterResponse (?sid, target) c, s3)"
      if "rssTransport ob = transportInterleaved" for resp target
      using handled_same [OF ok3, of c resp] ob(3) same that
      by (cases c) (auto simp: handled_ok_def afterResponse_def calls_ok_def)
    show ?thesis
      using ob u p sc ok1 ok2 ok3 now later
      by (auto simp: handlePlayWithState_def sessionByID_def playPayloadProvider_def Let_def handled_same
          split: option.splits sum.splits prod.splits)
  qed
qed

lemma ok_touch: "ok_to s (touchRequestSession req now s)"
  by (simp add: touchRequestSession_def Let_def ok_with_snd quiet_Touch)

lemma handle_dispatch:
  "srvNextID s + 1 < 2 ^ 63 \<Longrightarrow> handled_ok s c (dispatch env ip req cseq c s)"
  by (auto simp: dispatch_def handled_same handle_Setup handle_Play handle_Teardown
      split: prod.split intro: handled_same [OF handle_Pause])

text \<open>What comes before the dispatch leaves the counter alone.\<close>

lemma expire_next [simp]: "srvNextID (expireSessions env now s) = srvNextID s"
  by (simp add: expireSessions_def with_lab_def expire_objects split: prod.split)

lemma touch_next [simp]: "srvNextID (touchRequestSession req now s) = srvNextID s"
  by (simp add: touchRequestSession_def with_lab_def Let_def split: prod.split)

lemma with_next [simp]: "srvNextID (snd (with_lab f s)) = srvNextID s"
  by (simp add: with_lab_def split: prod.split)

lemma now_next: "srv_now s = (now, s') \<Longrightarrow> srvNextID s' = srvNextID s"
  by (auto simp: srv_now_def split: prod.splits)

lemma handle_request:
  assumes "env_ok env" "srvNextID s + 1 < 2 ^ 63"
  shows "handled_ok s c (handleRequestWithState env ip req c s)"
proof -
  obtain n1 s1 where s1: "srv_now s = (n1, s1)" by fastforce
  define s2 where "s2 = expireSessions env n1 s1"
  obtain n3 s3 where s3: "srv_now s2 = (n3, s3)" by fastforce
  define s4 where "s4 = touchRequestSession req n3 s3"
  define s5 where "s5 = snd (with_lab Scenario s4)"
  have ok4: "ok_to s s4"
    using ok_now [OF s1] ok_expire [OF assms(1), of s1 n1] ok_now [OF s3] ok_touch [of s3 req n3]
    unfolding s2_def s4_def by (meson ok_trans)
  have ok5: "ok_to s s5"
    unfolding s5_def by (rule ok_trans [OF ok4]) (rule ok_with_snd, rule quiet_Scenario)
  have "srvNextID s5 = srvNextID s"
    using now_next [OF s1] now_next [OF s3] by (simp add: s5_def s4_def s2_def)
  then have dispatched: "handled_ok s c' (dispatch env ip req cseq c' s5)" for c' cseq
    using assms(2) by (intro handled_after [OF ok5] handle_dispatch) simp
  have described: "handled_ok s c r = handled_ok s (map_option (\<lambda>c. c\<lparr>connDescribed := True\<rparr>) c) r" for r
    by (simp add: handled_ok_def)
  show ?thesis
    by (simp add: handleRequestWithState_def s1 s2_def [symmetric] s3 s4_def [symmetric] s5_def [symmetric]
        Let_def handled_same ok4 dispatched) (simp add: described handled_same ok4 dispatched)
qed

section \<open>Connections and goroutines\<close>

lemma ok_runAfterWrite:
  assumes "server_ok s" "calls_ok s (Some c)"
  shows "server_ok (snd (runAfterWrite env c s)) \<and> keeps s (snd (runAfterWrite env c s))"
proof -
  have "server_ok (foldl (\<lambda>s call. startStreaming env call s) s xs) \<and>
      keeps s (foldl (\<lambda>s call. startStreaming env call s) s xs)"
    if "server_ok s" "\<forall>call\<in>set xs. \<exists>ob. srvObjects s (fst call) = Some ob \<and> rssTransport ob = transportInterleaved"
    for xs s
    using that
  proof (induction xs arbitrary: s)
    case Nil
    then show ?case by (simp add: keeps_def)
  next
    case (Cons call xs)
    let ?s = "startStreaming env call s"
    have "ok_to s ?s"
      using Cons.prems(2) ok_start [of s "fst call" env "snd call"] by auto
    then have s': "server_ok ?s" "keeps s ?s" using Cons.prems(1) by (auto simp: ok_to_def)
    have "\<exists>ob. srvObjects ?s (fst c) = Some ob \<and> rssTransport ob = transportInterleaved" if "c \<in> set xs" for c
      using Cons.prems(2) that s'(2) unfolding keeps_def by (metis list.set_intros(2))
    then show ?case using Cons.IH [OF s'(1)] s'(2) keeps_trans by auto
  qed
  then show ?thesis using assms by (simp add: runAfterWrite_def calls_ok_def)
qed

lemma ok_closeConnection: "ok_to s (fst (closeConnectionSessions order c s))"
proof -
  have "ok_to (fst sc) (fst (foldl close_one sc order))" for sc
  proof (induction order arbitrary: sc)
    case (Cons sid order)
    have "ok_to (fst sc) (fst (close_one sc sid))"
      by (auto simp: close_one_def Let_def ok_connection_loss split: prod.split option.split)
    with Cons [of "close_one sc sid"] show ?case by (auto intro: ok_trans)
  qed simp
  from this [of "(s, c)"] show ?thesis by (simp add: closeConnectionSessions_def)
qed

text \<open>A tick changes the world only by calls of its providers.\<close>

lemma tick_world:
  assumes "\<And>w. P w \<Longrightarrow> P (snd (pvRTCP pv w))" "\<And>w. P w \<Longrightarrow> P (snd (pvBehavior pv w))"
    "\<And>w. P w \<Longrightarrow> P (snd (pvPayload pv w))" "\<And>w n. P w \<Longrightarrow> P (pvOnPacketSent pv n w)" "P w"
  shows "P (snd (snd (udp_tick p i send pv now st w)))"
    and "P (snd (snd (interleaved_tick ch ch' i send pv now st w)))"
proof -
  have sent: "P (snd (snd (send_chunk strict wrap send pv b chunk st w)))" if "P w" for strict wrap b chunk st w
    using that assms(4) by (auto simp: send_chunk_def Let_def split: prod.splits)
  have chunk: "P (snd (snd (stream_chunk strict wrap send pv now st w)))" if "P w" for strict wrap st w
    using that assms(2) [of w] assms(3) [of "snd (pvBehavior pv w)"] sent
    by (auto simp: stream_chunk_def Let_def split: prod.splits)
  have reports: "P (snd (sendUDPRTCP send pv w))" "P (snd (snd (writeInterleavedRTCP ch' send pv w)))"
    using assms(1) [OF assms(5)]
    by (auto simp: sendUDPRTCP_def writeInterleavedRTCP_def Let_def split: prod.split option.split list.split)
  show "P (snd (snd (udp_tick p i send pv now st w)))"
    using chunk reports assms(5) by (auto simp: udp_tick_def Let_def split: prod.splits if_splits) (metis snd_conv)+
  show "P (snd (snd (interleaved_tick ch ch' i send pv now st w)))"
    using chunk reports assms(5)
    by (auto simp: interleaved_tick_def Let_def split: prod.splits if_splits) (metis snd_conv)+
qed

lemma ok_rtcp: "ok_to s (snd (rtcpPacketProvider env sid s))"
proof -
  obtain st s1 where st: "with_lab (\<lambda>m. Status (envOrder env (mSessions m)) m) s = (st, s1)" by fastforce
  have "ok_to s s1" by (rule ok_with [OF st quiet_Status])
  then show ?thesis by (simp add: rtcpPacketProvider_def rtcpStatusForSession_def st split: prod.split option.split)
qed

lemma ok_Scenario: "with_lab Scenario s = (sc, s') \<Longrightarrow> ok_to s s'"
  by (erule ok_with) (rule quiet_Scenario)

lemma ok_behavior: "ok_to s (snd (streamBehavior svc mux s))"
  by (auto simp: streamBehavior_def split: prod.split intro: ok_Scenario)

lemma ok_payload: "ok_to s (snd (snd (next_payload env p svc mux (pc, s))))"
  by (auto simp: next_payload_def split: prod.split sum.split intro: ok_Scenario)

lemma ok_providers:
  "ok_to (snd w) (snd (snd (pvRTCP (session_providers env sid target) w)))"
  "ok_to (snd w) (snd (snd (pvBehavior (session_providers env sid target) w)))"
  "ok_to (snd w) (snd (snd (pvPayload (session_providers env sid target) w)))"
  "ok_to (snd w) (snd (pvOnPacketSent (session_providers env sid target) n w))"
proof -
  obtain pc s svc mux where w: "w = (pc, s)" "target = (svc, mux)" by (metis prod.collapse)
  note defs = w session_providers_def
  show "ok_to (snd w) (snd (snd (pvRTCP (session_providers env sid target) w)))"
    using ok_rtcp [of s env sid] by (auto simp: defs split: prod.split)
  show "ok_to (snd w) (snd (snd (pvBehavior (session_providers env sid target) w)))"
    using ok_behavior [of s svc mux] by (auto simp: defs split: prod.split)
  show "ok_to (snd w) (snd (snd (pvPayload (session_providers env sid target) w)))"
    using ok_payload [of s] by (simp add: defs)
  show "ok_to (snd w) (snd (pvOnPacketSent (session_providers env sid target) n w))"
    using ok_with_snd [of s "RecordRTPSent sid n"] quiet_RTPSent by (simp add: defs)
qed

lemma ok_tick: "ok_to s (snd (snd (snd (session_tick env send sid ob target st (pc, s)))))"
proof -
  obtain now s1 where now: "srv_now s = (now, s1)" by fastforce
  let ?tick = "if rssTransport ob = transportInterleaved
    then interleaved_tick (rssRtpChannel ob) (rssRtcpChannel ob) else udp_tick (rssClientRTCPPort ob)"
  obtain out e pc2 s2 where t: "?tick (statusInterval ob) send (session_providers env sid target) now st (pc, s1) =
      (out, e, pc2, s2)" by (metis prod_cases4)
  have "ok_to s (snd (snd (snd (?tick (statusInterval ob) send (session_providers env sid target) now st (pc, s1)))))"
    using tick_world [where P = "\<lambda>w. ok_to s (snd w)" and pv = "session_providers env sid target" and w = "(pc, s1)"]
      ok_providers ok_now [OF now] ok_trans by auto
  then have "ok_to s s2" unfolding t by simp
  then show ?thesis
    using ok_trans [OF _ ok_stop] ok_trans [OF _ ok_connection_loss]
    by (cases e) (simp_all add: session_tick_def now Let_def t [simplified])
qed

section \<open>The node\<close>

text \<open>The server and its open connections. A goroutine's own variables (its streamer and its payload
  cache) are arbitrary in a tick, so the steps include every state it can be in. HTTP reads and scenario
  changes are quiet steps of the manager; \<open>POST /api/reset\<close> resets both. The counter of sessions does not
  overflow before 2^63 SETUPs.\<close>

record node =
  ndServer :: server
  ndConns :: "nat \<rightharpoonup> connection"

definition node_init :: "node \<Rightarrow> bool" where
  "node_init nd \<longleftrightarrow> (\<exists>cfg src c n clock. wf_catalog c \<and>
     nd = \<lparr>ndServer = NewServer cfg src (Some (NewManager c n clock)) clock, ndConns = Map.empty\<rparr>)"

inductive node_step :: "rtsp_env \<Rightarrow> node \<Rightarrow> node \<Rightarrow> bool" for env where
  nd_accept: "ndConns nd cid = None \<Longrightarrow>
    node_step env nd (nd\<lparr>ndConns := (ndConns nd)(cid \<mapsto> newConnectionState)\<rparr>)"
| nd_request: "ndConns nd cid = Some c \<Longrightarrow> srvNextID (ndServer nd) + 1 < 2 ^ 63 \<Longrightarrow>
    handleRequestWithState env ip req (Some c) (ndServer nd) = (resp, Some c', s') \<Longrightarrow>
    node_step env nd \<lparr>ndServer = s', ndConns = (ndConns nd)(cid \<mapsto> c')\<rparr>"
| nd_written: "ndConns nd cid = Some c \<Longrightarrow> runAfterWrite env c (ndServer nd) = (c', s') \<Longrightarrow>
    node_step env nd \<lparr>ndServer = s', ndConns = (ndConns nd)(cid \<mapsto> c')\<rparr>"
| nd_close: "ndConns nd cid = Some c \<Longrightarrow> set order = connSessionIDs c \<Longrightarrow>
    node_step env nd \<lparr>ndServer = fst (closeConnectionSessions order c (ndServer nd)),
      ndConns = (ndConns nd)(cid := None)\<rparr>"
| nd_reap: "node_step env nd (nd\<lparr>ndServer := expireSessions env now (ndServer nd)\<rparr>)"
| nd_tick: "srvObjects (ndServer nd) sid = Some ob \<Longrightarrow> rssStreaming ob = Some target \<Longrightarrow>
    node_step env nd (nd\<lparr>ndServer :=
      snd (snd (snd (session_tick env send sid ob target st (pc, ndServer nd))))\<rparr>)"
| nd_reset: "node_step env nd (nd\<lparr>ndServer :=
    (Server_Reset (ndServer nd))\<lparr>srvLab := Reset (srvLab (ndServer nd))\<rparr>\<rparr>)"
| nd_http: "quiet_step (srvLab (ndServer nd)) m \<Longrightarrow>
    node_step env nd (nd\<lparr>ndServer := (ndServer nd)\<lparr>srvLab := m\<rparr>\<rparr>)"

definition node_ok :: "node \<Rightarrow> bool" where
  "node_ok nd \<longleftrightarrow> server_ok (ndServer nd) \<and> (\<forall>cid. calls_ok (ndServer nd) (ndConns nd cid))"

lemma node_server:
  assumes "node_ok nd" "ok_to (ndServer nd) s'" "\<And>cid. calls_ok s' (ndConns nd cid) \<Longrightarrow> calls_ok s' (conns cid)"
  shows "node_ok \<lparr>ndServer = s', ndConns = conns\<rparr>"
proof -
  have "server_ok s'" "keeps (ndServer nd) s'" using assms(1,2) by (simp_all add: node_ok_def ok_to_def)
  moreover from this have "calls_ok s' (ndConns nd cid)" for cid
    using assms(1) calls_keep by (metis node_ok_def)
  ultimately show ?thesis using assms(3) by (simp add: node_ok_def)
qed

lemma node_change: "node_ok nd \<Longrightarrow> ok_to (ndServer nd) s' \<Longrightarrow> node_ok (nd\<lparr>ndServer := s'\<rparr>)"
  using node_server [of nd s' "ndConns nd"] by (cases nd) simp

lemma node_new: "node_init nd \<Longrightarrow> node_ok nd"
  by (auto simp: node_init_def node_ok_def NewServer_def server_ok_def objects_ok_def calls_ok_def Let_def
      reg.agrees_def lab_NewManager) (simp add: NewManager_def Let_def)

lemma node_steps:
  assumes "env_ok env" "node_step env nd nd'" "node_ok nd"
  shows "node_ok nd'"
  using assms(2,3)
proof (induction rule: node_step.induct)
  case (nd_accept nd cid)
  then show ?case by (simp add: node_ok_def calls_ok_def newConnectionState_def)
next
  case (nd_request nd cid c ip req resp c' s')
  have "handled_ok (ndServer nd) (Some c) (resp, Some c', s')"
    using handle_request [OF assms(1) nd_request(2), of "Some c" ip req] nd_request(3) by simp
  then show ?case
    using nd_request(1,4) calls_keep by (auto simp: node_ok_def handled_ok_def) metis+
next
  case (nd_written nd cid c c' s')
  have "calls_ok (ndServer nd) (Some c)" using nd_written(1,3) by (metis node_ok_def)
  then have "server_ok s' \<and> keeps (ndServer nd) s'"
    using ok_runAfterWrite [of "ndServer nd" c env] nd_written(2,3) by (simp add: node_ok_def)
  moreover have "calls_ok s' (Some c')" using nd_written(2) by (auto simp: runAfterWrite_def calls_ok_def)
  ultimately show ?case
    using nd_written(3) calls_keep by (auto simp: node_ok_def)
next
  case (nd_close nd cid c order)
  show ?case by (rule node_server [OF nd_close(3) ok_closeConnection]) (simp add: calls_ok_def)
qed (simp_all add: node_change ok_expire [OF assms(1)] ok_tick ok_Reset ok_quiet)

end
