(* ===== verification/RtspSpec.thy ===== *)
theory RtspSpec
  imports RtspInv
begin

text \<open>
  What the RTSP server promises: it and the lab manager always agree on the sessions, and how a SETUP
  is answered. The last section shows the one way in which a stream can outlive its session.
\<close>

interpretation node: inductive_invariant node_init "\<lambda>nd nd'. env_ok env \<and> node_step env nd nd'" node_ok
  for env
  by unfold_locales (auto intro: node_new node_steps)

section \<open>Starting streams\<close>

text \<open>Starting a stream leaves the sessions, the profile and the configuration alone.\<close>

lemma start_sessions [simp]: "srvSessions (startStreaming env call s) = srvSessions s"
  "srvProfile (startStreaming env call s) = srvProfile s" "srvConfig (startStreaming env call s) = srvConfig s"
  by (cases call; simp add: startStreaming_def stop_object_def Let_def split: option.split)+

lemma after_write_sessions:
  assumes "runAfterWrite env c s = (c', s')"
  shows "srvSessions s' = srvSessions s \<and> srvProfile s' = srvProfile s \<and> srvConfig s' = srvConfig s"
proof -
  have "srvSessions (foldl (\<lambda>s call. startStreaming env call s) s calls) = srvSessions s \<and>
      srvProfile (foldl (\<lambda>s call. startStreaming env call s) s calls) = srvProfile s \<and>
      srvConfig (foldl (\<lambda>s call. startStreaming env call s) s calls) = srvConfig s" for calls
    by (induction calls arbitrary: s) simp_all
  then show ?thesis using assms by (auto simp: runAfterWrite_def)
qed

section \<open>A small node\<close>

definition demo_env :: rtsp_env where
  "demo_env = \<lparr>envFiles = (\<lambda>_. Inl NotExist), envBerlin = Some (\<lambda>_. 3600 * second),
     envParseIP = (\<lambda>_. None), envHost = (\<lambda>_. 0), envListenUDP = True,
     envOrder = (\<lambda>ss. sorted_list_of_set (dom ss))\<rparr>"

definition demo_setup :: "string \<Rightarrow> request" where
  "demo_setup transport = \<lparr>rqMethod = ''SETUP'', rqURI = ''rtsp://lab/?'' @ query_one,
     rqHeaders = [''cseq'' \<mapsto> ''2'', ''transport'' \<mapsto> transport]\<rparr>"

definition demo_request :: request where
  "demo_request = demo_setup []"

definition demo_server :: server where
  "demo_server = NewServer (FromEnvironment unset) \<lparr>srcPath = [], srcMediaDir = [], srcSampleProfile = [],
       srcSampleAssetDir = []\<rparr>
     (Some demo_lab) (\<lambda>_. 0)"

definition demo_handled :: handled where
  "demo_handled = handleRequestWithState demo_env ''10.0.0.2'' demo_request (Some newConnectionState) demo_server"

lemma demo_env_ok: "env_ok demo_env"
  by (simp add: env_ok_def demo_env_def)

lemma expire_none:
  assumes "mSessions (srvLab s) = Map.empty" "envOrder env Map.empty = []"
  shows "expireSessions env now s = s"
  by (simp add: expireSessions_def with_lab_def assms ExpireSessions_def)

lemma demo_server_lab: "srvLab demo_server = demo_lab" "srvNextID demo_server = 0" "srvSessions demo_server = {}"
  by (simp_all add: demo_server_def NewServer_def Let_def)

lemma demo_server_simps:
  "profRequireDescribeBeforeSetup (srvProfile demo_server) = False"
  "cfgScenario (srvConfig demo_server) = StartNormal"
  by code_simp+

definition demo_ready :: server where
  "demo_ready = demo_server\<lparr>srvLab := demo_lab\<lparr>mReads := mReads demo_lab + 3\<rparr>\<rparr>"

lemma demo_setup_handled:
  "handleRequestWithState demo_env ''10.0.0.2'' (demo_setup transport) (Some newConnectionState) demo_server =
     handleSetupWithState demo_env ''10.0.0.2'' (demo_setup transport) ''2'' (Some newConnectionState) demo_ready"
proof -
  have sc: "Scenario (demo_lab\<lparr>mReads := n\<rparr>) = (mScenario demo_lab, demo_lab\<lparr>mReads := Suc n\<rparr>)" for n
    by (simp add: Scenario_def time_now_def demo_lab_def NewManager_def scenarioAtLocked_def ScenarioAt_def Let_def)
  have order: "envOrder demo_env Map.empty = []" by (simp add: demo_env_def)
  show ?thesis
    unfolding handleRequestWithState_def Let_def
    by (simp add: srv_now_def time_now_def expire_none order demo_server_lab demo_lab_sessions demo_server_simps
        touchRequestSession_def demo_setup_def header_def sessionIDFrom_def with_lab_def sc dispatch_def
        demo_ready_def eval_nat_numeral)
qed

lemma demo_handled_setup:
  "demo_handled = handleSetupWithState demo_env ''10.0.0.2'' demo_request ''2'' (Some newConnectionState) demo_ready"
  unfolding demo_handled_def demo_request_def by (rule demo_setup_handled)

lemma demo_setup_registered:
  assumes "\<not> tsInvalid (parseTransport (envParseIP demo_env) transport)"
  shows "\<exists>r m. snd (handleRequestWithState demo_env ''10.0.0.2'' (demo_setup transport) (Some newConnectionState) demo_server) =
    (Some \<lparr>connDescribed = False, connSessionIDs = {''00000001''}, connAfterWrite = []\<rparr>,
     registered demo_ready ''00000001'' (parseTransport (envParseIP demo_env) transport) ''10.0.0.2'' r m)"
proof -
  have id: "pad_int 8 (srvNextID demo_ready + 1) = ''00000001''" by code_simp
  have uri: "rqURI (demo_setup transport) = rqURI demo_request" "header (demo_setup transport) ''transport'' = transport"
    by (simp_all add: demo_request_def demo_setup_def header_def)
  obtain r m where "Setup ''00000001'' (tuningQueryFromURI (rqURI demo_request)) ''10.0.0.2'' (srvLab demo_ready) = (Inr r, m)"
  proof -
    have "(case fst (Setup ''00000001'' (tuningQueryFromURI (rqURI demo_request)) ''10.0.0.2'' (srvLab demo_ready)) of
        Inl _ \<Rightarrow> False | Inr _ \<Rightarrow> True)" by code_simp
    then show ?thesis using that
      by (cases "Setup ''00000001'' (tuningQueryFromURI (rqURI demo_request)) ''10.0.0.2'' (srvLab demo_ready)")
        (auto split: sum.splits)
  qed
  moreover have "wrap64 (srvNextID demo_ready + 1) = srvNextID demo_ready + 1" by code_simp
  ultimately show ?thesis
    unfolding demo_setup_handled using assms
    by (intro exI [of _ r] exI [of _ m]) (simp add: handleSetup_eq Let_def id uri rememberSession_def newConnectionState_def)
qed

lemma demo_sessions: "srvSessions (snd (snd demo_handled)) = {''00000001''}"
    "\<exists>resp c s. demo_handled = (resp, Some c, s)"
proof -
  have "\<not> tsInvalid (parseTransport (envParseIP demo_env) [])" by (simp add: parseTransport_def)
  from demo_setup_registered [OF this] obtain r m where "snd demo_handled =
    (Some \<lparr>connDescribed = False, connSessionIDs = {''00000001''}, connAfterWrite = []\<rparr>,
     registered demo_ready ''00000001'' (parseTransport (envParseIP demo_env) []) ''10.0.0.2'' r m)"
    unfolding demo_handled_def demo_request_def by blast
  then show "srvSessions (snd (snd demo_handled)) = {''00000001''}" "\<exists>resp c s. demo_handled = (resp, Some c, s)"
    by (auto simp: registered_def demo_ready_def demo_server_lab) (metis prod.collapse)
qed

lemma demo_accepted:
  "reach node_init (\<lambda>nd nd'. env_ok demo_env \<and> node_step demo_env nd nd')
     \<lparr>ndServer = demo_server, ndConns = [0 \<mapsto> newConnectionState]\<rparr>"
proof -
  let ?nd0 = "\<lparr>ndServer = demo_server, ndConns = Map.empty\<rparr>"
  have "node_init ?nd0"
    unfolding node_init_def demo_server_def demo_lab_def using demo_wf by (auto simp: NewServer_def)
  then show ?thesis
    using reach_step [OF reach_init, of node_init ?nd0 "\<lambda>nd nd'. env_ok demo_env \<and> node_step demo_env nd nd'"]
      demo_env_ok nd_accept [of ?nd0 0 demo_env] by simp
qed

section \<open>Agreement\<close>



section \<open>Answers to SETUP\<close>

text \<open>What stands in the way of a tuning, in the order of the checks.\<close>

definition setup_outcome :: "manager \<Rightarrow> string \<Rightarrow> lab_error option" where
  "setup_outcome m q =
     (case MatchService (mCatalog m) q of
        Inl e \<Rightarrow> Some e
      | Inr (svc, mux) \<Rightarrow>
          let sc = fst (setup_scenario m) in
          if scName sc = ScenarioNoSignal \<and> AppliesTo sc (svcID svc) (mxID mux) then Some ErrNoSignal
          else if scName sc = ScenarioTunerWedged then Some ErrTunerWedged
          else if scName sc = ScenarioTunerBusy then Some ErrNoTunerAvailable
          else (case requestedPIDs q svc of
              Inl _ \<Rightarrow> Some ErrInvalidTune
            | Inr _ \<Rightarrow> if has_room (mxID mux) (mTuners m) then None else Some ErrNoTunerAvailable))"

lemma allocate_error: "allocateTunerLocked mux now m = (Inl e, m') \<Longrightarrow> e = ErrNoTunerAvailable"
  by (auto simp: allocateTunerLocked_def split: option.splits)

lemma Setup_outcome:
  assumes "lab_inv m"
  shows "setup_outcome m q = (case fst (Setup sid q client m) of Inl e \<Rightarrow> Some e | Inr _ \<Rightarrow> None)"
proof (cases rule: Setup_cases [of m q sid client])
  note pool = lab_pool [OF lab_setup_scenario [OF assms]]
  have room: "has_room mux (mTuners (snd (setup_scenario m))) = has_room mux (mTuners m)" for mux
    by (rule has_room_places [OF places_setup_scenario])
  {
    case (blocked svc mux e ev)
    obtain sc m1 where sc: "setup_scenario m = (sc, m1)" by (cases "setup_scenario m")
    then have sc': "scenarioAtLocked (mClock m (mReads m)) (m\<lparr>mReads := Suc (mReads m)\<rparr>) = (sc, m1)"
      by (simp add: setup_scenario_def time_now_def)
    show ?thesis
      using blocked(1,2) by (auto simp: setup_outcome_def Setup_def time_now_def sc sc' setup_blocked_def Let_def)
  next
    case (busy svc mux pids e ev m2)
    then show ?thesis
      using allocate_full_iff [OF pool busy(4)] room allocate_error [OF busy(4)]
      by (auto simp: setup_outcome_def setup_blocked_def Let_def)
  next
    case (granted svc mux pids i m2)
    then show ?thesis
      using allocate_full_iff [OF pool granted(4)] room
      by (auto simp: setup_outcome_def setup_blocked_def Let_def setup_granted_def)
  }
qed (auto simp: setup_outcome_def setup_blocked_def Let_def)

text \<open>The status and reason of an answer to a SETUP that fails, as the documents list them.\<close>

definition refusal :: "string \<Rightarrow> lab_error \<Rightarrow> string \<times> string" where
  "refusal busy e =
     (if e = ErrNoTunerAvailable then (busy, ''tuner busy'')
      else if e = ErrNoSignal then (''503 Service Unavailable'', ''no signal'')
      else if e = ErrTunerWedged then (''503 Service Unavailable'', ''tuner wedged'')
      else if e = ErrServiceNotFound then (''404 Not Found'', ''service not found'')
      else (''400 Bad Request'', ''invalid tuning''))"

lemma setup_error_refusal:
  "setup_error_response s cseq e = (case refusal (profTunerBusyStatus (srvProfile s)) e of
     (status, reason) \<Rightarrow> buildResponse cseq status [''Reason: '' @ reason])"
  by (cases e) (simp_all add: setup_error_response_def refusal_def)

lemma lookup_transport:
  "m sid = Some ses \<Longrightarrow> mSessions lab = m \<Longrightarrow>
   mSessions (snd (SetRTPTransportDetails sid tr dest p q ch ch' lab)) = m(sid \<mapsto> ses\<lparr>sesRTPTransport := tr,
     sesRTPDestination := dest, sesRTPPort := p, sesRTCPPort := q, sesRTPChannel := ch, sesRTCPChannel := ch'\<rparr>)"
  by (simp add: SetRTPTransportDetails_def)

text \<open>C3. How a SETUP is answered: 461 for an impossible interleaved channel; else the status and reason of
  the first thing that stands in the way of the tuning, and then no session changes on either side; else
  200 under a fresh id, which is then a session of the server and, in state \<open>setup\<close> with the negotiated
  transport, of the manager, all other sessions being as before.\<close>

theorem setup_answers:
  assumes "server_ok s" "srvNextID s + 1 < 2 ^ 63"
  shows "case handleSetupWithState env ip req cseq c s of (resp, c', s') \<Rightarrow>
    let sid = pad_int 8 (srvNextID s + 1); t = parseTransport (envParseIP env) (header req ''transport'');
        unchanged = (mSessions (srvLab s') = mSessions (srvLab s) \<and> srvSessions s' = srvSessions s \<and> c' = c)
    in if tsInvalid t
       then resp = buildResponse cseq ''461 Unsupported Transport'' [''Reason: invalid interleaved channel''] \<and> unchanged
       else case setup_outcome (srvLab s) (tuningQueryFromURI (rqURI req)) of
         Some e \<Rightarrow> (case refusal (profTunerBusyStatus (srvProfile s)) e of
           (status, reason) \<Rightarrow> resp = buildResponse cseq status [''Reason: '' @ reason]) \<and> unchanged
       | None \<Rightarrow> resp = setup_response s cseq sid t (destination t ip) \<and>
           sid \<notin> srvSessions s \<and> srvSessions s' = insert sid (srvSessions s) \<and> c' = rememberSession sid c \<and>
           (mSessions (srvLab s'))(sid := None) = mSessions (srvLab s) \<and>
           (case mSessions (srvLab s') sid of None \<Rightarrow> False
            | Some ses \<Rightarrow> sesState ses = ''setup'' \<and> sesClient ses = ip \<and> sesRTPTransport ses = apiName t \<and>
                sesRTPDestination ses = apiDestination t (destination t ip) \<and> sesRTPPort ses = apiRTPPort t \<and>
                sesRTCPPort ses = apiRTCPPort t \<and> sesRTPChannel ses = apiRTPChannel t \<and>
                sesRTCPChannel ses = apiRTCPChannel t)"
proof -
  let ?sid = "pad_int 8 (srvNextID s + 1)" and ?q = "tuningQueryFromURI (rqURI req)"
  have lab: "lab_inv (srvLab s)" "dom (mSessions (srvLab s)) = srvSessions s"
    using assms(1) by (auto simp: server_ok_def reg.agrees_def)
  obtain r m where called: "Setup ?sid ?q ip (srvLab s) = (r, m)" by fastforce
  note eq = handleSetup_eq [OF srv_wrap [OF assms]]
  have outcome: "setup_outcome (srvLab s) ?q = (case r of Inl e \<Rightarrow> Some e | Inr _ \<Rightarrow> None)"
    using Setup_outcome [OF lab(1), of ?q ?sid ip] called by simp
  note effect = Setup_effect' [OF lab(1), where sid = ?sid and q = ?q and client = ip, unfolded called]
  show ?thesis
  proof (cases r)
    case (Inl e)
    with effect have "mSessions m = mSessions (srvLab s)" by simp
    then show ?thesis
      by (simp add: eq Let_def called outcome Inl setup_error_refusal split: prod.split)
  next
    case (Inr res)
    have new: "?sid \<notin> srvSessions s" by (rule server_fresh(1) [OF assms(1)])
    then have "mSessions (srvLab s) ?sid = None" using lab(2) by blast
    then show ?thesis
      using effect new
      by (simp add: eq Let_def called outcome Inr registered_def lookup_transport [of "mSessions m" ?sid "srSession res"]
          fun_upd_idem)
  qed
qed

definition demo_transport :: transport_spec where
  "demo_transport = parseTransport (\<lambda>_. None) (header demo_request ''transport'')"

lemma demo_transport_simps:
  "parseTransport (envParseIP demo_env) (header demo_request ''transport'') = demo_transport"
  "tsInvalid demo_transport = False" "destination demo_transport ''10.0.0.2'' = ''10.0.0.2''"
  "apiName demo_transport = ''udp''" "apiRTCPChannel demo_transport = None"
  by (simp_all add: demo_transport_def parseTransport_def demo_request_def demo_setup_def header_def destination_def apiName_def
      apiRTCPChannel_def)

lemma demo_ready_ok: "server_ok demo_ready" "srvNextID demo_ready + 1 < 2 ^ 63"
proof -
  have "node_init \<lparr>ndServer = demo_server, ndConns = Map.empty\<rparr>"
    unfolding node_init_def demo_server_def demo_lab_def using demo_wf by (auto simp: NewServer_def)
  from node_new [OF this] have "server_ok demo_server" by (simp add: node_ok_def)
  then show "server_ok demo_ready" by (simp add: server_ok_def demo_ready_def reg.agrees_def demo_server_lab)
  show "srvNextID demo_ready + 1 < 2 ^ 63" by (simp add: demo_ready_def demo_server_lab)
qed

theorem setup_answers_witness:
  "fst demo_handled = setup_response demo_ready ''2'' ''00000001'' demo_transport ''10.0.0.2'' \<and>
   map_option sesRTPTransport (mSessions (srvLab (snd (snd demo_handled))) ''00000001'') = Some ''udp''"
proof -
  have id: "pad_int 8 (srvNextID demo_ready + 1) = ''00000001''" by code_simp
  have "setup_outcome (srvLab demo_ready) (tuningQueryFromURI (rqURI demo_request)) = None" by code_simp
  then show ?thesis
    using setup_answers [OF demo_ready_ok, where env = demo_env and ip = "''10.0.0.2''" and req = demo_request
        and cseq = "''2''" and c = "Some newConnectionState"]
    by (auto simp: demo_handled_setup Let_def id demo_transport_simps split: prod.splits option.splits)
qed

section \<open>A stream that outlives its session\<close>

text \<open>PLAY of an interleaved session starts its stream only after the response was written. A TEARDOWN
  of the session on another connection in between is answered with 200 and removes the session on both
  sides, and then the callback starts the stream all the same.\<close>

lemma teardown_before_write_leaves_stream:
  assumes "connAfterWrite c = [(sid, target)]" "srvObjects s sid = Some ob"
    "rssTransport ob = transportInterleaved" "sid \<in> srvSessions s"
    "sessionIDFrom (header req ''session'') = sid" "sid \<noteq> []"
    "handleTeardownWithState req cseq c2 s = (resp, c2', s1)" "runAfterWrite env c s1 = (c', s2)"
  shows "sid \<notin> srvSessions s2 \<and> mSessions (srvLab s2) sid = None \<and>
    (\<exists>ob. srvObjects s2 sid = Some ob \<and> rssStreaming ob = Some target)"
proof -
  have "mSessions (Teardown sid m) sid = None" for m
    using Teardown_ids [of sid m] by blast
  then show ?thesis
    using assms by (auto simp: handleTeardownWithState_def runAfterWrite_def startStreaming_def stopAndDeleteSession_def
        stop_object_def Let_def)
qed

end
