(* ===== verification/Ownership.thy ===== *)
theory Ownership
  imports RtspSpec
begin

text \<open>
  Who holds a session. A session whose stream goes over the RTSP connection is always among those that some
  open connection remembers, so it ends with that connection at the latest; a UDP session may outlive its
  connection and ends by TEARDOWN, expiry or reset.
\<close>

section \<open>Sessions and their holders\<close>

definition interleaved :: "server \<Rightarrow> string \<Rightarrow> bool" where
  "interleaved s sid \<longleftrightarrow> map_option rssTransport (srvObjects s sid) = Some transportInterleaved"

definition held_by :: "connection option \<Rightarrow> string set" where
  "held_by c = (case c of None \<Rightarrow> {} | Some c \<Rightarrow> connSessionIDs c)"

lemma held_by_simps [simp]:
  "held_by None = {}" "held_by (Some d) = connSessionIDs d"
  "held_by (forgetSession sid c) = held_by c - {sid}" "held_by (afterResponse call c) = held_by c"
  "held_by (map_option (\<lambda>c. c\<lparr>connDescribed := b\<rparr>) c) = held_by c"
  "held_by (rememberSession sid (Some d)) = insert sid (connSessionIDs d)"
  by (auto simp: held_by_def forgetSession_def afterResponse_def rememberSession_def split: option.split)

text \<open>A handler hands the sessions on: a new one to its connection, and none is forgotten while it lives.\<close>

definition handed_on :: "server \<Rightarrow> connection option \<Rightarrow> handled \<Rightarrow> bool" where
  "handed_on s c r \<longleftrightarrow> (case r of (_, c', s') \<Rightarrow>
     srvSessions s' \<subseteq> srvSessions s \<union> held_by c' \<and> held_by c \<inter> srvSessions s' \<subseteq> held_by c')"

lemma handed_same: "srvSessions s' \<subseteq> srvSessions s \<Longrightarrow> handed_on s c (resp, c, s')"
  by (auto simp: handed_on_def)

lemma handed_after: "srvSessions t \<subseteq> srvSessions s \<Longrightarrow> handed_on t c r \<Longrightarrow> handed_on s c r"
  by (auto simp: handed_on_def split: prod.splits)

section \<open>What leaves the sessions alone\<close>

lemma with_sessions: "with_lab f s = (r, s') \<Longrightarrow> srvSessions s' = srvSessions s"
  by (auto simp: with_lab_def split: prod.splits)

lemma with_sessions_snd [simp]: "srvSessions (snd (with_lab f s)) = srvSessions s"
  by (simp add: with_lab_def split: prod.split)

lemma now_sessions: "srv_now s = (now, s') \<Longrightarrow> srvSessions s' = srvSessions s"
  by (auto simp: srv_now_def split: prod.splits)

lemma touch_sessions [simp]: "srvSessions (touchRequestSession req now s) = srvSessions s"
  by (simp add: touchRequestSession_def Let_def)

lemma expire_sessions: "srvSessions (expireSessions env now s) \<subseteq> srvSessions s"
  by (auto simp: expireSessions_def expire_objects split: prod.split dest: with_sessions)

lemma delete_sessions [simp]: "srvSessions (stopAndDeleteSession sid s) = srvSessions s - {sid}"
  by (simp add: stopAndDeleteSession_def)

section \<open>Requests\<close>

lemma handed_Setup: "handed_on s (Some c) (handleSetupWithState env ip req cseq (Some c) s)"
  by (auto simp: handleSetupWithState_def handed_on_def Let_def split: prod.split sum.split dest!: with_sessions)

lemma handed_Play: "handed_on s c (handlePlayWithState env req cseq c s)"
proof -
  let ?sid = "sessionIDFrom (header req ''session'')"
  obtain e s1 where u: "with_lab (UpdatePIDs ?sid (tuningQueryFromURI (rqURI req))) s = (e, s1)" by fastforce
  obtain res s2 where p: "with_lab (Play ?sid) s1 = (res, s2)" by fastforce
  obtain sc s3 where sc: "with_lab Scenario s2 = (sc, s3)" by fastforce
  have same: "srvSessions s1 = srvSessions s" "srvSessions s2 = srvSessions s" "srvSessions s3 = srvSessions s"
    using with_sessions [OF u] with_sessions [OF p] with_sessions [OF sc] by simp_all
  have now: "handed_on s c (resp, c, startStreaming env call s3)" "handed_on s c (resp, afterResponse call c, s3)" for resp call
    by (simp_all add: handed_on_def same)
  show ?thesis
    using u p sc now by (auto simp: handlePlayWithState_def playPayloadProvider_def Let_def handed_same same
        split: option.splits sum.splits prod.splits)
qed

lemma handed_Teardown: "handed_on s c (handleTeardownWithState req cseq c s)"
  by (auto simp: handleTeardownWithState_def handed_on_def Let_def)

lemma pause_sessions: "srvSessions (snd (handlePause req cseq s)) = srvSessions s"
proof -
  let ?sid = "sessionIDFrom (header req ''session'')"
  obtain e s1 where "with_lab (Pause ?sid) (stop_object ?sid s) = (e, s1)" by fastforce
  then show ?thesis using with_sessions [of "Pause ?sid" "stop_object ?sid s" e s1]
    by (simp add: handlePause_def Let_def split: option.split)
qed

lemma handed_dispatch: "handed_on s (Some c) (dispatch env ip req cseq (Some c) s)"
proof -
  have pause: "handed_on s (Some c) (case handlePause req cseq s of (resp, s) \<Rightarrow> (resp, Some c, s))"
    using pause_sessions [of req cseq s] by (auto intro: handed_same split: prod.split)
  show ?thesis
    unfolding dispatch_def
    by (simp only: pause handed_Setup handed_Play handed_Teardown handed_same [OF subset_refl] split: if_split) simp
qed

lemma handed_request: "handed_on s (Some c) (handleRequestWithState env ip req (Some c) s)"
proof -
  obtain n1 s1 where s1: "srv_now s = (n1, s1)" by fastforce
  define s2 where "s2 = expireSessions env n1 s1"
  obtain n3 s3 where s3: "srv_now s2 = (n3, s3)" by fastforce
  define s4 where "s4 = touchRequestSession req n3 s3"
  have fewer: "srvSessions s4 \<subseteq> srvSessions s"
    using expire_sessions [of env n1 s1] now_sessions [OF s1] now_sessions [OF s3] by (simp add: s2_def s4_def)
  have described: "handed_on s (Some c) r = handed_on s (Some (c\<lparr>connDescribed := True\<rparr>)) r" for r
    by (simp add: handed_on_def)
  have "handed_on s (Some c') (dispatch env ip req cseq (Some c') (snd (with_lab Scenario s4)))" for c' cseq
    by (rule handed_after [OF _ handed_dispatch]) (simp add: fewer)
  then show ?thesis
    by (simp add: handleRequestWithState_def s1 s2_def [symmetric] s3 s4_def [symmetric] Let_def handed_same fewer)
      (simp add: described handed_same fewer)
qed

section \<open>Closing a connection\<close>

lemma close_one_sessions:
  "srvSessions (fst (close_one sc sid)) \<subseteq> srvSessions (fst sc)"
  "interleaved (fst (close_one sc sid)) x = interleaved (fst sc) x"
  "sid \<in> srvSessions (fst (close_one sc sid)) \<Longrightarrow> \<not> interleaved (fst sc) sid"
  by (auto simp: close_one_def closeSessionAfterConnectionLoss_def sessionByID_def interleaved_def stopAndDeleteSession_def
      stop_object_def Let_def split: prod.splits option.splits if_splits)

lemma close_sessions:
  "srvSessions (fst (closeConnectionSessions order c s)) \<subseteq> srvSessions s"
  "sid \<in> set order \<Longrightarrow> sid \<in> srvSessions (fst (closeConnectionSessions order c s)) \<Longrightarrow> \<not> interleaved s sid"
proof -
  have "srvSessions (fst (foldl close_one sc order)) \<subseteq> srvSessions (fst sc) \<and>
      (\<forall>sid\<in>set order \<inter> srvSessions (fst (foldl close_one sc order)). \<not> interleaved (fst sc) sid)" for sc
  proof (induction order arbitrary: sc)
    case (Cons x order)
    show ?case using Cons [of "close_one sc x"] close_one_sessions [where sc = sc and sid = x] by (auto simp: close_one_sessions(2))
  qed simp
  from this [of "(s, c)"] show "srvSessions (fst (closeConnectionSessions order c s)) \<subseteq> srvSessions s"
    "sid \<in> set order \<Longrightarrow> sid \<in> srvSessions (fst (closeConnectionSessions order c s)) \<Longrightarrow> \<not> interleaved s sid"
    by (auto simp: closeConnectionSessions_def)
qed

section \<open>The node\<close>

definition owned :: "node \<Rightarrow> bool" where
  "owned nd \<longleftrightarrow> (\<forall>sid\<in>srvSessions (ndServer nd). interleaved (ndServer nd) sid \<longrightarrow>
     (\<exists>cid. sid \<in> held_by (ndConns nd cid)))"

lemma interleaved_back:
  assumes "server_ok s" "keeps s s'" "sid \<in> srvSessions s" "interleaved s' sid"
  shows "interleaved s sid"
proof -
  obtain ob where "srvObjects s sid = Some ob"
    using assms(1,3) unfolding server_ok_def objects_ok_def by blast
  then show ?thesis using assms(2,4) by (fastforce simp: interleaved_def keeps_def)
qed

lemma owned_kept:
  assumes "node_ok nd" "owned nd" "ok_to (ndServer nd) s'" "srvSessions s' \<subseteq> srvSessions (ndServer nd)"
    "\<And>cid sid. sid \<in> held_by (ndConns nd cid) \<Longrightarrow> sid \<in> srvSessions s' \<Longrightarrow> interleaved (ndServer nd) sid \<Longrightarrow>
       sid \<in> held_by (conns cid)"
  shows "owned \<lparr>ndServer = s', ndConns = conns\<rparr>"
proof -
  have ok: "server_ok (ndServer nd)" "keeps (ndServer nd) s'" using assms(1,3) by (simp_all add: node_ok_def ok_to_def)
  have "interleaved (ndServer nd) sid" if "sid \<in> srvSessions s'" "interleaved s' sid" for sid
    using interleaved_back [OF ok] that assms(4) by blast
  then show ?thesis using assms(2,4,5) unfolding owned_def by simp blast
qed

lemma owned_fewer:
  assumes "node_ok nd" "owned nd" "ok_to (ndServer nd) s'" "srvSessions s' \<subseteq> srvSessions (ndServer nd)"
  shows "owned (nd\<lparr>ndServer := s'\<rparr>)"
  using owned_kept [OF assms, of "ndConns nd"] by (cases nd) simp

lemma provider_sessions:
  "srvSessions (snd (snd (pvRTCP (session_providers env sid target) w))) = srvSessions (snd w)"
  "srvSessions (snd (snd (pvBehavior (session_providers env sid target) w))) = srvSessions (snd w)"
  "srvSessions (snd (snd (pvPayload (session_providers env sid target) w))) = srvSessions (snd w)"
  "srvSessions (snd (pvOnPacketSent (session_providers env sid target) n w)) = srvSessions (snd w)"
proof -
  obtain pc s svc mux where w: "w = (pc, s)" "target = (svc, mux)" by (metis prod.collapse)
  note defs = w session_providers_def
  show "srvSessions (snd (snd (pvRTCP (session_providers env sid target) w))) = srvSessions (snd w)"
    by (auto simp: defs rtcpPacketProvider_def rtcpStatusForSession_def split: prod.split option.split dest!: with_sessions)
  show "srvSessions (snd (snd (pvBehavior (session_providers env sid target) w))) = srvSessions (snd w)"
    by (auto simp: defs streamBehavior_def split: prod.split dest!: with_sessions)
  show "srvSessions (snd (snd (pvPayload (session_providers env sid target) w))) = srvSessions (snd w)"
    by (auto simp: defs next_payload_def split: prod.split sum.split dest!: with_sessions)
  show "srvSessions (snd (pvOnPacketSent (session_providers env sid target) n w)) = srvSessions (snd w)"
    by (simp add: defs)
qed

lemma tick_sessions: "srvSessions (snd (snd (snd (session_tick env send sid ob target st (pc, s))))) \<subseteq> srvSessions s"
proof -
  obtain now s1 where now: "srv_now s = (now, s1)" by fastforce
  let ?tick = "if rssTransport ob = transportInterleaved
    then interleaved_tick (rssRtpChannel ob) (rssRtcpChannel ob) else udp_tick (rssClientRTCPPort ob)"
  obtain out e pc2 s2 where t: "?tick (statusInterval ob) send (session_providers env sid target) now st (pc, s1) =
      (out, e, pc2, s2)" by (metis prod_cases4)
  have "srvSessions (snd (snd (snd (?tick (statusInterval ob) send (session_providers env sid target) now st (pc, s1)))))
      = srvSessions s"
    using tick_world [where P = "\<lambda>w. srvSessions (snd w) = srvSessions s" and pv = "session_providers env sid target"
        and w = "(pc, s1)"] provider_sessions now_sessions [OF now] by auto
  then have "srvSessions s2 = srvSessions s" unfolding t by simp
  then show ?thesis
    by (cases e) (auto simp: session_tick_def now Let_def t [simplified] closeSessionAfterConnectionLoss_def)
qed

lemma owned_steps:
  assumes "env_ok env" "node_step env nd nd'" "node_ok nd" "owned nd"
  shows "owned nd'"
  using assms(2-)
proof (induction rule: node_step.induct)
  case (nd_accept nd cid)
  then show ?case unfolding owned_def by (auto simp: newConnectionState_def) (metis held_by_simps(1) empty_iff)
next
  case (nd_request nd cid c ip req resp c' s')
  have h: "srvSessions s' \<subseteq> srvSessions (ndServer nd) \<union> connSessionIDs c'" "connSessionIDs c \<inter> srvSessions s' \<subseteq> connSessionIDs c'"
    using handed_request [of "ndServer nd" c env ip req] nd_request(3) by (auto simp: handed_on_def)
  have ok: "server_ok (ndServer nd)" "keeps (ndServer nd) s'"
    using handle_request [OF assms(1) nd_request(2), of "Some c" ip req] nd_request(1,3,4)
    by (auto simp: handled_ok_def node_ok_def) metis+
  have "\<exists>i. sid \<in> held_by (((ndConns nd)(cid \<mapsto> c')) i)" if mine: "sid \<in> srvSessions s'" "interleaved s' sid" for sid
  proof (cases "sid \<in> connSessionIDs c'")
    case True
    then show ?thesis by (intro exI [of _ cid]) simp
  next
    case False
    then have "sid \<in> srvSessions (ndServer nd)" using mine(1) h(1) by blast
    then obtain i where i: "sid \<in> held_by (ndConns nd i)"
      using nd_request(5) interleaved_back [OF ok _ mine(2)] unfolding owned_def by blast
    then have "i \<noteq> cid" using False h(2) mine(1) nd_request(1) by auto
    then show ?thesis using i by (intro exI [of _ i]) simp
  qed
  then show ?case by (simp add: owned_def)
next
  case (nd_written nd cid c c' s')
  have same: "srvSessions s' = srvSessions (ndServer nd)" "connSessionIDs c' = connSessionIDs c"
    using after_write_sessions [OF nd_written(2)] nd_written(2) by (auto simp: runAfterWrite_def)
  have "calls_ok (ndServer nd) (Some c)" using nd_written(1,3) by (metis node_ok_def)
  then have "ok_to (ndServer nd) s'"
    using ok_runAfterWrite [of "ndServer nd" c env] nd_written(2,3) by (simp add: node_ok_def ok_to_def)
  then show ?case
    using same nd_written(1) by (intro owned_kept [OF nd_written(3,4)]) auto
next
  case (nd_close nd cid c order)
  show ?case
    using close_sessions [where order = order and c = c and s = "ndServer nd"] nd_close(1,2)
    by (intro owned_kept [OF nd_close(3,4) ok_closeConnection]) (auto split: if_splits)
next
  case (nd_reset nd)
  then show ?case by (simp add: owned_def Server_Reset_def)
qed (simp_all add: owned_fewer ok_expire [OF assms(1)] ok_tick ok_quiet expire_sessions tick_sessions)

interpretation held: inductive_invariant node_init "\<lambda>nd nd'. env_ok env \<and> node_step env nd nd'"
  "\<lambda>nd. node_ok nd \<and> owned nd" for env
proof (unfold_locales, goal_cases)
  case (1 nd)
  then show ?case using node_new [OF 1] by (auto simp: owned_def node_init_def NewServer_def Let_def)
next
  case (2 nd nd')
  then show ?case using node_steps [of env nd nd'] owned_steps [of env nd nd'] by blast
qed

text \<open>C5. A session whose stream goes over its RTSP connection is held by an open connection, in every state that
  requests, lost connections, expiries, stream ticks, resets and scenario changes lead to: so no tuner stays
  taken by an interleaved session once its connection is gone, even when no keep-alive expires.\<close>

theorem interleaved_sessions_held:
  assumes "reach node_init (\<lambda>nd nd'. env_ok env \<and> node_step env nd nd') nd"
    "mSessions (srvLab (ndServer nd)) sid = Some ses"
  shows "\<exists>ob. srvObjects (ndServer nd) sid = Some ob \<and>
    (rssTransport ob = transportInterleaved \<longrightarrow>
      (\<exists>cid c. ndConns nd cid = Some c \<and> sid \<in> connSessionIDs c))"
proof -
  have "node_ok nd" "owned nd" using held.reach_inv [OF assms(1)] by simp_all
  then have sid: "sid \<in> srvSessions (ndServer nd)" "sid \<in> dom (srvObjects (ndServer nd))"
    using assms(2) by (auto simp: node_ok_def server_ok_def objects_ok_def reg.agrees_def)
  then obtain ob where ob: "srvObjects (ndServer nd) sid = Some ob" by blast
  have "\<exists>cid c. ndConns nd cid = Some c \<and> sid \<in> connSessionIDs c" if "rssTransport ob = transportInterleaved"
  proof -
    have "interleaved (ndServer nd) sid" using ob that by (simp add: interleaved_def)
    then obtain cid where "sid \<in> held_by (ndConns nd cid)" using \<open>owned nd\<close> sid(1) unfolding owned_def by blast
    then show ?thesis by (cases "ndConns nd cid") auto
  qed
  then show ?thesis using ob by blast
qed

lemma match_digitless: "list_all (\<lambda>c. \<not> is_digit c) s \<Longrightarrow> match_range name s = None"
proof (induction s)
  case (Cons c s)
  have "takeWhile is_digit (drop n (c # s)) = []" for n
    using Cons.prems in_set_dropD [of _ n "c # s"] by (cases "drop n (c # s)") (auto simp: list_all_iff)
  from this [of "length name + 1"] show ?case using Cons by (simp add: Let_def)
qed simp

lemma demo_tcp:
  "\<not> tsInvalid (parseTransport ip ''RTP/AVP/TCP'')" "tsMode (parseTransport ip ''RTP/AVP/TCP'') = transportInterleaved"
proof -
  have tcp: "contains_str ''rtp/avp/tcp'' (to_lower ''RTP/AVP/TCP'')" by code_simp
  have none: "match_range name ''RTP/AVP/TCP'' = None" for name by (rule match_digitless) code_simp
  show "\<not> tsInvalid (parseTransport ip ''RTP/AVP/TCP'')" "tsMode (parseTransport ip ''RTP/AVP/TCP'') = transportInterleaved"
    by (simp_all add: parseTransport_def tcp none Let_def split: option.split)
qed

text \<open>A node with one connection, over which a session was set up whose stream shares it.\<close>

theorem interleaved_sessions_held_witness:
  "\<exists>(nd :: node) ob c. srvObjects (ndServer nd) ''00000001'' = Some ob \<and> rssTransport ob = transportInterleaved \<and>
     mSessions (srvLab (ndServer nd)) ''00000001'' \<noteq> None \<and>
     (\<exists>cid. ndConns nd cid = Some c \<and> ''00000001'' \<in> connSessionIDs c)"
proof -
  let ?t = "''RTP/AVP/TCP''"
  note t = demo_tcp [of "envParseIP demo_env"]
  obtain r m where h: "snd (handleRequestWithState demo_env ''10.0.0.2'' (demo_setup ?t) (Some newConnectionState) demo_server) =
    (Some \<lparr>connDescribed = False, connSessionIDs = {''00000001''}, connAfterWrite = []\<rparr>,
     registered demo_ready ''00000001'' (parseTransport (envParseIP demo_env) ?t) ''10.0.0.2'' r m)"
    using demo_setup_registered [OF t(1)] by blast
  let ?c = "\<lparr>connDescribed = False, connSessionIDs = {''00000001''}, connAfterWrite = []\<rparr>"
  let ?s = "registered demo_ready ''00000001'' (parseTransport (envParseIP demo_env) ?t) ''10.0.0.2'' r m"
  let ?nd1 = "\<lparr>ndServer = demo_server, ndConns = [0 \<mapsto> newConnectionState]\<rparr>"
  let ?nd2 = "\<lparr>ndServer = ?s, ndConns = (ndConns ?nd1)(0 \<mapsto> ?c)\<rparr>"
  have "node_step demo_env ?nd1 ?nd2"
    using h by (intro nd_request [where c = newConnectionState and ip = "''10.0.0.2''" and req = "demo_setup ?t"])
      (auto simp: demo_server_lab intro: prod_eqI)
  then have r: "reach node_init (\<lambda>nd nd'. env_ok demo_env \<and> node_step demo_env nd nd') ?nd2"
    using reach_step [OF demo_accepted] demo_env_ok by blast
  have ob: "srvObjects ?s ''00000001'' = Some (setup_object demo_ready ''00000001'' (parseTransport (envParseIP demo_env) ?t) ''10.0.0.2'' r)"
    "srvSessions ?s = {''00000001''}"
    by (simp_all add: registered_def demo_ready_def demo_server_lab)
  have "node_ok ?nd2" using held.reach_inv [OF r] by blast
  then have "dom (mSessions (srvLab ?s)) = {''00000001''}" using ob(2) by (auto simp: node_ok_def server_ok_def reg.agrees_def)
  then obtain ses where ses: "mSessions (srvLab ?s) ''00000001'' = Some ses" by blast
  show ?thesis
    using interleaved_sessions_held [OF r, of "''00000001''" ses] ses ob(1) t(2)
    by (intro exI [of _ ?nd2]) (auto simp: setup_object_def)
qed

end
