(* ===== verification/Connection.thy ===== *)
theory Connection
  imports Ownership
begin

text \<open>
  A connection from its first byte to its end: \<open>handleConn\<close> of \<open>internal/rtsp/server.go\<close> on all the input
  that arrives. Requests are read, handled and answered one after the other; the loop ends when no further
  request can be read or a response cannot be written, and the deferred function then closes the sessions
  that the connection holds.
\<close>

section \<open>The loop\<close>

lemma read_loop_shorter: "read_request_loop buffer input = Some (req, rest) \<Longrightarrow> length rest < length input"
proof (induction buffer input rule: read_request_loop.induct)
  case (1 buffer input)
  show ?case
  proof (cases "input = [] \<or> hd input = CHR ''$''")
    case True
    then show ?thesis
      using 1 by (subst (asm) (3) read_request_loop.simps) (fastforce split: if_splits option.splits dest: discard_shorter)
  next
    case False
    then obtain line more where l: "read_line input = Some (line, more)"
      using 1(3) by (subst (asm) read_request_loop.simps) (auto split: option.splits)
    then show ?thesis
      using 1(2) [OF _ _ l refl refl] 1(3) False read_line_shorter [OF l]
      by (subst (asm) (2) read_request_loop.simps) (fastforce simp: Let_def split: if_splits)
  qed
qed

lemma readRequest_shorter: "readRequest input = Some (req, rest) \<Longrightarrow> length rest < length input"
  by (simp add: readRequest_def read_loop_shorter)

lemma turn_shorter:
  "handleConn_turn env ip ok input c s = (resp, Some rest, c', s') \<Longrightarrow> length rest < length input"
  by (auto simp: handleConn_turn_def Let_def dest: readRequest_shorter split: option.splits prod.splits if_splits)

text \<open>\<open>write_ok\<close> says which of the responses, numbered from 0, can be written.\<close>

function serve_connection :: "rtsp_env \<Rightarrow> string \<Rightarrow> (nat \<Rightarrow> bool) \<Rightarrow> nat \<Rightarrow> string \<Rightarrow> connection \<Rightarrow> server
    \<Rightarrow> string list \<times> connection \<times> server" where
  "serve_connection env ip write_ok k input c s =
     (case handleConn_turn env ip (write_ok k) input c s of
        (Some resp, Some rest, c, s) \<Rightarrow>
          (case serve_connection env ip write_ok (Suc k) rest c s of (resps, c, s) \<Rightarrow> (resp # resps, c, s))
      | (_, _, c, s) \<Rightarrow> ([], c, s))"
  by pat_completeness auto
termination
  by (relation "measure (\<lambda>(env, ip, write_ok, k, input, c, s). length input)") (auto dest: turn_shorter [OF sym])

declare serve_connection.simps [simp del]

text \<open>\<open>order\<close> is the order in which the range over the connection's sessions goes.\<close>

definition handleConn :: "rtsp_env \<Rightarrow> string \<Rightarrow> (nat \<Rightarrow> bool) \<Rightarrow> (string set \<Rightarrow> string list) \<Rightarrow> string \<Rightarrow> server
    \<Rightarrow> string list \<times> server" where
  "handleConn env ip write_ok order input s =
     (case serve_connection env ip write_ok 0 input newConnectionState s of
        (resps, c, s) \<Rightarrow> (resps, fst (closeConnectionSessions (order (connSessionIDs c)) c s)))"

text \<open>The handlers outside a connection.\<close>

definition handleSetup :: "rtsp_env \<Rightarrow> string \<Rightarrow> request \<Rightarrow> string \<Rightarrow> server \<Rightarrow> string \<times> server" where
  "handleSetup env ip req cseq s = (case handleSetupWithState env ip req cseq None s of (resp, _, s) \<Rightarrow> (resp, s))"

definition handlePlay :: "rtsp_env \<Rightarrow> request \<Rightarrow> string \<Rightarrow> server \<Rightarrow> string \<times> server" where
  "handlePlay env req cseq s = (case handlePlayWithState env req cseq None s of (resp, _, s) \<Rightarrow> (resp, s))"

definition handleTeardown :: "request \<Rightarrow> string \<Rightarrow> server \<Rightarrow> string \<times> server" where
  "handleTeardown req cseq s = (case handleTeardownWithState req cseq None s of (resp, _, s) \<Rightarrow> (resp, s))"

section \<open>What every handler does\<close>

definition answers :: "string \<Rightarrow> string \<Rightarrow> bool" where
  "answers cseq resp \<longleftrightarrow> (\<exists>status extra body. resp = buildResponse cseq status extra @ body)"

lemma answersI: "answers cseq (buildResponse cseq status extra @ body)"
  by (auto simp: answers_def)

lemma answers_build [simp, intro]:
  "answers cseq (buildResponse cseq status extra)" "answers cseq (buildResponseWithBody cseq status extra body)"
  "answers cseq (session_not_found cseq)" "answers cseq (setup_error_response s cseq e)"
  "answers cseq (setup_response s cseq sid t clientIP)"
proof -
  show build: "answers cseq (buildResponse cseq status extra)" for status extra
    using answersI [of cseq status extra "[]"] by simp
  show "answers cseq (buildResponseWithBody cseq status extra body)"
    by (simp add: buildResponseWithBody_def answersI)
  show "answers cseq (session_not_found cseq)" "answers cseq (setup_response s cseq sid t clientIP)"
    by (simp_all add: session_not_found_def setup_response_def build)
  show "answers cseq (setup_error_response s cseq e)" by (cases e) (simp_all add: setup_error_response_def build)
qed

definition served :: "string \<Rightarrow> server \<Rightarrow> connection option \<Rightarrow> handled \<Rightarrow> bool" where
  "served cseq s c r \<longleftrightarrow> (case r of (resp, c', s') \<Rightarrow>
     answers cseq resp \<and> (finite (held_by c) \<longrightarrow> finite (held_by c')) \<and> (c' = None \<longleftrightarrow> c = None) \<and>
     srvNextID s' \<in> {srvNextID s, wrap64 (srvNextID s + 1)})"

lemma with_next': "with_lab f s = (r, s') \<Longrightarrow> srvNextID s' = srvNextID s"
  by (auto simp: with_lab_def split: prod.splits)

lemma stop_next [simp]: "srvNextID (stop_object sid s) = srvNextID s"
  "srvNextID (stopAndDeleteSession sid s) = srvNextID s" "srvNextID (startStreaming env call s) = srvNextID s"
  by (auto simp: stop_object_def stopAndDeleteSession_def startStreaming_def Let_def split: prod.split option.split)

lemma served_same: "answers cseq resp \<Longrightarrow> srvNextID s' = srvNextID s \<Longrightarrow> served cseq s c (resp, c, s')"
  by (simp add: served_def)

lemma served_after: "srvNextID t = srvNextID s \<Longrightarrow> served cseq t c r \<Longrightarrow> served cseq s c r"
  by (simp add: served_def)

lemma same_connection [simp]:
  "rememberSession sid c = None \<longleftrightarrow> c = None" "forgetSession sid c = None \<longleftrightarrow> c = None"
  "afterResponse call c = None \<longleftrightarrow> c = None"
  by (simp_all add: rememberSession_def forgetSession_def afterResponse_def)

lemma finite_remember: "finite (held_by c) \<Longrightarrow> finite (held_by (rememberSession sid c))"
  by (cases c) (simp_all add: rememberSession_def)

lemma served_Setup: "served cseq s c (handleSetupWithState env ip req cseq c s)"
  by (auto simp: handleSetupWithState_def served_def Let_def finite_remember split: prod.split sum.split dest!: with_next')

lemma served_Play: "served cseq s c (handlePlayWithState env req cseq c s)"
proof -
  let ?sid = "sessionIDFrom (header req ''session'')"
  obtain e s1 where u: "with_lab (UpdatePIDs ?sid (tuningQueryFromURI (rqURI req))) s = (e, s1)" by fastforce
  obtain res s2 where p: "with_lab (Play ?sid) s1 = (res, s2)" by fastforce
  obtain sc s3 where sc: "with_lab Scenario s2 = (sc, s3)" by fastforce
  have same: "srvNextID s1 = srvNextID s" "srvNextID s2 = srvNextID s" "srvNextID s3 = srvNextID s"
    using with_next' [OF u] with_next' [OF p] with_next' [OF sc] by simp_all
  have now: "answers cseq resp \<Longrightarrow> served cseq s c (resp, c, startStreaming env call s3)"
    "answers cseq resp \<Longrightarrow> served cseq s c (resp, afterResponse call c, s3)" for resp call
    by (simp_all add: served_def same)
  show ?thesis
    using u p sc now by (auto simp: handlePlayWithState_def playPayloadProvider_def Let_def served_same same
        split: option.splits sum.splits prod.splits)
qed

lemma served_Teardown: "served cseq s c (handleTeardownWithState req cseq c s)"
  by (auto simp: handleTeardownWithState_def served_def Let_def)

lemma served_Pause: "answers cseq (fst (handlePause req cseq s)) \<and> srvNextID (snd (handlePause req cseq s)) = srvNextID s"
proof -
  let ?sid = "sessionIDFrom (header req ''session'')"
  obtain e s1 where "with_lab (Pause ?sid) (stop_object ?sid s) = (e, s1)" by fastforce
  then show ?thesis using with_next' [of "Pause ?sid" "stop_object ?sid s" e s1]
    by (simp add: handlePause_def Let_def split: option.split)
qed

lemma served_dispatch: "served cseq s c (dispatch env ip req cseq c s)"
proof -
  have pause: "served cseq s c (case handlePause req cseq s of (resp, s) \<Rightarrow> (resp, c, s))"
    using served_Pause [of cseq req s] by (auto intro: served_same split: prod.split)
  have get: "answers cseq (handleGetParameter req cseq s)" "answers cseq (handleDescribe req cseq s)"
    by (simp_all add: handleGetParameter_def handleDescribe_def Let_def)
  show ?thesis
    unfolding dispatch_def
    by (simp only: pause served_Setup served_Play served_Teardown served_same [OF get(1) refl] served_same [OF get(2) refl]
        served_same [OF answers_build(1) refl] split: if_split) simp
qed

definition cseq_of :: "request \<Rightarrow> string" where
  "cseq_of req = (if header req ''cseq'' = [] then ''0'' else header req ''cseq'')"

lemma served_request: "served (cseq_of req) s c (handleRequestWithState env ip req c s)"
proof -
  obtain n1 s1 where s1: "srv_now s = (n1, s1)" by fastforce
  define s2 where "s2 = expireSessions env n1 s1"
  obtain n3 s3 where s3: "srv_now s2 = (n3, s3)" by fastforce
  define s4 where "s4 = touchRequestSession req n3 s3"
  have same: "srvNextID s4 = srvNextID s" "srvNextID (snd (with_lab Scenario s4)) = srvNextID s"
    using now_next [OF s1] now_next [OF s3] by (simp_all add: s4_def s2_def)
  have described: "served cseq s c r = served cseq s (map_option (\<lambda>c. c\<lparr>connDescribed := True\<rparr>) c) r" for r cseq
    by (simp add: served_def)
  have "served cseq s c' (dispatch env ip req cseq c' (snd (with_lab Scenario s4)))" for c' cseq
    by (rule served_after [OF same(2) served_dispatch])
  then show ?thesis
    by (simp add: handleRequestWithState_def s1 s2_def [symmetric] s3 s4_def [symmetric] Let_def served_same same
        cseq_of_def) (simp add: described served_same same)
qed

section \<open>What a connection leaves behind\<close>

text \<open>While a connection is served: the interleaved sessions are those there were before it, and its own.\<close>

definition conn_inv :: "server \<Rightarrow> connection \<Rightarrow> server \<Rightarrow> bool" where
  "conn_inv s0 c s \<longleftrightarrow> server_ok s \<and> calls_ok s (Some c) \<and> finite (connSessionIDs c) \<and>
     (\<forall>sid\<in>srvSessions s. interleaved s sid \<longrightarrow> sid \<in> srvSessions s0 \<union> connSessionIDs c)"

lemma conn_request:
  assumes "env_ok env" "srvNextID s + 1 < 2 ^ 63" "conn_inv s0 c s"
    "handleRequestWithState env ip req (Some c) s = (resp, c', s')"
  shows "conn_inv s0 (case c' of Some x \<Rightarrow> x | None \<Rightarrow> c) s'" "srvNextID s' \<le> srvNextID s + 1"
    "\<exists>x. c' = Some x"
proof -
  let ?c = "case c' of Some x \<Rightarrow> x | None \<Rightarrow> c"
  have c: "server_ok s" "calls_ok s (Some c)" "finite (connSessionIDs c)"
    "\<And>sid. sid \<in> srvSessions s \<Longrightarrow> interleaved s sid \<Longrightarrow> sid \<in> srvSessions s0 \<union> connSessionIDs c"
    using assms(3) by (auto simp: conn_inv_def)
  have ok: "server_ok s'" "keeps s s'" "calls_ok s' c'"
    using handle_request [OF assms(1,2), of "Some c" ip req] c(1,2) by (simp_all add: handled_ok_def assms(4))
  have h: "srvSessions s' \<subseteq> srvSessions s \<union> held_by c'" "connSessionIDs c \<inter> srvSessions s' \<subseteq> held_by c'"
    using handed_request [of s c env ip req] by (auto simp: handed_on_def assms(4))
  have f: "finite (held_by c')" "srvNextID s' \<in> {srvNextID s, wrap64 (srvNextID s + 1)}"
    using served_request [of req s "Some c" env ip] c(3) by (simp_all add: served_def assms(4))
  show "\<exists>x. c' = Some x"
    using served_request [of req s "Some c" env ip] by (auto simp: served_def assms(4))
  have n: "0 \<le> srvNextID s" using c(1) by (simp add: server_ok_def objects_ok_def)
  then show "srvNextID s' \<le> srvNextID s + 1" using f(2) assms(2) wrap64_id [of "srvNextID s + 1"] by auto
  have "calls_ok s' (Some ?c)" using ok(3) calls_keep [OF c(2) ok(2)] by (cases c') simp_all
  moreover have "finite (connSessionIDs ?c)" "held_by c' \<subseteq> connSessionIDs ?c"
    using f(1) c(3) by (cases c'; simp)+
  moreover have "sid \<in> srvSessions s0 \<union> held_by c'" if "sid \<in> srvSessions s'" "interleaved s' sid" for sid
  proof (cases "sid \<in> srvSessions s")
    case True
    then show ?thesis using c(4) [OF True interleaved_back [OF c(1) ok(2) True that(2)]] h(2) that(1) by blast
  next
    case False
    then show ?thesis using h(1) that(1) by blast
  qed
  ultimately show "conn_inv s0 ?c s'" using ok(1) unfolding conn_inv_def by blast
qed

lemma conn_after_write:
  assumes "conn_inv s0 c s" "runAfterWrite env c s = (c', s')"
  shows "conn_inv s0 c' s'" "srvNextID s' = srvNextID s"
proof -
  have c: "server_ok s" "calls_ok s (Some c)" using assms(1) by (simp_all add: conn_inv_def)
  have s': "server_ok s'" "keeps s s'" using ok_runAfterWrite [OF c, of env] by (simp_all add: assms(2))
  have same: "srvSessions s' = srvSessions s" "connSessionIDs c' = connSessionIDs c" "calls_ok s' (Some c')"
    using after_write_sessions [OF assms(2)] assms(2) by (auto simp: runAfterWrite_def calls_ok_def)
  then show "conn_inv s0 c' s'"
    using assms(1) s' interleaved_back [OF c(1) s'(2)] by (auto simp: conn_inv_def)
  have "srvNextID (foldl (\<lambda>s call. startStreaming env call s) s calls) = srvNextID s" for calls
    by (induction calls arbitrary: s) simp_all
  then show "srvNextID s' = srvNextID s" using assms(2) by (auto simp: runAfterWrite_def)
qed

lemma serve_turn:
  "serve_connection env ip write_ok k input c s =
     (case readRequest input of
        None \<Rightarrow> ([], c, s)
      | Some (req, rest) \<Rightarrow>
          (case handleRequestWithState env ip req (Some c) s of
             (resp, c', s) \<Rightarrow>
               let c = (case c' of Some x \<Rightarrow> x | None \<Rightarrow> c) in
               if \<not> write_ok k then ([], c, s)
               else
                 (case runAfterWrite env c s of
                    (c, s) \<Rightarrow>
                      (case serve_connection env ip write_ok (Suc k) rest c s of (resps, c, s) \<Rightarrow> (resp # resps, c, s)))))"
  by (subst serve_connection.simps) (simp add: handleConn_turn_def Let_def split: option.split prod.split)

text \<open>The loop takes steps of the node.\<close>

lemma conn_loop:
  assumes "env_ok env" "conn_inv s0 c s" "srvNextID s + int (length input) < 2 ^ 63"
    "serve_connection env ip write_ok k input c s = (resps, c', s')"
  shows "conn_inv s0 c' s' \<and> (node_step env)\<^sup>*\<^sup>* \<lparr>ndServer = s, ndConns = conns(cid \<mapsto> c)\<rparr>
    \<lparr>ndServer = s', ndConns = conns(cid \<mapsto> c')\<rparr>"
  using assms(2-)
proof (induction "length input" arbitrary: k input c s resps c' s' rule: less_induct)
  case less
  let ?nd = "\<lambda>c s. \<lparr>ndServer = s, ndConns = conns(cid \<mapsto> c)\<rparr>"
  show ?case
  proof (cases "readRequest input")
    case None
    then show ?thesis using less.prems by (subst (asm) serve_turn) simp
  next
    case (Some rr)
    obtain req rest where rr: "readRequest input = Some (req, rest)" using Some by (cases rr) simp
    have len: "length rest < length input" by (rule readRequest_shorter [OF rr])
    obtain resp c1 s1 where h: "handleRequestWithState env ip req (Some c) s = (resp, c1, s1)" by (metis prod_cases3)
    define c2 where "c2 = (case c1 of Some x \<Rightarrow> x | None \<Rightarrow> c)"
    have next_id: "srvNextID s + 1 < 2 ^ 63" using less.prems(2) len by auto
    note request = conn_request [OF assms(1) next_id less.prems(1) h]
    have inv1: "conn_inv s0 c2 s1" "srvNextID s1 \<le> srvNextID s + 1" "c1 = Some c2"
      using request by (auto simp: c2_def)
    have step1: "node_step env (?nd c s) (?nd c2 s1)"
      using nd_request [of "?nd c s" cid c env ip req resp c2 s1] h next_id by (simp add: inv1(3))
    show ?thesis
    proof (cases "write_ok k")
      case False
      then have "c' = c2 \<and> s' = s1"
        using less.prems(3) by (subst (asm) serve_turn) (simp add: rr h inv1(3))
      then show ?thesis using inv1(1) step1 by blast
    next
      case True
      obtain c3 s3 where w: "runAfterWrite env c2 s1 = (c3, s3)" by fastforce
      obtain resps4 c4 s4 where more: "serve_connection env ip write_ok (Suc k) rest c3 s3 = (resps4, c4, s4)"
        by (metis prod_cases3)
      have end': "c' = c4" "s' = s4"
        using less.prems(3) True by (subst (asm) serve_turn; simp add: rr h inv1(3) w more)+
      have step2: "node_step env (?nd c2 s1) (?nd c3 s3)"
        using nd_written [of "?nd c2 s1" cid c2 env c3 s3] w by simp
      have "conn_inv s0 c4 s4 \<and> (node_step env)\<^sup>*\<^sup>* (?nd c3 s3) (?nd c4 s4)"
        by (rule less.hyps [OF len conn_after_write(1) [OF inv1(1) w] _ more])
          (use conn_after_write(2) [OF inv1(1) w] inv1(2) less.prems(2) len in linarith)
      then show ?thesis using step1 step2 by (metis end' converse_rtranclp_into_rtranclp)
    qed
  qed
qed

section \<open>Pipelined requests\<close>

text \<open>What a client sends: interleaved frames, then a request with its body.\<close>

record message =
  msgFrames :: "string list"
  msgVerb :: string
  msgURI :: string
  msgHeaders :: "(string \<times> string) list"
  msgBody :: string

definition message_ok :: "message \<Rightarrow> bool" where
  "message_ok m \<longleftrightarrow> list_all frame_ok (msgFrames m) \<and> request_ok (msgVerb m) (msgURI m) (msgHeaders m) \<and>
     content_length (msgHeaders m) = length (msgBody m)"

definition wire :: "message \<Rightarrow> string" where
  "wire m = concat (msgFrames m) @ render_head (msgVerb m) (msgURI m) (msgHeaders m) @ msgBody m"

definition request_of :: "message \<Rightarrow> request" where
  "request_of m = \<lparr>rqMethod = msgVerb m, rqURI = msgURI m, rqHeaders = header_map (msgHeaders m)\<rparr>"

lemma read_wire: "message_ok m \<Longrightarrow> readRequest (wire m @ rest) = Some (request_of m, rest)"
  by (simp add: message_ok_def wire_def request_of_def readRequest_def skip_frames read_head)

text \<open>The reference: the requests handled one after the other, each followed by what it left to do.\<close>

fun answer_all :: "rtsp_env \<Rightarrow> string \<Rightarrow> request list \<Rightarrow> connection \<Rightarrow> server \<Rightarrow> string list \<times> connection \<times> server" where
  "answer_all env ip [] c s = ([], c, s)"
| "answer_all env ip (req # reqs) c s =
     (case handleRequestWithState env ip req (Some c) s of
        (resp, c', s) \<Rightarrow>
          (case runAfterWrite env (case c' of Some x \<Rightarrow> x | None \<Rightarrow> c) s of
             (c, s) \<Rightarrow> (case answer_all env ip reqs c s of (resps, c, s) \<Rightarrow> (resp # resps, c, s))))"

lemma answers_in_order: "list_all2 (\<lambda>req resp. answers (cseq_of req) resp) reqs (fst (answer_all env ip reqs c s))"
proof (induction reqs arbitrary: c s)
  case (Cons req reqs)
  obtain resp c1 s1 where h: "handleRequestWithState env ip req (Some c) s = (resp, c1, s1)" by (metis prod_cases3)
  obtain c2 s2 where w: "runAfterWrite env (case c1 of Some x \<Rightarrow> x | None \<Rightarrow> c) s1 = (c2, s2)" by fastforce
  obtain resps c3 s3 where more: "answer_all env ip reqs c2 s2 = (resps, c3, s3)" by (metis prod_cases3)
  have "answers (cseq_of req) resp" using served_request [of req s "Some c" env ip] by (simp add: served_def h)
  then show ?case using Cons [of c2 s2] by (simp add: h w more)
qed simp

lemma serve_messages:
  "list_all message_ok ms \<Longrightarrow> readRequest tail = None \<Longrightarrow>
     serve_connection env ip (\<lambda>_. True) k (concat (map wire ms) @ tail) c s = answer_all env ip (map request_of ms) c s"
proof (induction ms arbitrary: k c s)
  case Nil
  then show ?case by (subst serve_turn) simp
next
  case (Cons m ms)
  have read: "readRequest (wire m @ concat (map wire ms) @ tail) = Some (request_of m, concat (map wire ms) @ tail)"
    using Cons.prems by (simp add: read_wire)
  have more: "serve_connection env ip (\<lambda>_. True) (Suc k) (concat (map wire ms) @ tail) c s =
      answer_all env ip (map request_of ms) c s" for c s
    using Cons by simp
  show ?case by (subst serve_turn) (simp add: read Let_def more)
qed

definition demo_message :: message where
  "demo_message = \<lparr>msgFrames = [], msgVerb = ''SETUP'', msgURI = ''rtsp://lab/?'' @ query_one,
     msgHeaders = [(''CSeq'', ''2''), (''Transport'', ''RTP/AVP/TCP'')], msgBody = []\<rparr>"

lemma demo_server_ok: "server_ok demo_server"
proof -
  have "node_ok \<lparr>ndServer = demo_server, ndConns = Map.empty\<rparr>"
    by (rule node_new, unfold node_init_def demo_server_def demo_lab_def)
      (use demo_wf in \<open>auto simp: NewServer_def\<close>)
  then show ?thesis by (simp add: node_ok_def)
qed

section \<open>Connections\<close>

text \<open>C6. A connection, served to its end, whatever bytes arrive and whichever responses can be written: it
  ends (the loop returns, as a total function), having taken steps of the node only, so that what holds of every
  reachable node holds of it; the server and the laboratory still agree, and when its deferred close has run none
  of the sessions that it set up over itself is left: an interleaved session that lives was there before it.\<close>

theorem connection_leaves_no_session:
  assumes "env_ok env" "server_ok s" "srvNextID s + int (length input) < 2 ^ 63"
    "\<And>ids. finite ids \<Longrightarrow> set (order ids) = ids" "conns cid = None"
  shows "server_ok (snd (handleConn env ip write_ok order input s)) \<and>
    {sid \<in> srvSessions (snd (handleConn env ip write_ok order input s)).
       interleaved (snd (handleConn env ip write_ok order input s)) sid} \<subseteq> srvSessions s \<and>
    (node_step env)\<^sup>*\<^sup>* \<lparr>ndServer = s, ndConns = conns\<rparr>
      \<lparr>ndServer = snd (handleConn env ip write_ok order input s), ndConns = conns\<rparr>"
proof -
  obtain resps c s1 where loop: "serve_connection env ip write_ok 0 input newConnectionState s = (resps, c, s1)"
    by (metis prod_cases3)
  have "conn_inv s newConnectionState s"
    using assms(2) by (simp add: conn_inv_def newConnectionState_def calls_ok_def)
  note run = conn_loop [OF assms(1) this assms(3) loop, of conns cid]
  define s2 where "s2 = fst (closeConnectionSessions (order (connSessionIDs c)) c s1)"
  have end': "snd (handleConn env ip write_ok order input s) = s2" by (simp add: handleConn_def loop s2_def)
  have ok: "server_ok s1" "set (order (connSessionIDs c)) = connSessionIDs c"
    using run assms(4) by (simp_all add: conn_inv_def)
  have closed: "ok_to s1 s2" unfolding s2_def by (rule ok_closeConnection)
  have "sid \<in> srvSessions s" if "sid \<in> srvSessions s2" "interleaved s2 sid" for sid
  proof -
    have sub: "sid \<in> srvSessions s1" using that(1) close_sessions(1) unfolding s2_def by blast
    have "interleaved s1 sid" using interleaved_back [OF ok(1) _ sub that(2)] closed ok(1) by (simp add: ok_to_def)
    moreover from this have "sid \<notin> connSessionIDs c" using close_sessions(2) that(1) ok(2) unfolding s2_def by blast
    ultimately show ?thesis using run sub by (auto simp: conn_inv_def)
  qed
  moreover have "conns(cid := None) = conns" using assms(5) by auto
  then have "node_step env \<lparr>ndServer = s1, ndConns = conns(cid \<mapsto> c)\<rparr> \<lparr>ndServer = s2, ndConns = conns\<rparr>"
    using nd_close [of "\<lparr>ndServer = s1, ndConns = conns(cid \<mapsto> c)\<rparr>" cid c "order (connSessionIDs c)" env] ok(2)
    by (simp add: s2_def)
  moreover have "node_step env \<lparr>ndServer = s, ndConns = conns\<rparr> \<lparr>ndServer = s, ndConns = conns(cid \<mapsto> newConnectionState)\<rparr>"
    using nd_accept [of "\<lparr>ndServer = s, ndConns = conns\<rparr>" cid env] assms(5) by simp
  ultimately show ?thesis
    using closed ok(1) run by (auto simp: end' ok_to_def intro: converse_rtranclp_into_rtranclp rtranclp.rtrancl_into_rtrancl)
qed

theorem connection_leaves_no_session_witness:
  "\<exists>resps s'. handleConn demo_env ''10.0.0.2'' (\<lambda>_. True) sorted_list_of_set (wire demo_message) demo_server = (resps, s') \<and>
     resps \<noteq> [] \<and> server_ok s' \<and> {sid \<in> srvSessions s'. interleaved s' sid} = {}"
proof -
  let ?run = "handleConn demo_env ''10.0.0.2'' (\<lambda>_. True) sorted_list_of_set (wire demo_message) demo_server"
  have ok: "message_ok demo_message" by code_simp
  have "length (wire demo_message) < 200" by code_simp
  then have short: "srvNextID demo_server + int (length (wire demo_message)) < 2 ^ 63"
    by (simp add: demo_server_lab)
  have "server_ok (snd ?run) \<and> {sid \<in> srvSessions (snd ?run). interleaved (snd ?run) sid} \<subseteq> srvSessions demo_server"
    using connection_leaves_no_session [OF demo_env_ok demo_server_ok short, of sorted_list_of_set Map.empty 0
        "''10.0.0.2''" "\<lambda>_. True"] by simp
  moreover have "fst ?run = fst (answer_all demo_env ''10.0.0.2'' [request_of demo_message] newConnectionState demo_server)"
    using serve_messages [of "[demo_message]" "[]" demo_env "''10.0.0.2''" 0 newConnectionState demo_server] ok
    by (simp add: handleConn_def readRequest_def read_request_loop.simps split: prod.split)
  then have "fst ?run \<noteq> []" by (simp split: prod.split)
  ultimately show ?thesis by (cases ?run) (simp add: demo_server_lab)
qed

text \<open>C7. Pipelining: however many requests arrive together, between whatever complete interleaved frames,
  and even when the input then ends within a request, a connection answers each of them, once, in their order,
  with the state that the ones before it left; the responses are those of the requests handled one at a time,
  and each repeats the CSeq of its request.\<close>

theorem pipelined_requests_answered:
  assumes "list_all message_ok ms" "readRequest tail = None"
  shows "fst (handleConn env ip (\<lambda>_. True) order (concat (map wire ms) @ tail) s) =
      fst (answer_all env ip (map request_of ms) newConnectionState s) \<and>
    list_all2 (\<lambda>m resp. \<exists>status extra body. resp = buildResponse (cseq_of (request_of m)) status extra @ body)
      ms (fst (handleConn env ip (\<lambda>_. True) order (concat (map wire ms) @ tail) s))"
proof -
  have "fst (handleConn env ip (\<lambda>_. True) order (concat (map wire ms) @ tail) s) =
      fst (answer_all env ip (map request_of ms) newConnectionState s)"
    using serve_messages [OF assms, of env ip 0 newConnectionState s]
    by (simp add: handleConn_def split: prod.split)
  then show ?thesis
    using answers_in_order [of "map request_of ms" env ip newConnectionState s] by (simp add: list_all2_map1 answers_def)
qed

theorem pipelined_requests_answered_witness:
  "\<exists>r1 r2. fst (handleConn demo_env ''10.0.0.2'' (\<lambda>_. True) sorted_list_of_set
     (concat (map wire [demo_message, demo_message]) @ ''PLAY'') demo_server) = [r1, r2] \<and> prefix ''RTSP/1.0 '' r2"
proof -
  have "list_all message_ok [demo_message, demo_message]" by code_simp
  moreover have "readRequest ''PLAY'' = None" by (simp add: readRequest_def read_request_loop.simps read_line_def LF_def)
  ultimately have "list_all2 (\<lambda>m resp. \<exists>status extra body. resp = buildResponse (cseq_of (request_of m)) status extra @ body)
      [demo_message, demo_message] (fst (handleConn demo_env ''10.0.0.2'' (\<lambda>_. True) sorted_list_of_set
     (concat (map wire [demo_message, demo_message]) @ ''PLAY'') demo_server))"
    using pipelined_requests_answered by blast
  moreover have "prefix ''RTSP/1.0 '' (buildResponse cseq status extra @ body)" for cseq status extra body
    by (simp add: buildResponse_def)
  ultimately show ?thesis by (auto simp: list_all2_Cons1)
qed

end
