(* ===== verification/StreamControl.thy ===== *)
theory StreamControl
  imports RtspSpec
begin

text \<open>
  Starting and stopping the goroutine of a session (\<open>internal/rtsp/server.go\<close>: \<open>startStreaming\<close>,
  \<open>stopStreaming\<close>, \<open>finishStreaming\<close>). A stream has a stop channel and, over UDP, a socket; the session keeps
  both and the goroutine has copies. A goroutine that was told to stop may still be in a tick, so streams of
  the same session overlap: the steps here are those between which the session's mutex is free. Channels and
  sockets are numbered as they are made. To close a closed channel panics, which is \<open>None\<close>.
\<close>

section \<open>The session's stream\<close>

record goroutine =
  gConn :: "nat option"
  gTarget :: play_target

record stream_control =
  ctStopCh :: "nat option"
  ctUdpConn :: "nat option"
  ctNext :: nat
  ctClosed :: "nat set"
  ctSockets :: "nat set"
  ctRunning :: "nat \<rightharpoonup> goroutine"

definition close_channel :: "nat \<Rightarrow> stream_control \<Rightarrow> stream_control option" where
  "close_channel ch ct = (if ch \<in> ctClosed ct then None else Some (ct\<lparr>ctClosed := insert ch (ctClosed ct)\<rparr>))"

definition close_socket :: "nat \<Rightarrow> stream_control \<Rightarrow> stream_control" where
  "close_socket u ct = ct\<lparr>ctSockets := ctSockets ct - {u}\<rparr>"

definition stopStreamingLocked :: "stream_control \<Rightarrow> stream_control option" where
  "stopStreamingLocked ct =
     (case (case ctStopCh ct of
              None \<Rightarrow> Some ct
            | Some ch \<Rightarrow> map_option (\<lambda>ct. ct\<lparr>ctStopCh := None\<rparr>) (close_channel ch ct)) of
        None \<Rightarrow> None
      | Some ct \<Rightarrow>
          Some (case ctUdpConn ct of None \<Rightarrow> ct | Some u \<Rightarrow> (close_socket u ct)\<lparr>ctUdpConn := None\<rparr>))"

text \<open>The goroutine is known by the stop channel that it was given.\<close>

definition startUDPStreamingLocked :: "bool \<Rightarrow> play_target \<Rightarrow> stream_control \<Rightarrow> stream_control" where
  "startUDPStreamingLocked listens target ct =
     (if \<not> listens then ct
      else let n = ctNext ct in
        ct\<lparr>ctNext := Suc n, ctSockets := insert n (ctSockets ct), ctUdpConn := Some n, ctStopCh := Some n,
           ctRunning := (ctRunning ct)(n \<mapsto> \<lparr>gConn = Some n, gTarget = target\<rparr>)\<rparr>)"

definition startInterleavedStreamingLocked :: "bool \<Rightarrow> play_target \<Rightarrow> stream_control \<Rightarrow> stream_control" where
  "startInterleavedStreamingLocked has_conn target ct =
     (if \<not> has_conn then ct
      else let n = ctNext ct in
        ct\<lparr>ctNext := Suc n, ctStopCh := Some n,
           ctRunning := (ctRunning ct)(n \<mapsto> \<lparr>gConn = None, gTarget = target\<rparr>)\<rparr>)"

definition start_stream :: "transport_mode \<Rightarrow> bool \<Rightarrow> bool \<Rightarrow> play_target \<Rightarrow> stream_control \<Rightarrow> stream_control option" where
  "start_stream mode listens has_conn target ct =
     map_option (\<lambda>ct. if mode = transportInterleaved then startInterleavedStreamingLocked has_conn target ct
       else startUDPStreamingLocked listens target ct) (stopStreamingLocked ct)"

definition streamingActive :: "stream_control \<Rightarrow> bool" where
  "streamingActive ct \<longleftrightarrow> ctUdpConn ct \<noteq> None \<or> ctStopCh ct \<noteq> None"

definition finishStreaming :: "nat \<Rightarrow> nat \<Rightarrow> stream_control \<Rightarrow> stream_control" where
  "finishStreaming conn ch ct =
     (if ctStopCh ct \<noteq> Some ch then ct
      else
        let ct = (if ctUdpConn ct = Some conn then (close_socket conn ct)\<lparr>ctUdpConn := None\<rparr> else ct)
        in ct\<lparr>ctStopCh := None\<rparr>)"

definition finishInterleavedStreaming :: "nat \<Rightarrow> stream_control \<Rightarrow> stream_control" where
  "finishInterleavedStreaming ch ct = (if ctStopCh ct \<noteq> Some ch then ct else ct\<lparr>ctStopCh := None\<rparr>)"

section \<open>Its goroutines\<close>

text \<open>A goroutine that ends by itself, after the packet limit or a failed write.\<close>

definition finish :: "nat \<Rightarrow> goroutine \<Rightarrow> stream_control \<Rightarrow> stream_control" where
  "finish ch g ct =
     (case gConn g of Some u \<Rightarrow> finishStreaming u ch ct | None \<Rightarrow> finishInterleavedStreaming ch ct)"

definition gone :: "nat \<Rightarrow> stream_control \<Rightarrow> stream_control" where
  "gone ch ct = ct\<lparr>ctRunning := (ctRunning ct)(ch := None)\<rparr>"

definition no_stream :: stream_control where
  "no_stream = \<lparr>ctStopCh = None, ctUdpConn = None, ctNext = 0, ctClosed = {}, ctSockets = {}, ctRunning = Map.empty\<rparr>"

inductive control_step :: "stream_control option \<Rightarrow> stream_control option \<Rightarrow> bool" where
  cs_start: "control_step (Some ct) (start_stream mode listens has_conn target ct)"
| cs_stop: "control_step (Some ct) (stopStreamingLocked ct)"
| cs_stopped: "ctRunning ct ch = Some g \<Longrightarrow> ch \<in> ctClosed ct \<Longrightarrow> control_step (Some ct) (Some (gone ch ct))"
| cs_finish: "ctRunning ct ch = Some g \<Longrightarrow> control_step (Some ct) (Some (gone ch (finish ch g ct)))"

definition control_ok :: "stream_control \<Rightarrow> bool" where
  "control_ok ct \<longleftrightarrow>
     (\<forall>ch. ctStopCh ct = Some ch \<longrightarrow> ch \<notin> ctClosed ct \<and> (\<exists>g. ctRunning ct ch = Some g \<and> gConn g = ctUdpConn ct)) \<and>
     (\<forall>ch g. ctRunning ct ch = Some g \<longrightarrow> ch < ctNext ct \<and> (ch \<notin> ctClosed ct \<longrightarrow> ctStopCh ct = Some ch)) \<and>
     (\<forall>ch\<in>ctClosed ct. ch < ctNext ct) \<and>
     (ctStopCh ct = None \<longrightarrow> ctUdpConn ct = None) \<and>
     ctSockets ct = set_option (ctUdpConn ct) \<and> (\<forall>u\<in>ctSockets ct. u < ctNext ct)"

lemma control_okD:
  assumes "control_ok ct"
  shows "ctStopCh ct = Some ch \<Longrightarrow> ch \<notin> ctClosed ct"
    "ctStopCh ct = Some ch \<Longrightarrow> \<exists>g. ctRunning ct ch = Some g \<and> gConn g = ctUdpConn ct"
    "ctRunning ct ch = Some g \<Longrightarrow> ch < ctNext ct"
    "ctRunning ct ch = Some g \<Longrightarrow> ch \<notin> ctClosed ct \<Longrightarrow> ctStopCh ct = Some ch"
    "ch \<in> ctClosed ct \<Longrightarrow> ch < ctNext ct" "ctStopCh ct = None \<Longrightarrow> ctUdpConn ct = None"
    "ctSockets ct = set_option (ctUdpConn ct)" "u \<in> ctSockets ct \<Longrightarrow> u < ctNext ct"
  using assms unfolding control_ok_def by blast+

lemma control_stop:
  assumes "control_ok ct"
  shows "\<exists>ct'. stopStreamingLocked ct = Some ct' \<and> control_ok ct' \<and> ctStopCh ct' = None \<and> ctNext ct' = ctNext ct"
  using assms
  by (cases "ctStopCh ct"; cases "ctUdpConn ct")
    (auto simp: stopStreamingLocked_def close_channel_def close_socket_def control_ok_def)

lemma control_begin:
  assumes "control_ok ct" "ctStopCh ct = None"
  shows "control_ok (startUDPStreamingLocked listens target ct)" "control_ok (startInterleavedStreamingLocked has_conn target ct)"
  using assms less_SucI
  by (fastforce simp: startUDPStreamingLocked_def startInterleavedStreamingLocked_def control_ok_def Let_def)+

lemma control_start:
  assumes "control_ok ct"
  shows "\<exists>ct'. start_stream mode listens has_conn target ct = Some ct' \<and> control_ok ct'"
proof -
  obtain ct1 where "stopStreamingLocked ct = Some ct1" "control_ok ct1" "ctStopCh ct1 = None"
    using control_stop [OF assms] by blast
  then show ?thesis using control_begin [of ct1] by (cases mode) (auto simp: start_stream_def)
qed

lemma control_gone:
  assumes "control_ok ct" "ctStopCh ct \<noteq> Some ch"
  shows "control_ok (gone ch ct)"
proof -
  note facts = control_okD [OF assms(1)] assms(2)
  show ?thesis unfolding control_ok_def gone_def
    by (simp, intro conjI) (use facts in blast)+
qed

lemma finish_current:
  assumes "control_ok ct" "ctRunning ct ch = Some g"
  shows "finish ch g ct =
    (if ctStopCh ct = Some ch then ct\<lparr>ctStopCh := None, ctUdpConn := None, ctSockets := {}\<rparr> else ct)"
proof (cases "ctStopCh ct = Some ch")
  case True
  then have "gConn g = ctUdpConn ct" using control_okD(2) [OF assms(1) True] assms(2) by simp
  moreover have "ctSockets ct = set_option (ctUdpConn ct)" by (rule control_okD(7) [OF assms(1)])
  ultimately show ?thesis using True
    by (cases "ctUdpConn ct") (simp_all add: finish_def finishStreaming_def finishInterleavedStreaming_def close_socket_def)
qed (simp add: finish_def finishStreaming_def finishInterleavedStreaming_def split: option.split)

lemma control_finish:
  assumes "control_ok ct" "ctRunning ct ch = Some g"
  shows "control_ok (gone ch (finish ch g ct))"
proof (cases "ctStopCh ct = Some ch")
  case True
  note facts = control_okD [OF assms(1)] True
  show ?thesis unfolding finish_current [OF assms] control_ok_def gone_def
    by (simp add: True, intro conjI) (use facts in force)+
next
  case False
  then show ?thesis unfolding finish_current [OF assms] by (simp add: control_gone assms(1))
qed

lemma control_stopped:
  assumes "control_ok ct" "ch \<in> ctClosed ct"
  shows "control_ok (gone ch ct)"
  using assms control_okD(1) [OF assms(1)] by (blast intro: control_gone)

interpretation control: inductive_invariant "\<lambda>r. r = Some no_stream" control_step
  "\<lambda>r. \<exists>ct. r = Some ct \<and> control_ok ct"
proof (unfold_locales, goal_cases)
  case (1 r)
  then show ?case by (simp add: no_stream_def control_ok_def)
next
  case (2 r r')
  obtain ct where ct: "r = Some ct" "control_ok ct" using 2(1) by blast
  from 2(2) show ?case
  proof cases
    case (cs_start ct' mode listens has_conn target)
    then show ?thesis using control_start [OF ct(2), of mode listens has_conn target] ct(1) by simp
  next
    case (cs_stop ct')
    then show ?thesis using control_stop [OF ct(2)] ct(1) by auto
  qed (use ct in \<open>auto simp: control_finish control_stopped\<close>)
qed

section \<open>What holds of every run\<close>

text \<open>C8. The streams of a session keep apart in every interleaving of starts, stops and goroutines that end
  late: no stop channel is closed twice (which would panic), at most one goroutine has not been told to stop,
  and it is the one of the stream that the session shows; a goroutine of an earlier stream that reaches its
  packet limit after the session was started again leaves the new stream alone; and the only open socket is
  that of the session's stream, so none leaks.\<close>

theorem streams_keep_apart:
  assumes "reach (\<lambda>r. r = Some no_stream) control_step r"
  shows "\<exists>ct. r = Some ct \<and> ctSockets ct = set_option (ctUdpConn ct) \<and>
    (streamingActive ct \<longleftrightarrow> ctStopCh ct \<noteq> None) \<and>
    (\<forall>ch. ctStopCh ct = Some ch \<longleftrightarrow> ch \<in> dom (ctRunning ct) - ctClosed ct) \<and>
    (\<forall>ch g. ctRunning ct ch = Some g \<and> ctStopCh ct \<noteq> Some ch \<longrightarrow> finish ch g ct = ct)"
proof -
  obtain ct where ct: "r = Some ct" "control_ok ct" using control.reach_inv [OF assms] by blast
  note facts = control_okD [OF ct(2)]
  have "ctStopCh ct = Some ch \<longleftrightarrow> ch \<in> dom (ctRunning ct) - ctClosed ct" for ch
    using facts(1,2,4) by blast
  moreover have "streamingActive ct \<longleftrightarrow> ctStopCh ct \<noteq> None"
    using facts(6) by (cases "ctStopCh ct") (auto simp: streamingActive_def)
  ultimately show ?thesis using ct(1) facts(7) finish_current [OF ct(2)] by auto
qed

text \<open>A session that is played over UDP, played again before its first goroutine has noticed, and that
  goroutine.\<close>

definition demo_target :: play_target where
  "demo_target = (hd (catServices demo_catalog), hd (catMuxes demo_catalog))"

definition demo_control :: stream_control where
  "demo_control = \<lparr>ctStopCh = Some 1, ctUdpConn = Some 1, ctNext = 2, ctClosed = {0}, ctSockets = {1},
     ctRunning = [0 \<mapsto> \<lparr>gConn = Some 0, gTarget = demo_target\<rparr>, 1 \<mapsto> \<lparr>gConn = Some 1, gTarget = demo_target\<rparr>]\<rparr>"

lemma demo_control_reach: "reach (\<lambda>r. r = Some no_stream) control_step (Some demo_control)"
proof -
  let ?first = "no_stream\<lparr>ctStopCh := Some 0, ctUdpConn := Some 0, ctNext := 1, ctSockets := {0},
    ctRunning := [0 \<mapsto> \<lparr>gConn = Some 0, gTarget = demo_target\<rparr>]\<rparr>"
  have starts: "start_stream transportUDP True True demo_target no_stream = Some ?first"
    "start_stream transportUDP True True demo_target ?first = Some demo_control"
    by (simp_all add: start_stream_def stopStreamingLocked_def startUDPStreamingLocked_def no_stream_def demo_control_def
        close_channel_def close_socket_def)
  have "control_step (Some no_stream) (Some ?first)" "control_step (Some ?first) (Some demo_control)"
    using cs_start [of no_stream transportUDP True True demo_target] cs_start [of ?first transportUDP True True demo_target]
    unfolding starts by simp_all
  moreover have "reach (\<lambda>r. r = Some no_stream) control_step (Some no_stream)" by (rule reach_init) simp
  ultimately show ?thesis by (blast intro: reach_step)
qed

theorem streams_keep_apart_witness:
  "finish 0 \<lparr>gConn = Some 0, gTarget = demo_target\<rparr> demo_control = demo_control \<and> ctStopCh demo_control = Some 1"
proof -
  have "ctRunning demo_control 0 = Some \<lparr>gConn = Some 0, gTarget = demo_target\<rparr>" "ctStopCh demo_control = Some 1"
    by (simp_all add: demo_control_def)
  then show ?thesis using streams_keep_apart [OF demo_control_reach] by fastforce
qed

section \<open>The server's view\<close>

text \<open>What the server's state keeps of all this: what the session plays.\<close>

definition playing :: "stream_control \<Rightarrow> play_target option" where
  "playing ct = (case ctStopCh ct of None \<Rightarrow> None | Some ch \<Rightarrow> map_option gTarget (ctRunning ct ch))"

definition shows_stream :: "server \<Rightarrow> string \<Rightarrow> stream_control option \<Rightarrow> bool" where
  "shows_stream s sid r \<longleftrightarrow>
     (case r of None \<Rightarrow> False | Some ct \<Rightarrow> map_option rssStreaming (srvObjects s sid) = Some (playing ct))"

lemma playing_start:
  assumes "control_ok ct" "start_stream mode listens has_conn target ct = Some ct'"
  shows "playing ct' = (if (if mode = transportInterleaved then has_conn else listens) then Some target else None)"
proof -
  obtain ct1 where ct1: "stopStreamingLocked ct = Some ct1" "ctStopCh ct1 = None" using control_stop [OF assms(1)] by blast
  then show ?thesis using assms(2)
    by (auto simp: start_stream_def playing_def startUDPStreamingLocked_def startInterleavedStreamingLocked_def Let_def)
qed

text \<open>C9. The RTSP server's account of its streams, in which a session plays one target or none and starting and
  stopping are single assignments, is what channels, sockets and overlapping goroutines come to: from every
  reachable state of a session's stream that the server shows rightly, starting, stopping, and a goroutine's
  own end (of the current stream, or of an earlier one, which is no event for the server) lead to a state that
  the server shows rightly again.\<close>

theorem stream_control_refines:
  assumes "reach (\<lambda>r. r = Some no_stream) control_step (Some ct)" "shows_stream s sid (Some ct)"
    "srvObjects s sid = Some ob"
  shows "shows_stream (startStreaming env (sid, target) s) sid
      (start_stream (rssTransport ob) (envListenUDP env) True target ct) \<and>
    shows_stream (stop_object sid s) sid (stopStreamingLocked ct) \<and>
    (\<forall>ch g. ctRunning ct ch = Some g \<longrightarrow>
      shows_stream (if ctStopCh ct = Some ch then stop_object sid s else s) sid (Some (gone ch (finish ch g ct))))"
proof (intro conjI allI impI)
  have ok: "control_ok ct" using control.reach_inv [OF assms(1)] by simp
  obtain ct1 where ct1: "start_stream (rssTransport ob) (envListenUDP env) True target ct = Some ct1"
    using control_start [OF ok] by blast
  show "shows_stream (startStreaming env (sid, target) s) sid
      (start_stream (rssTransport ob) (envListenUDP env) True target ct)"
    using playing_start [OF ok ct1] assms(3) by (auto simp: shows_stream_def ct1 startStreaming_def stop_object_def Let_def)
  obtain ct2 where "stopStreamingLocked ct = Some ct2" "ctStopCh ct2 = None" using control_stop [OF ok] by blast
  then show "shows_stream (stop_object sid s) sid (stopStreamingLocked ct)"
    using assms(3) by (simp add: shows_stream_def stop_object_def playing_def)
  fix ch g assume g: "ctRunning ct ch = Some g"
  show "shows_stream (if ctStopCh ct = Some ch then stop_object sid s else s) sid (Some (gone ch (finish ch g ct)))"
  proof (cases "ctStopCh ct = Some ch")
    case True
    then show ?thesis unfolding finish_current [OF ok g]
      using assms(3) by (simp add: shows_stream_def stop_object_def playing_def gone_def)
  next
    case False
    then have "playing (gone ch ct) = playing ct" by (auto simp: playing_def gone_def split: option.split)
    then show ?thesis unfolding finish_current [OF ok g] using False assms(2) by (simp add: shows_stream_def)
  qed
qed

definition demo_playing :: server where
  "demo_playing = demo_server\<lparr>srvObjects := [''1'' \<mapsto> \<lparr>rssID = ''1'', rssClientIP = ''10.0.0.2'', rssClientRTPPort = 5000,
     rssClientRTCPPort = 5001, rssTransport = transportUDP, rssRtpChannel = 0, rssRtcpChannel = 1,
     rssRtcpInterval = 0, rssService = fst demo_target, rssStreaming = Some demo_target\<rparr>]\<rparr>"

theorem stream_control_refines_witness:
  "shows_stream (stop_object ''1'' demo_playing) ''1'' (stopStreamingLocked demo_control) \<and>
   shows_stream demo_playing ''1'' (Some (gone 0 (finish 0 \<lparr>gConn = Some 0, gTarget = demo_target\<rparr> demo_control)))"
proof -
  have "shows_stream demo_playing ''1'' (Some demo_control)"
    by (simp add: shows_stream_def demo_playing_def playing_def demo_control_def)
  moreover have "\<exists>ob. srvObjects demo_playing ''1'' = Some ob" by (simp add: demo_playing_def)
  moreover have "ctRunning demo_control 0 = Some \<lparr>gConn = Some 0, gTarget = demo_target\<rparr>" "ctStopCh demo_control \<noteq> Some 0"
    by (simp_all add: demo_control_def)
  ultimately show ?thesis using stream_control_refines [OF demo_control_reach] by fastforce
qed

end
