(* ===== verification/ApiSchema.thy ===== *)
theory ApiSchema
  imports GoLib
begin

text \<open>
  The versioned contract of the HTTP API (\<open>internal/httpserver/schema.go\<close>): its endpoints with their
  methods, and its models with their fields.
\<close>

record api_endpoint =
  aeMethods :: "string list"
  aePath :: string
  aeDescription :: string

record api_model =
  amName :: string
  amFields :: "string list"

record api_schema =
  asVersion :: string
  asEndpoints :: "api_endpoint list"
  asModels :: "api_model list"

definition APISchemaVersion :: string where "APISchemaVersion = ''1.10''"

definition schema_endpoint :: "string \<Rightarrow> string list \<Rightarrow> string \<Rightarrow> api_endpoint" where
  "schema_endpoint path verbs desc = \<lparr>aeMethods = verbs, aePath = path, aeDescription = desc\<rparr>"

definition schema_endpoints :: "api_endpoint list" where
  "schema_endpoints =
     [schema_endpoint ''/api/agent/context'' [''GET'']
        ''Coding agent bootstrap context with URLs, scenarios, docs, and recommended checks.'',
      schema_endpoint ''/api/config/schema'' [''GET'']
        ''Versioned configuration contract.'',
      schema_endpoint ''/api/clock'' [''GET'']
        ''Current deterministic lab clock for EPG generation.'',
      schema_endpoint ''/api/schema'' [''GET'']
        ''Versioned lab API contract.'',
      schema_endpoint ''/api/status'' [''GET'']
        ''Full lab status.'',
      schema_endpoint ''/api/topology'' [''GET'']
        ''Deterministic multi-device topology fixture for client tests.'',
      schema_endpoint ''/api/catalog'' [''GET'']
        ''Mux and service catalog.'',
      schema_endpoint ''/api/muxes'' [''GET'']
        ''Mux catalog entries.'',
      schema_endpoint ''/api/services'' [''GET'']
        ''Service catalog entries.'',
      schema_endpoint ''/api/tuners'' [''GET'']
        ''Simulated tuner state.'',
      schema_endpoint ''/api/sessions'' [''GET'']
        ''Active RTSP lab sessions.'',
      schema_endpoint ''/api/playback/diagnostics'' [''GET'']
        ''Per-session playback diagnostics summary.'',
      schema_endpoint ''/api/events'' [''GET'']
        ''Recent lab events.'',
      schema_endpoint ''/api/scenario'' [''GET'', ''POST'']
        ''Runtime scenario state and switching.'',
      schema_endpoint ''/api/reset'' [''POST'']
        ''Reset lab sessions and tuner state.'',
      schema_endpoint ''/epg/xmltv.xml'' [''GET'']
        ''Deterministic XMLTV EPG for the lab catalog.'']"

definition schema_models :: "api_model list" where
  "schema_models = map (\<lambda>(name, fields). \<lparr>amName = name, amFields = fields\<rparr>)
     [(''agent_context'',
       [''version'', ''urls'', ''test_env'', ''catalog'', ''features'', ''runtime'', ''compatibility'',
        ''scenarios'', ''docs'', ''recommended_checks'']),
      (''clock'',
       [''mode'', ''now'', ''tz'']),
      (''catalog'',
       [''muxes'', ''services'']),
      (''status'',
       [''tuners'', ''sessions'', ''events'', ''hardware'']),
      (''hardware_status'',
       [''lab_only'', ''started_at'', ''uptime_ms'', ''identity'', ''streams'', ''tuners'', ''network'']),
      (''hardware_identity'',
       [''friendly_name'', ''manufacturer'', ''model'', ''model_number'', ''profile'', ''firmware'']),
      (''hardware_streams'',
       [''active'', ''playing'', ''setup'', ''paused'']),
      (''hardware_tuners'',
       [''total'', ''in_use'', ''idle'']),
      (''hardware_network'',
       [''http_port'', ''rtsp_port'', ''ssdp_port'', ''rtsp_sessions'', ''rtp_streams'',
        ''frontend_locks'', ''recent_events'']),
      (''topology'',
       [''devices'']),
      (''topology_device'',
       [''id'', ''friendly_name'', ''profile'', ''public_host'', ''http_port'', ''rtsp_port'', ''tuners'',
        ''location'', ''stale_location'', ''description_path'']),
      (''tuner'',
       [''id'', ''state'', ''mux_id'', ''sessions'', ''frontend'']),
      (''frontend'',
       [''state'', ''signal_strength'', ''snr_db'', ''ber'', ''per'', ''lock_ms'', ''last_lock_change'']),
      (''session'',
       [''id'', ''state'', ''tuner_id'', ''service_id'', ''service'', ''mux_id'', ''pids'', ''pids_all'',
        ''client'', ''created_at'', ''updated_at'', ''rtsp_setup_accepted_at'',
        ''rtsp_play_accepted_at'', ''first_rtp_sent_at'', ''last_rtp_sent_at'',
        ''rtp_packet_count'', ''rtp_byte_count'', ''rtp_transport'', ''rtp_destination'']),
      (''playback_diagnostic'',
       [''session_id'', ''service_id'', ''scenario'', ''rtp_transport'', ''rtp_destination'',
        ''rtp_port'', ''rtcp_port'', ''rtp_channel'', ''rtcp_channel'', ''first_rtp_sent_at'',
        ''rtp_packet_count'', ''rtp_byte_count'', ''packet_rate'', ''continuity_errors'',
        ''continuity_error_count'', ''malformed_psi'', ''delayed_psi'', ''delayed_keyframe'',
        ''intentional_impairments'']),
      (''event'',
       [''at'', ''type'', ''session_id'', ''tuner_id'', ''service_id'', ''mux_id'', ''message'']),
      (''scenario'',
       [''name'', ''description'', ''service_id'', ''mux_id'', ''duration_min'', ''timeline'']),
      (''scenario_timeline'',
       [''active'', ''step_index'', ''elapsed_ms'', ''steps'']),
      (''scenario_timeline_step'',
       [''at_ms'', ''name'', ''service_id'', ''mux_id'', ''duration_min'']),
      (''mux'',
       [''id'', ''src'', ''freq'', ''pol'', ''sr'', ''msys'']),
      (''service'',
       [''id'', ''number'', ''name'', ''group'', ''tvg_id'', ''mux_id'', ''service_id'', ''pmt_pid'',
        ''video_pid'', ''audio_pid''])]"

definition APISchema :: api_schema where
  "APISchema = \<lparr>asVersion = APISchemaVersion, asEndpoints = schema_endpoints, asModels = schema_models\<rparr>"

end
