(* ===== verification/AgentContext.thy ===== *)
theory AgentContext
  imports ApiSchema Config ManagerInv TsSource
begin

text \<open>
  The bootstrap document for coding agents (\<open>internal/httpserver/agent_context.go\<close>). JSON maps are
  association lists in the order of the source; encoding them is the caller's.
\<close>

record agent_urls =
  auHTTPBaseURL :: string
  auRTSPBaseURL :: string
  auDeviceXML :: string
  auM3U :: string
  auXMLTV :: string
  auClock :: string
  auSchema :: string
  auConfigSchema :: string
  auStatus :: string
  auTopology :: string
  auPlayback :: string

record agent_catalog =
  acServiceCount :: nat
  acMuxCount :: nat
  acSource :: string
  acCatalogPath :: string
  acFixturePath :: string
  acSampleService :: string
  acSampleRTSP :: string

record agent_runtime =
  arTuners :: nat
  arScenario :: string
  arProfile :: string
  arReadinessPath :: string
  arResetPath :: string
  arScenarioPath :: string

record agent_compat =
  agActiveProfile :: string
  agAvailableProfiles :: "string list"
  agCorpusPath :: string

record agent_scenario =
  anName :: string
  anDescription :: string
  anSupportsTarget :: bool
  anClientExpectationHint :: string

record agent_context =
  ctxVersion :: string
  ctxURLs :: agent_urls
  ctxTestEnv :: "(string \<times> string) list"
  ctxCatalog :: agent_catalog
  ctxFeatures :: "(string \<times> bool) list"
  ctxRuntime :: agent_runtime
  ctxCompatibility :: agent_compat
  ctxScenarios :: "agent_scenario list"
  ctxDocs :: "(string \<times> string) list"
  ctxRecommendedChecks :: "string list"

definition AgentContextVersion :: string where "AgentContextVersion = ''1.0''"

definition expectation_hints :: "(string \<times> string) list" where
  "expectation_hints =
     [(ScenarioTunerBusy,
       ''Valid RTSP SETUP returns 503 Service Unavailable with Reason: tuner busy; no tuner or ''
       @ ''session is allocated.''),
      (ScenarioTunerWedged,
       ''Valid RTSP SETUP returns 503 Service Unavailable with Reason: tuner wedged until POST ''
       @ ''/api/reset clears the wedged fault.''),
      (ScenarioColdBoot,
       ''RTSP responses are delayed by 750 ms to mimic deterministic cold-boot startup latency.''),
      (ScenarioRTPStop,
       ''RTSP SETUP and PLAY return 200, then exactly 3 RTP packets are sent before packet delivery ''
       @ ''stops without TEARDOWN.''),
      (ScenarioRTPBlackhole,
       ''RTSP SETUP and PLAY return 200 and the RTSP session remains alive, but all RTP packets are ''
       @ ''dropped.''),
      (ScenarioDelayedPSI,
       ''RTSP SETUP and PLAY return 200, then the initial RTP packets carrying startup PAT/PMT ''
       @ ''evidence are delayed before normal RTP resumes.''),
      (ScenarioRTPLoss,
       ''RTSP SETUP and PLAY return 200, then every third RTP packet is dropped; clients should ''
       @ ''report loss or recover without session setup failure.''),
      (ScenarioRTPJitter,
       ''RTSP SETUP and PLAY return 200, then every third RTP packet is delayed by 40 ms; clients ''
       @ ''should show buffering or timing tolerance without treating SETUP as failed.''),
      (ScenarioContinuityErrors,
       ''RTP packet framing remains valid, but MPEG-TS continuity counters are corrupted; clients ''
       @ ''should surface TS continuity errors or recover at the demux layer.''),
      (ScenarioMalformedPSI,
       ''RTP and MPEG-TS packet framing remain valid, but PAT/PMT headers are corrupted; clients ''
       @ ''should surface PSI/parser evidence rather than transport failure.''),
      (ScenarioSignalDegraded,
       ''RTSP SETUP and PLAY still succeed, while /api/tuners reports frontend.state=degraded and ''
       @ ''RTCP APP SES1 reports tuner level=42, lock=1 with deterministic signal/SNR degradation.''),
      (ScenarioLockLoss,
       ''RTSP SETUP and PLAY still succeed, while /api/tuners reports frontend.state=lost and RTCP ''
       @ ''APP SES1 reports tuner level=0, lock=0 for lock-loss UI and retry handling.''),
      (ScenarioSignalRecovery,
       ''RTSP SETUP and PLAY still succeed, while /api/tuners reports frontend.state=recovering and ''
       @ ''RTCP APP SES1 exposes recovering tuner status before returning to locked after the ''
       @ ''deterministic lock window.''),
      (ScenarioSlowLock,
       ''RTSP SETUP and PLAY still succeed, while /api/tuners reports frontend.state=tuning with ''
       @ ''lock_ms=1200 and RTCP APP SES1 reports lock=0 for slow-lock UI and timeout tolerance tests.'')]"

definition scenarioExpectationHint :: "string \<Rightarrow> string" where
  "scenarioExpectationHint name = (case map_of expectation_hints name of Some hint \<Rightarrow> hint | None \<Rightarrow> [])"

definition buildAgentScenarios :: "agent_scenario list" where
  "buildAgentScenarios = map (\<lambda>sc. \<lparr>anName = scName sc, anDescription = scDescription sc,
     anSupportsTarget = SupportsTarget sc, anClientExpectationHint = scenarioExpectationHint (scName sc)\<rparr>)
     SupportedScenarios"

definition agentDocs :: "(string \<times> string) list" where
  "agentDocs =
     [(''Agent guide'', ''docs/agents/README.md''),
      (''Codex instructions'', ''docs/agents/codex.md''),
      (''Claude instructions'', ''docs/agents/claude.md''),
      (''Cursor instructions'', ''docs/agents/cursor.md''),
      (''Gemini instructions'', ''docs/agents/gemini.md''),
      (''Agent playbook'', ''docs/agent-playbook.md''),
      (''Catalogs'', ''docs/catalog.md''),
      (''Compatibility corpus'', ''docs/compatibility/servers.md''),
      (''Cross-implementation validation'', ''docs/compatibility/cross-implementation.md''),
      (''Supported profile'', ''docs/supported-profile.md''),
      (''CI integration'', ''docs/ci-integration.md'')]"

definition recommendedAgentChecks :: "string list" where
  "recommendedAgentChecks =
     [''Start implementation work on a codex/ branch; do not work directly on main.'',
      ''Poll /api/agent/context or /desc.xml before client tests.'',
      ''Use SATIP_TEST_HTTP_URL and SATIP_TEST_RTSP_URL instead of hard-coded ports.'',
      ''Call POST /api/reset between independent integration tests.'',
      ''Use POST /api/scenario to exercise failure handling, then restore normal.'',
      ''Assert M3U, XMLTV, EIT p/f, RTSP setup, PLAY, and RTP behavior separately.'',
      ''Build and smoke-test the container before PRs that change runtime behavior, Docker, CI, ''
      @ ''media generation, or advertised lab contracts.'',
      ''Open a PR with verification evidence and client-facing compatibility notes.'',
      ''Request or spawn a PR review pass before merge and address confirmed review issues.'',
      ''Re-run relevant tests after review fixes; rebuild and smoke-test the container again when ''
      @ ''the container path was required.'',
      ''Publish containers and merge only with explicit maintainer approval or through the release ''
      @ ''workflow.'',
      ''Update docs/agents and /api/agent/context whenever new lab capabilities, config, scenarios, ''
      @ ''or companion tools are added.'']"

definition agent_features :: "(string \<times> bool) list" where
  "agent_features = map (\<lambda>name. (name, True))
     [''custom_catalogs'', ''compatibility_evidence'', ''compatibility_profiles'', ''dvb_si_basics'',
      ''xmltv_epg'', ''eit_present_following'', ''frontend_lifecycle'', ''frontend_telemetry'',
      ''hardware_status'', ''multi_server_topology'', ''monotonic_media_timing'',
      ''per_service_media'', ''playback_diagnostics'', ''playback_observability'',
      ''rtcp_app_status'', ''rtsp_interleaved_tcp'', ''rtsp_rtp_smoke'', ''runtime_scenarios'',
      ''scenario_timelines'']"

text \<open>The channel that serves as the sample: ZDF HD when its bundled media is in use and it is there, else the
  first one.\<close>

definition sample_channel :: "config \<Rightarrow> channel list \<Rightarrow> channel option" where
  "sample_channel cfg chs =
     (case chs of
        [] \<Rightarrow> None
      | ch # _ \<Rightarrow>
          if cfgSampleProfile cfg = SampleProfileH264AACShort \<or> cfgSampleProfile cfg = SampleProfileH264Silent
          then (case find (\<lambda>candidate. chID candidate = ''zdf-hd'') chs of Some c \<Rightarrow> Some c | None \<Rightarrow> Some ch)
          else Some ch)"

text \<open>\<open>order\<close> gives the order in which \<open>Status\<close> ranges over the session map.\<close>

definition buildAgentContext ::
  "config \<Rightarrow> ((string \<rightharpoonup> session) \<Rightarrow> string list) \<Rightarrow> manager \<Rightarrow> agent_context \<times> manager" where
  "buildAgentContext cfg order m =
     (let httpBaseURL = HTTPBaseURL cfg;
          rtspBaseURL = ''rtsp://'' @ cfgPublicHost cfg @ '':'' @ itoa (EffectivePublicRTSPPort cfg) @ ''/'';
          cat = mCatalog m;
          (status, m) = Status (order (mSessions m)) m;
          (sampleName, sampleRTSP) =
            (case sample_channel cfg (Catalog_Channels cat) of
               None \<Rightarrow> ([], [])
             | Some ch \<Rightarrow> (chName ch, rtspBaseURL @ ''?'' @ TuningQuery ch));
          catalogSource = (if cfgCatalogPath cfg \<noteq> [] then ''yaml'' else ''built_in'');
          (sc, m) = Scenario m
      in (\<lparr>ctxVersion = AgentContextVersion,
           ctxURLs = \<lparr>auHTTPBaseURL = httpBaseURL, auRTSPBaseURL = rtspBaseURL,
             auDeviceXML = DeviceDescriptionURL cfg, auM3U = M3UURL cfg,
             auXMLTV = httpBaseURL @ ''/epg/xmltv.xml'', auClock = httpBaseURL @ ''/api/clock'',
             auSchema = httpBaseURL @ ''/api/schema'', auConfigSchema = httpBaseURL @ ''/api/config/schema'',
             auStatus = httpBaseURL @ ''/api/status'', auTopology = httpBaseURL @ ''/api/topology'',
             auPlayback = httpBaseURL @ ''/api/playback/diagnostics''\<rparr>,
           ctxTestEnv = [(''SATIP_TEST_HTTP_URL'', httpBaseURL), (''SATIP_TEST_RTSP_URL'', rtspBaseURL)],
           ctxCatalog = \<lparr>acServiceCount = length (catServices cat), acMuxCount = length (catMuxes cat),
             acSource = catalogSource, acCatalogPath = cfgCatalogPath cfg,
             acFixturePath = ''fixtures/astra-19.2e-dach.yaml'', acSampleService = sampleName,
             acSampleRTSP = sampleRTSP\<rparr>,
           ctxFeatures = agent_features,
           ctxRuntime = \<lparr>arTuners = length (statTuners status), arScenario = scName sc,
             arProfile = profName (CompatibilityProfile cfg), arReadinessPath = ''/api/agent/context'',
             arResetPath = ''/api/reset'', arScenarioPath = ''/api/scenario''\<rparr>,
           ctxCompatibility = \<lparr>agActiveProfile = profName (CompatibilityProfile cfg),
             agAvailableProfiles = Names, agCorpusPath = ''docs/compatibility/servers.md''\<rparr>,
           ctxScenarios = buildAgentScenarios, ctxDocs = agentDocs,
           ctxRecommendedChecks = recommendedAgentChecks\<rparr>, m))"

end
