(* ===== verification/Topology.thy ===== *)
theory Topology
  imports Config
begin

text \<open>
  The topology of devices that the HTTP API publishes (\<open>internal/topology/topology.go\<close>,
  \<open>internal/httpserver/topology.go\<close>). \<open>NormalizeAndValidate\<close> works on the document in place, so it returns
  the document as it leaves it together with its error. Decoding YAML is a parameter.
\<close>

section \<open>Documents\<close>

record device =
  dvcID :: string
  dvcFriendlyName :: string
  dvcProfile :: string
  dvcPublicHost :: string
  dvcHTTPPort :: int
  dvcRTSPPort :: int
  dvcTuners :: int
  dvcLocation :: string
  dvcStaleLocation :: bool
  dvcDescriptionPath :: string

record document =
  docDevices :: "device list"

datatype topology_error =
    NoDevices
  | IDRequired nat
  | DuplicateID string
  | UnknownProfile nat string
  | HostRequired nat
  | HTTPPortNotPositive nat
  | RTSPPortNotPositive nat
  | TunersNotPositive nat

definition profileByName :: "string \<Rightarrow> profile option" where
  "profileByName name =
     (let normalized = to_lower (trim_space name)
      in map_option ForName (find (\<lambda>candidate. candidate = normalized) Names))"

definition normalize_device :: "string list \<Rightarrow> nat \<Rightarrow> device \<Rightarrow> device \<times> topology_error option" where
  "normalize_device seen i d =
     (let d = d\<lparr>dvcID := trim_space (dvcID d)\<rparr>
      in if dvcID d = [] then (d, Some (IDRequired i))
         else if dvcID d \<in> set seen then (d, Some (DuplicateID (dvcID d)))
         else
           let d = d\<lparr>dvcProfile := trim_space (dvcProfile d)\<rparr>;
               d = (if dvcProfile d = [] then d\<lparr>dvcProfile := NameGeneric\<rparr> else d)
           in case profileByName (dvcProfile d) of
                None \<Rightarrow> (d, Some (UnknownProfile i (dvcProfile d)))
              | Some p \<Rightarrow>
                  let d = d\<lparr>dvcProfile := profName p\<rparr>;
                      d = d\<lparr>dvcFriendlyName := trim_space (dvcFriendlyName d)\<rparr>;
                      d = (if dvcFriendlyName d = [] then d\<lparr>dvcFriendlyName := devFriendlyName (profDevice p)\<rparr> else d);
                      d = d\<lparr>dvcPublicHost := trim_space (dvcPublicHost d)\<rparr>
                  in if dvcPublicHost d = [] then (d, Some (HostRequired i))
                     else if dvcHTTPPort d \<le> 0 then (d, Some (HTTPPortNotPositive i))
                     else if dvcRTSPPort d \<le> 0 then (d, Some (RTSPPortNotPositive i))
                     else if dvcTuners d \<le> 0 then (d, Some (TunersNotPositive i))
                     else
                       let d = d\<lparr>dvcDescriptionPath := devDescriptionPath (profDevice p)\<rparr>
                       in (if trim_space (dvcLocation d) = []
                           then d\<lparr>dvcLocation := ''http://'' @ dvcPublicHost d @ '':'' @ itoa (dvcHTTPPort d)
                                  @ dvcDescriptionPath d\<rparr>
                           else d, None))"

fun normalize_devices :: "string list \<Rightarrow> nat \<Rightarrow> device list \<Rightarrow> device list \<times> topology_error option" where
  "normalize_devices seen i [] = ([], None)"
| "normalize_devices seen i (d # ds) =
     (case normalize_device seen i d of
        (d', Some e) \<Rightarrow> (d' # ds, Some e)
      | (d', None) \<Rightarrow>
          (case normalize_devices (dvcID d' # seen) (Suc i) ds of (ds', e) \<Rightarrow> (d' # ds', e)))"

definition NormalizeAndValidate :: "document \<Rightarrow> document \<times> topology_error option" where
  "NormalizeAndValidate doc =
     (if docDevices doc = [] then (doc, Some NoDevices)
      else case normalize_devices [] 0 (docDevices doc) of (ds, e) \<Rightarrow> (doc\<lparr>docDevices := ds\<rparr>, e))"

datatype 'e load_failure = Unreadable 'e | InvalidTopology string topology_error

definition LoadFile :: "(string \<Rightarrow> 'e + 'b) \<Rightarrow> ('b \<Rightarrow> 'e + document) \<Rightarrow> string \<Rightarrow> 'e load_failure + document" where
  "LoadFile read unmarshal path =
     (case read path of
        Inl e \<Rightarrow> Inl (Unreadable e)
      | Inr raw \<Rightarrow>
          (case unmarshal raw of
             Inl e \<Rightarrow> Inl (Unreadable e)
           | Inr doc \<Rightarrow>
               (case NormalizeAndValidate doc of
                  (_, Some e) \<Rightarrow> Inl (InvalidTopology path e)
                | (doc, None) \<Rightarrow> Inr doc)))"

definition topologyDocument :: "config \<Rightarrow> document" where
  "topologyDocument cfg =
     (let p = CompatibilityProfile cfg;
          publicHost = (if cfgPublicHost cfg = [] then ''127.0.0.1'' else cfgPublicHost cfg);
          httpPort = (if EffectivePublicHTTPPort cfg = 0 then 8875 else EffectivePublicHTTPPort cfg);
          rtspPort = (if EffectivePublicRTSPPort cfg = 0 then 554 else EffectivePublicRTSPPort cfg);
          tuners = (if cfgTunerCount cfg = 0 then 2 else cfgTunerCount cfg)
      in fst (NormalizeAndValidate \<lparr>docDevices =
           [\<lparr>dvcID = ''default'', dvcFriendlyName = devFriendlyName (profDevice p), dvcProfile = profName p,
             dvcPublicHost = publicHost, dvcHTTPPort = httpPort, dvcRTSPPort = rtspPort, dvcTuners = tuners,
             dvcLocation = [], dvcStaleLocation = False, dvcDescriptionPath = []\<rparr>]\<rparr>))"

definition DefaultTopology :: "config \<Rightarrow> document" where
  "DefaultTopology cfg = topologyDocument cfg"

end
