(* ===== verification/Ssdp.thy ===== *)
theory Ssdp
  imports Config
begin

text \<open>
  Discovery (\<open>internal/ssdp/server.go\<close>): which datagrams are searches for a SAT>IP server, the answer and
  the periodic announcement; and the device description they point to (\<open>BuildDeviceDescriptionXML\<close> of
  \<open>internal/channels/catalog.go\<close>). \<open>strings.ToUpper\<close> is modelled on ASCII text. The server's
  goroutines are in \<open>SsdpLoops\<close>.
\<close>

section \<open>Library functions\<close>

definition upper_char :: "char \<Rightarrow> char" where
  "upper_char c = (let n = of_char c :: nat in if 97 \<le> n \<and> n \<le> 122 then char_of (n - 32) else c)"

definition to_upper :: "string \<Rightarrow> string" where
  "to_upper s = map upper_char s"

text \<open>\<open>html.EscapeString\<close>.\<close>

definition escape_char :: "char \<Rightarrow> string" where
  "escape_char c =
     (if c = CHR ''<'' then ''&lt;'' else if c = CHR ''>'' then ''&gt;'' else if c = CHR ''&'' then ''&amp;''
      else if c = CHR 0x27 then ''&#39;'' else if c = CHR 0x22 then ''&#34;'' else [c])"

definition xmlEscape :: "string \<Rightarrow> string" where
  "xmlEscape s = concat (map escape_char s)"

section \<open>Messages\<close>

definition isSatIPSearch :: "string \<Rightarrow> bool" where
  "isSatIPSearch payload =
     (let upper = to_upper payload
      in if \<not> contains_str ''M-SEARCH'' upper then False
         else contains_str (to_upper SatIPSearchTarget) upper \<or> contains_str ''SES-COM:DEVICE:SATIPSERVER'' upper)"

definition message_lines :: "string list \<Rightarrow> string" where
  "message_lines ls = join [CHR 0x0D, CHR 0x0A] (ls @ [[], []])"

definition searchResponse :: "config \<Rightarrow> string" where
  "searchResponse cfg =
     (let p = CompatibilityProfile cfg
      in message_lines
        [''HTTP/1.1 200 OK'', ''CACHE-CONTROL: max-age=1800'', ''EXT:'',
         ''LOCATION: '' @ DeviceDescriptionURL cfg, ''CONFIGID.UPNP.ORG: 1'',
         ''SERVER: '' @ ssdpServer (profSSDP p), ''ST: '' @ ssdpST (profSSDP p), ''USN: '' @ ssdpUSN (profSSDP p)])"

definition notifyMessage :: "config \<Rightarrow> string" where
  "notifyMessage cfg =
     (let p = CompatibilityProfile cfg
      in message_lines
        [''NOTIFY * HTTP/1.1'', ''HOST: 239.255.255.250:1900'', ''CACHE-CONTROL: max-age=1800'',
         ''LOCATION: '' @ DeviceDescriptionURL cfg, ''CONFIGID.UPNP.ORG: 1'',
         ''NT: '' @ ssdpST (profSSDP p), ''NTS: ssdp:alive'', ''SERVER: '' @ ssdpServer (profSSDP p),
         ''USN: '' @ ssdpUSN (profSSDP p)])"

text \<open>A turn of \<open>readLoop\<close> that has received a datagram: what is sent back to its sender. The buffer holds
  4096 bytes.\<close>

definition read_turn :: "config \<Rightarrow> string \<Rightarrow> string option" where
  "read_turn cfg datagram =
     (if isSatIPSearch (take 4096 datagram) then Some (searchResponse cfg) else None)"

section \<open>The device description\<close>

definition BuildDeviceDescriptionXML :: "string \<Rightarrow> int \<Rightarrow> profile \<Rightarrow> string" where
  "BuildDeviceDescriptionXML locationURL tunerCount p =
     (let tunerCount = (if tunerCount \<le> 0 then 1 else tunerCount);
          device = profDevice p;
          device = (if devFriendlyName device = [] then profDevice (ForName NameGeneric) else device);
          nl = [CHR 0x0A];
          modelNumber = (if trim_space (devModelNumber device) \<noteq> []
            then ''    <modelNumber>'' @ xmlEscape (devModelNumber device) @ ''</modelNumber>'' @ nl else [])
      in ''<?xml version=\"1.0\"?>'' @ nl
       @ ''<root xmlns=\"urn:schemas-upnp-org:device-1-0\" xmlns:satip=\"urn:ses-com:satip\" configId=\"1\">'' @ nl
       @ ''  <specVersion>'' @ nl @ ''    <major>1</major>'' @ nl @ ''    <minor>0</minor>'' @ nl
       @ ''  </specVersion>'' @ nl
       @ ''  <device>'' @ nl
       @ ''    <deviceType>urn:ses-com:device:SatIPServer:1</deviceType>'' @ nl
       @ ''    <friendlyName>'' @ xmlEscape (devFriendlyName device) @ ''</friendlyName>'' @ nl
       @ ''    <manufacturer>'' @ xmlEscape (devManufacturer device) @ ''</manufacturer>'' @ nl
       @ ''    <modelName>'' @ xmlEscape (devModelName device) @ ''</modelName>'' @ nl
       @ modelNumber
       @ ''    <UDN>'' @ xmlEscape (devUDN device) @ ''</UDN>'' @ nl
       @ ''    <presentationURL>'' @ xmlEscape locationURL @ ''</presentationURL>'' @ nl
       @ ''    <satip:X_SATIPCAP>DVBS2-'' @ itoa tunerCount @ ''</satip:X_SATIPCAP>'' @ nl
       @ ''    <satip:X_SATIPM3U>'' @ xmlEscape (devXSatipM3U device) @ ''</satip:X_SATIPM3U>'' @ nl
       @ ''  </device>'' @ nl @ ''</root>'' @ nl)"

end
