(* ===== verification/Json.thy ===== *)
theory Json
  imports GoLib
begin

text \<open>
  JSON as \<open>encoding/json\<close> reads it. A body is the value that it starts with and what follows it; reading
  the text of a value is not modelled. Decoding into a record is: field names match exactly or else
  without regard to case (on ASCII names), a field repeated overwrites, \<open>null\<close> leaves a string alone and
  empties a pointer or a slice, unknown fields are ignored or, with \<open>DisallowUnknownFields\<close>, an error; the
  first error is reported and decoding goes on.
\<close>

section \<open>Values\<close>

datatype json =
    JNull | JBool bool | JNumber string | JString string | JArray "json list" | JObject "(string \<times> json) list"

text \<open>What follows the first value of a body, after space: nothing, a closing bracket (for which
  \<open>Decoder.More\<close> is false), or anything else.\<close>

datatype json_rest = AtEnd | Closing | Following

record json_body =
  jbValue :: "json option"
  jbRest :: json_rest

definition has_more :: "json_rest \<Rightarrow> bool" where
  "has_more rest \<longleftrightarrow> rest = Following"

text \<open>\<open>json.Unmarshal\<close> of the whole body.\<close>

definition unmarshal :: "json_body \<Rightarrow> json option" where
  "unmarshal body = (if jbRest body = AtEnd then jbValue body else None)"

text \<open>A member of an object read as a map: the last one of a name counts.\<close>

definition member :: "(string \<times> json) list \<Rightarrow> string \<Rightarrow> json option" where
  "member fs name = map_of (rev fs) name"

section \<open>Decoding\<close>

datatype json_error = UnknownField string | WrongType string

type_synonym 'a decoded = "'a \<times> json_error option"

definition decode_string :: "string \<Rightarrow> json \<Rightarrow> string \<Rightarrow> string decoded" where
  "decode_string name v old =
     (case v of JString s \<Rightarrow> (s, None) | JNull \<Rightarrow> (old, None) | _ \<Rightarrow> (old, Some (WrongType name)))"

definition decode_bool :: "string \<Rightarrow> json \<Rightarrow> bool option \<Rightarrow> bool option decoded" where
  "decode_bool name v old =
     (case v of JBool b \<Rightarrow> (Some b, None) | JNull \<Rightarrow> (None, None) | _ \<Rightarrow> (old, Some (WrongType name)))"

definition first_error :: "json_error option \<Rightarrow> json_error option \<Rightarrow> json_error option" where
  "first_error e e' = (case e of None \<Rightarrow> e' | Some x \<Rightarrow> Some x)"

text \<open>A number is decoded into an integer when its text is one.\<close>

definition decode_int :: "string \<Rightarrow> json \<Rightarrow> int \<Rightarrow> int decoded" where
  "decode_int name v old =
     (case v of
        JNumber t \<Rightarrow> (case atoi t of Some i \<Rightarrow> (i, None) | None \<Rightarrow> (old, Some (WrongType name)))
      | JNull \<Rightarrow> (old, None)
      | _ \<Rightarrow> (old, Some (WrongType name)))"

text \<open>An element of a slice is decoded over the one that was there before, or else over a zero value.\<close>

fun decode_items :: "(json \<Rightarrow> 'b \<Rightarrow> 'b decoded) \<Rightarrow> 'b \<Rightarrow> json list \<Rightarrow> 'b list \<Rightarrow> 'b list decoded" where
  "decode_items decode zero [] old = ([], None)"
| "decode_items decode zero (v # vs) old =
     (case decode v (case old of [] \<Rightarrow> zero | x # _ \<Rightarrow> x) of
        (y, e) \<Rightarrow> (case decode_items decode zero vs (tl old) of (ys, e') \<Rightarrow> (y # ys, first_error e e')))"

definition decode_slice :: "(json \<Rightarrow> 'b \<Rightarrow> 'b decoded) \<Rightarrow> 'b \<Rightarrow> string \<Rightarrow> json \<Rightarrow> 'b list \<Rightarrow> 'b list decoded" where
  "decode_slice decode zero name v old =
     (case v of
        JArray vs \<Rightarrow> decode_items decode zero vs old
      | JNull \<Rightarrow> ([], None)
      | _ \<Rightarrow> (old, Some (WrongType name)))"

definition decode_strings :: "string \<Rightarrow> json \<Rightarrow> string list \<Rightarrow> string list decoded" where
  "decode_strings name = decode_slice (decode_string name) [] name"

text \<open>An object is decoded member by member with the decoder of its field, if it has one.\<close>

type_synonym 'a field = "string \<times> (json \<Rightarrow> 'a \<Rightarrow> 'a decoded)"

definition find_field :: "'a field list \<Rightarrow> string \<Rightarrow> 'a field option" where
  "find_field fs name =
     (case find (\<lambda>(n, _). n = name) fs of
        Some f \<Rightarrow> Some f
      | None \<Rightarrow> find (\<lambda>(n, _). equal_fold n name) fs)"

fun decode_members :: "bool \<Rightarrow> 'a field list \<Rightarrow> (string \<times> json) list \<Rightarrow> 'a \<Rightarrow> 'a decoded" where
  "decode_members strict fs [] x = (x, None)"
| "decode_members strict fs ((name, v) # ms) x =
     (case (case find_field fs name of None \<Rightarrow> (x, if strict then Some (UnknownField name) else None)
        | Some (_, decode) \<Rightarrow> decode v x) of
        (x, e) \<Rightarrow> (case decode_members strict fs ms x of (x, e') \<Rightarrow> (x, first_error e e')))"

definition decode_object :: "bool \<Rightarrow> string \<Rightarrow> 'a field list \<Rightarrow> json \<Rightarrow> 'a \<Rightarrow> 'a decoded" where
  "decode_object strict name fs v x =
     (case v of JObject ms \<Rightarrow> decode_members strict fs ms x | JNull \<Rightarrow> (x, None) | _ \<Rightarrow> (x, Some (WrongType name)))"

text \<open>A field of a record with the decoder of its type.\<close>

definition field_of :: "string \<Rightarrow> (string \<Rightarrow> json \<Rightarrow> 'b \<Rightarrow> 'b decoded) \<Rightarrow> ('a \<Rightarrow> 'b) \<Rightarrow> (('b \<Rightarrow> 'b) \<Rightarrow> 'a \<Rightarrow> 'a) \<Rightarrow> 'a field" where
  "field_of name decode get upd =
     (name, \<lambda>v x. case decode name v (get x) of (y, e) \<Rightarrow> (upd (\<lambda>_. y) x, e))"

end
