(* ===== verification/Xmltv.thy ===== *)
theory Xmltv
  imports Epg DemoLab
begin

text \<open>
  The guide as text: what \<open>encoding/xml\<close> writes for the \<open>tv\<close> document of \<open>internal/epg/epg.go\<close>, and a
  reference reader of such text. Attributes and character data are escaped rune by rune, bytes that are
  not UTF-8 and runes that XML does not allow being replaced; child elements stand on lines of their own.
\<close>

section \<open>Runes\<close>

definition byte_in :: "nat \<Rightarrow> nat \<Rightarrow> char \<Rightarrow> bool" where
  "byte_in lo hi c \<longleftrightarrow> lo \<le> of_char c \<and> of_char c \<le> hi"

text \<open>By its first byte, the number of bytes that follow in the rune and the range of the second byte.\<close>

definition rune_shape :: "char \<Rightarrow> (nat \<times> nat \<times> nat) option" where
  "rune_shape c =
     (if byte_in 0x00 0x7F c then Some (0, 0, 0)
      else if byte_in 0xC2 0xDF c then Some (1, 0x80, 0xBF)
      else if c = CHR 0xE0 then Some (2, 0xA0, 0xBF)
      else if c = CHR 0xED then Some (2, 0x80, 0x9F)
      else if byte_in 0xE1 0xEF c then Some (2, 0x80, 0xBF)
      else if c = CHR 0xF0 then Some (3, 0x90, 0xBF)
      else if c = CHR 0xF4 then Some (3, 0x80, 0x8F)
      else if byte_in 0xF1 0xF3 c then Some (3, 0x80, 0xBF)
      else None)"

text \<open>\<open>utf8.DecodeRune\<close>: the bytes of the first rune, or \<open>None\<close> for an encoding error, which is one
  byte wide.\<close>

definition decode_rune :: "string \<Rightarrow> string option" where
  "decode_rune s =
     (case s of
        [] \<Rightarrow> None
      | c # cs \<Rightarrow>
          (case rune_shape c of
             None \<Rightarrow> None
           | Some (n, lo, hi) \<Rightarrow>
               let t = take n cs in
               if length t = n \<and> (n = 0 \<or> byte_in lo hi (hd t)) \<and> list_all (byte_in 0x80 0xBF) t
               then Some (c # t) else None))"

text \<open>\<open>isInCharacterRange\<close>, on the bytes of a rune.\<close>

definition xml_char :: "string \<Rightarrow> bool" where
  "xml_char r =
     (case r of
        [c] \<Rightarrow> c = CHR 0x09 \<or> c = CHR 0x0A \<or> c = CHR 0x0D \<or> of_char c \<ge> (0x20 :: nat)
      | _ \<Rightarrow> r \<noteq> [CHR 0xEF, CHR 0xBF, CHR 0xBE] \<and> r \<noteq> [CHR 0xEF, CHR 0xBF, CHR 0xBF])"

definition replacement :: string where "replacement = [CHR 0xEF, CHR 0xBF, CHR 0xBD]"

function xml_runes :: "string \<Rightarrow> string list" where
  "xml_runes [] = []"
| "xml_runes (c # cs) =
     (case decode_rune (c # cs) of
        None \<Rightarrow> replacement # xml_runes cs
      | Some r \<Rightarrow> (if xml_char r then r else replacement) # xml_runes (drop (length r - 1) cs))"
  by pat_completeness auto
termination by (relation "measure length") simp_all

text \<open>What a text is read back as.\<close>

definition xml_valid :: "string \<Rightarrow> string" where
  "xml_valid s = concat (xml_runes s)"

section \<open>Writing\<close>

definition escape_rune :: "string \<Rightarrow> string" where
  "escape_rune r =
     (if r = [CHR 0x22] then ''&#34;'' else if r = [CHR 0x27] then ''&#39;''
      else if r = ''&'' then ''&amp;'' else if r = ''<'' then ''&lt;'' else if r = ''>'' then ''&gt;''
      else if r = [CHR 0x09] then ''&#x9;'' else if r = [CHR 0x0A] then ''&#xA;''
      else if r = [CHR 0x0D] then ''&#xD;'' else r)"

definition EscapeText :: "string \<Rightarrow> string" where
  "EscapeText s = concat (map escape_rune (xml_runes s))"

datatype xml = Element string "(string \<times> string) list" "xml list" | CharData string

definition is_element :: "xml \<Rightarrow> bool" where
  "is_element x = (case x of Element _ _ _ \<Rightarrow> True | CharData _ \<Rightarrow> False)"

definition print_attr :: "string \<times> string \<Rightarrow> string" where
  "print_attr nv = '' '' @ fst nv @ ''='' @ [CHR 0x22] @ EscapeText (snd nv) @ [CHR 0x22]"

definition newline :: "nat \<Rightarrow> string" where
  "newline depth = CHR 0x0A # concat (replicate depth ''  '')"

text \<open>An \<open>Encoder\<close> with \<open>Indent("", "  ")\<close>: a start tag that is not the first, and the end tag of an
  element with child elements, begin a line.\<close>

fun print_xml :: "nat \<Rightarrow> xml \<Rightarrow> string" where
  "print_xml depth (CharData s) = EscapeText s"
| "print_xml depth (Element name attrs cs) =
     ''<'' @ name @ concat (map print_attr attrs) @ ''>'' @
     concat (map (\<lambda>c. (if is_element c then newline (Suc depth) else []) @ print_xml (Suc depth) c) cs) @
     (if list_ex is_element cs then newline depth else []) @ ''</'' @ name @ ''>''"

section \<open>The document\<close>

definition text_element :: "string \<Rightarrow> (string \<times> string) list \<Rightarrow> string \<Rightarrow> xml" where
  "text_element name attrs v = Element name attrs [CharData v]"

text \<open>The field tags of \<open>channel\<close>, \<open>textValue\<close>, \<open>programme\<close> and \<open>tv\<close>.\<close>

definition channel_element :: "xmltv_channel \<Rightarrow> xml" where
  "channel_element ch = Element ''channel'' [(''id'', xcID ch)] [text_element ''display-name'' [] (xcDisplayName ch)]"

definition text_value :: "string \<Rightarrow> string \<Rightarrow> string \<Rightarrow> xml" where
  "text_value name lang v = text_element name (if lang = [] then [] else [(''lang'', lang)]) v"

definition programme_element :: "programme \<Rightarrow> xml" where
  "programme_element p =
     Element ''programme'' [(''start'', pgStart p), (''stop'', pgStop p), (''channel'', pgChannel p)]
       [text_value ''title'' (pgTitleLang p) (pgTitle p), text_value ''desc'' (pgDescLang p) (pgDesc p),
        text_element ''episode-num'' [(''system'', pgEpisodeSystem p)] (pgEpisodeNum p)]"

definition tv_element :: "xmltv \<Rightarrow> xml" where
  "tv_element doc =
     Element ''tv'' [(''source-info-name'', tvSourceInfoName doc), (''generator-info-name'', tvGeneratorInfoName doc),
         (''date'', tvDate doc)]
       (map channel_element (tvChannels doc) @ map programme_element (tvProgrammes doc))"

definition xml_Header :: string where
  "xml_Header = ''<?xml version='' @ [CHR 0x22] @ ''1.0'' @ [CHR 0x22] @ '' encoding='' @ [CHR 0x22] @ ''UTF-8''
     @ [CHR 0x22] @ ''?>'' @ [CHR 0x0A]"

definition encodeXMLTV :: "xmltv \<Rightarrow> string" where
  "encodeXMLTV doc = xml_Header @ print_xml 0 (tv_element doc) @ [CHR 0x0A]"

text \<open>Encoding into a buffer does not fail.\<close>

definition GenerateXMLTV :: "catalog \<Rightarrow> lab_clock \<Rightarrow> scenario \<Rightarrow> string \<times> time" where
  "GenerateXMLTV c clk sc = (case xmltv_document c clk sc of (doc, lastModified) \<Rightarrow> (encodeXMLTV doc, lastModified))"

section \<open>Reading\<close>

text \<open>The entities that are written, in the order of \<open>escape_rune\<close>.\<close>

definition entities :: "(string \<times> char) list" where
  "entities = [(''#34'', CHR 0x22), (''#39'', CHR 0x27), (''amp'', CHR ''&''), (''lt'', CHR ''<''),
     (''gt'', CHR ''>''), (''#x9'', CHR 0x09), (''#xA'', CHR 0x0A), (''#xD'', CHR 0x0D)]"

function unescape :: "string \<Rightarrow> string option" where
  "unescape [] = Some []"
| "unescape (c # cs) =
     (if c = CHR ''&'' then
        (case map_of entities (takeWhile (\<lambda>x. x \<noteq> CHR '';'') cs) of
           None \<Rightarrow> None
         | Some x \<Rightarrow> map_option (Cons x) (unescape (tl (dropWhile (\<lambda>x. x \<noteq> CHR '';'') cs))))
      else map_option (Cons c) (unescape cs))"
  by pat_completeness auto
termination by (relation "measure length") (auto simp: less_Suc_eq_le intro!: le_trans [OF diff_le_self length_dropWhile_le])

datatype xml_token = TStart string "(string \<times> string) list" | TEnd string | TText string | TProc string

text \<open>Attributes: a space, a name, an equals sign and a quoted value, each.\<close>

function read_attrs :: "string \<Rightarrow> (string \<times> string) list option" where
  "read_attrs [] = Some []"
| "read_attrs (c # cs) =
     (let name = takeWhile (\<lambda>x. x \<noteq> CHR ''='') cs; more = tl (dropWhile (\<lambda>x. x \<noteq> CHR ''='') cs);
          quoted = tl more; v = takeWhile (\<lambda>x. x \<noteq> CHR 0x22) quoted; rest = dropWhile (\<lambda>x. x \<noteq> CHR 0x22) quoted
      in if c \<noteq> CHR '' '' \<or> more = [] \<or> hd more \<noteq> CHR 0x22 \<or> rest = [] then None
         else
           (case unescape v of
              None \<Rightarrow> None
            | Some value \<Rightarrow> map_option (Cons (name, value)) (read_attrs (tl rest))))"
  by pat_completeness auto
termination
proof (relation "measure length", goal_cases)
  case (2 c cs name more quoted v rest x)
  have "length (tl rest) \<le> length quoted" "length quoted \<le> length more" "length more \<le> length cs"
    unfolding 2 by (auto intro!: le_trans [OF diff_le_self] le_trans [OF length_dropWhile_le])
  then show ?case by simp
qed simp

definition read_tag :: "string \<Rightarrow> xml_token option" where
  "read_tag t =
     (if t \<noteq> [] \<and> hd t = CHR ''/'' then Some (TEnd (tl t))
      else if t \<noteq> [] \<and> hd t = CHR ''?'' then Some (TProc (tl t))
      else map_option (TStart (takeWhile (\<lambda>x. x \<noteq> CHR '' '') t)) (read_attrs (dropWhile (\<lambda>x. x \<noteq> CHR '' '') t)))"

text \<open>Elements are put together by their end tags; what surrounds the root is space and instructions.\<close>

type_synonym open_element = "string \<times> (string \<times> string) list \<times> xml list"

fun build_xml :: "open_element list \<Rightarrow> xml_token list \<Rightarrow> xml option" where
  "build_xml st [] = None"
| "build_xml [] (t # ts) =
     (case t of
        TStart n a \<Rightarrow> build_xml [(n, a, [])] ts
      | TText s \<Rightarrow> if trim_space s = [] then build_xml [] ts else None
      | TProc _ \<Rightarrow> build_xml [] ts
      | TEnd _ \<Rightarrow> None)"
| "build_xml ((n, a, cs) # st) (t # ts) =
     (case t of
        TStart m b \<Rightarrow> build_xml ((m, b, []) # (n, a, cs) # st) ts
      | TText s \<Rightarrow> build_xml ((n, a, cs @ [CharData s]) # st) ts
      | TProc _ \<Rightarrow> build_xml ((n, a, cs) # st) ts
      | TEnd m \<Rightarrow>
          if m \<noteq> n then None
          else
            (case st of
               [] \<Rightarrow> if list_all (\<lambda>t. case t of TText s \<Rightarrow> trim_space s = [] | TProc _ \<Rightarrow> True | _ \<Rightarrow> False) ts
                     then Some (Element n a cs) else None
             | (n', a', cs') # st' \<Rightarrow> build_xml ((n', a', cs' @ [Element n a cs]) # st') ts))"

function read_tokens :: "string \<Rightarrow> xml_token list option" where
  "read_tokens [] = Some []"
| "read_tokens (c # cs) =
     (if c = CHR ''<'' then
        let rest = dropWhile (\<lambda>x. x \<noteq> CHR ''>'') cs in
        if rest = [] then None
        else
          (case read_tag (takeWhile (\<lambda>x. x \<noteq> CHR ''>'') cs) of
             None \<Rightarrow> None
           | Some t \<Rightarrow> map_option (Cons t) (read_tokens (tl rest)))
      else
        (case unescape (c # takeWhile (\<lambda>x. x \<noteq> CHR ''<'') cs) of
           None \<Rightarrow> None
         | Some s \<Rightarrow> map_option (Cons (TText s)) (read_tokens (dropWhile (\<lambda>x. x \<noteq> CHR ''<'') cs))))"
  by pat_completeness auto
termination
  by (relation "measure length")
    (auto simp: less_Suc_eq_le intro!: le_trans [OF diff_le_self length_dropWhile_le] length_dropWhile_le)

declare read_tokens.simps(2) [simp del]

text \<open>The document of a tree, as \<open>Unmarshal\<close> fills the fields: of several elements the last counts.\<close>

definition xml_attr :: "string \<Rightarrow> (string \<times> string) list \<Rightarrow> string" where
  "xml_attr name attrs = (case map_of (rev attrs) name of None \<Rightarrow> [] | Some v \<Rightarrow> v)"

definition xml_text :: "xml list \<Rightarrow> string" where
  "xml_text cs = concat (map (\<lambda>x. case x of CharData s \<Rightarrow> s | _ \<Rightarrow> []) cs)"

definition elements_of :: "string \<Rightarrow> xml list \<Rightarrow> ((string \<times> string) list \<times> xml list) list" where
  "elements_of name cs =
     List.map_filter (\<lambda>x. case x of Element n a ds \<Rightarrow> if n = name then Some (a, ds) else None | _ \<Rightarrow> None) cs"

definition last_element :: "string \<Rightarrow> xml list \<Rightarrow> (string \<times> string) list \<times> xml list" where
  "last_element name cs = (case elements_of name cs of [] \<Rightarrow> ([], []) | es \<Rightarrow> last es)"

definition read_channel :: "(string \<times> string) list \<times> xml list \<Rightarrow> xmltv_channel" where
  "read_channel e = (case e of (a, cs) \<Rightarrow>
     \<lparr>xcID = xml_attr ''id'' a, xcDisplayName = xml_text (snd (last_element ''display-name'' cs))\<rparr>)"

definition read_programme :: "(string \<times> string) list \<times> xml list \<Rightarrow> programme" where
  "read_programme e = (case e of (a, cs) \<Rightarrow>
     \<lparr>pgStart = xml_attr ''start'' a, pgStop = xml_attr ''stop'' a, pgChannel = xml_attr ''channel'' a,
      pgTitleLang = xml_attr ''lang'' (fst (last_element ''title'' cs)), pgTitle = xml_text (snd (last_element ''title'' cs)),
      pgDescLang = xml_attr ''lang'' (fst (last_element ''desc'' cs)), pgDesc = xml_text (snd (last_element ''desc'' cs)),
      pgEpisodeSystem = xml_attr ''system'' (fst (last_element ''episode-num'' cs)),
      pgEpisodeNum = xml_text (snd (last_element ''episode-num'' cs))\<rparr>)"

definition read_tv :: "xml \<Rightarrow> xmltv option" where
  "read_tv x = (case x of
     Element n a cs \<Rightarrow>
       if n \<noteq> ''tv'' then None
       else Some \<lparr>tvSourceInfoName = xml_attr ''source-info-name'' a, tvGeneratorInfoName = xml_attr ''generator-info-name'' a,
         tvDate = xml_attr ''date'' a, tvChannels = map read_channel (elements_of ''channel'' cs),
         tvProgrammes = map read_programme (elements_of ''programme'' cs)\<rparr>
   | CharData _ \<Rightarrow> None)"

definition read_xmltv :: "string \<Rightarrow> xmltv option" where
  "read_xmltv text =
     (case read_tokens text of
        None \<Rightarrow> None
      | Some ts \<Rightarrow> (case build_xml [] ts of None \<Rightarrow> None | Some x \<Rightarrow> read_tv x))"

section \<open>Runes written and read\<close>

text \<open>What is between the quotes and the tags: a rune is a character of ASCII or bytes above it.\<close>

definition rune_ok :: "string \<Rightarrow> bool" where
  "rune_ok r \<longleftrightarrow> r \<noteq> [] \<and> (length r = 1 \<or> list_all (\<lambda>c. of_char c \<ge> (0x80 :: nat)) r)"

lemma byte_in_high: "byte_in 0x80 hi c \<Longrightarrow> of_char c \<ge> (0x80 :: nat)"
  by (simp add: byte_in_def)

lemma decode_rune_ok:
  assumes "decode_rune s = Some r"
  shows "rune_ok r \<and> prefix r s \<and> (\<forall>rest. decode_rune (r @ rest) = Some r)"
proof -
  obtain c cs n lo hi where s: "s = c # cs" "rune_shape c = Some (n, lo, hi)" "r = c # take n cs"
    "length (take n cs) = n" "n = 0 \<or> byte_in lo hi (hd (take n cs))" "list_all (byte_in 0x80 0xBF) (take n cs)"
    using assms by (auto simp: decode_rune_def Let_def split: list.splits option.splits if_splits)
  have high: "of_char c \<ge> (0x80 :: nat)" if "n \<noteq> 0"
    using s(2) that by (simp add: rune_shape_def byte_in_def split: if_splits)
  have "list_all (\<lambda>c. of_char c \<ge> (0x80 :: nat)) (take n cs)"
    using s(6) by (auto simp: list_all_iff byte_in_def)
  then have "rune_ok r" using high s(3) by (cases "n = 0") (auto simp: rune_ok_def)
  moreover have "decode_rune (r @ rest) = Some r" for rest
    using s(2-6) by (simp add: decode_rune_def Let_def)
  ultimately show ?thesis using s(1,3) by (auto simp: take_is_prefix)
qed

lemma xml_runes_ok: "r \<in> set (xml_runes s) \<Longrightarrow> rune_ok r \<and> decode_rune r = Some r \<and> xml_char r"
proof (induction s rule: xml_runes.induct)
  case (2 c cs)
  have rep: "rune_ok replacement \<and> decode_rune replacement = Some replacement \<and> xml_char replacement" by code_simp
  show ?case
  proof (cases "decode_rune (c # cs)")
    case None
    then show ?thesis using 2 rep by auto
  next
    case (Some q)
    then show ?thesis using 2 rep decode_rune_ok [OF Some] decode_rune_ok [OF Some, THEN conjunct2, THEN conjunct2, rule_format, of "[]"]
      by (auto split: if_splits)
  qed
qed simp

text \<open>A text is read back unchanged when it is a sequence of runes that XML allows, and only then.\<close>

definition is_xml_text :: "string \<Rightarrow> bool" where
  "is_xml_text s \<longleftrightarrow> (\<exists>rs. s = concat rs \<and> (\<forall>r\<in>set rs. decode_rune r = Some r \<and> xml_char r))"

lemma xml_runes_concat:
  "(\<forall>r\<in>set rs. decode_rune r = Some r \<and> xml_char r) \<Longrightarrow> xml_runes (concat rs) = rs"
proof (induction rs)
  case (Cons r rs)
  then have r: "decode_rune (r @ concat rs) = Some r" "xml_char r" "r \<noteq> []"
    using decode_rune_ok [of r r] by (auto simp: rune_ok_def)
  then obtain c cs where "r = c # cs" by (cases r) auto
  then show ?case using Cons r by simp
qed simp

lemma xml_valid_iff: "xml_valid s = s \<longleftrightarrow> is_xml_text s"
  using xml_runes_ok xml_runes_concat unfolding is_xml_text_def xml_valid_def by metis

section \<open>Reading what was written\<close>

lemma unescape_plain: "CHR ''&'' \<notin> set r \<Longrightarrow> unescape (r @ t) = map_option ((@) r) (unescape t)"
  by (cases "unescape t"; induction r) auto

lemma rune_cases:
  assumes "rune_ok r"
  obtains c where "r = [c]" | "\<And>c. of_char c < (0x80 :: nat) \<Longrightarrow> c \<notin> set r"
  using assms by (auto simp: rune_ok_def list_all_iff length_Suc_conv) (metis not_le)

lemma high_rune:
  assumes "\<And>c. of_char c < (0x80 :: nat) \<Longrightarrow> c \<notin> set r"
  shows "escape_rune r = r" "CHR ''&'' \<notin> set r" "CHR ''<'' \<notin> set r" "CHR ''>'' \<notin> set r" "CHR 0x22 \<notin> set r"
proof -
  show "CHR ''&'' \<notin> set r" "CHR ''<'' \<notin> set r" "CHR ''>'' \<notin> set r" "CHR 0x22 \<notin> set r"
    by (rule assms, simp)+
  have ne: "r \<noteq> [c]" if "of_char c < (0x80 :: nat)" for c using assms [OF that] by auto
  have "r \<noteq> [CHR 0x22]" "r \<noteq> [CHR 0x27]" "r \<noteq> ''&''" "r \<noteq> ''<''" "r \<noteq> ''>''" "r \<noteq> [CHR 0x09]"
    "r \<noteq> [CHR 0x0A]" "r \<noteq> [CHR 0x0D]"
    by (rule ne, simp)+
  then show "escape_rune r = r" by (simp only: escape_rune_def if_False)
qed

lemma escape_rune_char:
  "CHR ''<'' \<notin> set (escape_rune [c])" "CHR ''>'' \<notin> set (escape_rune [c])" "CHR 0x22 \<notin> set (escape_rune [c])"
  "unescape (escape_rune [c] @ t) = map_option (Cons c) (unescape t)"
  by (simp_all add: escape_rune_def entities_def)

lemma escape_rune_ok:
  assumes "rune_ok r"
  shows "CHR ''<'' \<notin> set (escape_rune r)" "CHR ''>'' \<notin> set (escape_rune r)" "CHR 0x22 \<notin> set (escape_rune r)"
    "unescape (escape_rune r @ t) = map_option ((@) r) (unescape t)"
proof -
  have "CHR ''<'' \<notin> set (escape_rune r) \<and> CHR ''>'' \<notin> set (escape_rune r) \<and> CHR 0x22 \<notin> set (escape_rune r) \<and>
      unescape (escape_rune r @ t) = map_option ((@) r) (unescape t)"
    using assms
  proof (cases rule: rune_cases)
    case (1 c)
    then show ?thesis using escape_rune_char [of c] by (cases "unescape t") simp_all
  next
    case 2
    from high_rune [OF 2] show ?thesis by (simp add: unescape_plain)
  qed
  then show "CHR ''<'' \<notin> set (escape_rune r)" "CHR ''>'' \<notin> set (escape_rune r)" "CHR 0x22 \<notin> set (escape_rune r)"
    "unescape (escape_rune r @ t) = map_option ((@) r) (unescape t)" by simp_all
qed

lemma EscapeText_clean:
  "CHR ''<'' \<notin> set (EscapeText s)" "CHR ''>'' \<notin> set (EscapeText s)" "CHR 0x22 \<notin> set (EscapeText s)"
  using escape_rune_ok(1-3) xml_runes_ok by (fastforce simp: EscapeText_def)+

lemma unescape_EscapeText: "unescape (EscapeText s) = Some (xml_valid s)"
proof -
  have "(\<forall>r\<in>set rs. rune_ok r) \<Longrightarrow> unescape (concat (map escape_rune rs)) = Some (concat rs)" for rs
    by (induction rs) (simp_all add: escape_rune_ok)
  then show ?thesis using xml_runes_ok by (simp add: EscapeText_def xml_valid_def)
qed

lemma EscapeText_Nil: "EscapeText s = [] \<longleftrightarrow> s = []"
proof (cases s)
  case (Cons c cs)
  then obtain r rs where "xml_runes s = r # rs" by (cases "decode_rune (c # cs)") auto
  moreover have "escape_rune r \<noteq> []" if "rune_ok r" for r using that by (auto simp: escape_rune_def rune_ok_def)
  ultimately show ?thesis using xml_runes_ok [of r s] Cons by (simp add: EscapeText_def)
qed (simp add: EscapeText_def)

definition name_ok :: "string \<Rightarrow> bool" where
  "name_ok n \<longleftrightarrow> n \<noteq> [] \<and> list_all (\<lambda>c. c \<notin> {CHR '' '', CHR ''='', CHR ''<'', CHR ''>'', CHR ''/'', CHR ''?''}) n"

definition valid_attrs :: "(string \<times> string) list \<Rightarrow> (string \<times> string) list" where
  "valid_attrs attrs = map (\<lambda>(n, v). (n, xml_valid v)) attrs"

lemma name_ok_chars:
  "name_ok n \<Longrightarrow> CHR '' '' \<notin> set n \<and> CHR ''='' \<notin> set n \<and> CHR ''>'' \<notin> set n \<and> n \<noteq> [] \<and> hd n \<noteq> CHR ''/'' \<and> hd n \<noteq> CHR ''?''"
  by (cases n) (auto simp: name_ok_def list_all_iff)

lemma takeWhile_stop: "c \<notin> set w \<Longrightarrow> takeWhile (\<lambda>x. x \<noteq> c) (w @ c # rest) = w"
  "c \<notin> set w \<Longrightarrow> dropWhile (\<lambda>x. x \<noteq> c) (w @ c # rest) = c # rest"
  by (induction w) auto

lemma read_attrs_print:
  "list_all (\<lambda>nv. name_ok (fst nv)) attrs \<Longrightarrow> read_attrs (concat (map print_attr attrs)) = Some (valid_attrs attrs)"
proof (induction attrs)
  case (Cons nv attrs)
  obtain n v where nv: "nv = (n, v)" by fastforce
  have n: "CHR ''='' \<notin> set n" using Cons.prems name_ok_chars [of n] by (simp add: nv)
  let ?rest = "concat (map print_attr attrs)"
  have p: "concat (map print_attr (nv # attrs)) = CHR '' '' # n @ CHR ''='' # CHR 0x22 # EscapeText v @ CHR 0x22 # ?rest"
    by (simp add: nv print_attr_def)
  show ?case
    unfolding p using Cons takeWhile_stop [OF n] takeWhile_stop [OF EscapeText_clean(3), where rest = ?rest]
    by (simp add: Let_def unescape_EscapeText nv valid_attrs_def)
qed (simp add: valid_attrs_def)

definition start_tag :: "string \<Rightarrow> (string \<times> string) list \<Rightarrow> string" where
  "start_tag n attrs = n @ concat (map print_attr attrs)"

lemma read_tag_start:
  assumes "name_ok n" "list_all (\<lambda>nv. name_ok (fst nv)) attrs"
  shows "read_tag (start_tag n attrs) = Some (TStart n (valid_attrs attrs))" "CHR ''>'' \<notin> set (start_tag n attrs)"
proof -
  have n: "CHR '' '' \<notin> set n" "n \<noteq> []" "hd n \<noteq> CHR ''/''" "hd n \<noteq> CHR ''?''" "CHR ''>'' \<notin> set n"
    using name_ok_chars [OF assms(1)] by auto
  have stop: "takeWhile (\<lambda>x. x \<noteq> CHR '' '') (start_tag n attrs) = n \<and>
      dropWhile (\<lambda>x. x \<noteq> CHR '' '') (start_tag n attrs) = concat (map print_attr attrs)"
  proof (cases attrs)
    case Nil
    then show ?thesis using n(1) by (auto simp: start_tag_def takeWhile_eq_all_conv dropWhile_eq_Nil_conv)
  next
    case (Cons nv more)
    then show ?thesis using takeWhile_stop [OF n(1)] by (simp add: start_tag_def print_attr_def)
  qed
  then show "read_tag (start_tag n attrs) = Some (TStart n (valid_attrs attrs))"
    using n read_attrs_print [OF assms(2)] by (simp add: read_tag_def stop) (simp add: start_tag_def)
  have "CHR ''>'' \<notin> set (print_attr nv)" if "name_ok (fst nv)" for nv
    using name_ok_chars [OF that] EscapeText_clean by (simp add: print_attr_def)
  then show "CHR ''>'' \<notin> set (start_tag n attrs)"
    using n(5) assms(2) by (auto simp: start_tag_def list_all_iff)
qed

lemma read_tokens_tag:
  "CHR ''>'' \<notin> set t \<Longrightarrow> read_tag t = Some tok \<Longrightarrow>
     read_tokens (CHR ''<'' # t @ CHR ''>'' # rest) = map_option (Cons tok) (read_tokens rest)"
  by (simp add: read_tokens.simps(2) takeWhile_stop)

lemma read_tokens_text:
  assumes "CHR ''<'' \<notin> set t" "t \<noteq> []" "unescape t = Some s"
  shows "read_tokens (t @ CHR ''<'' # rest) = map_option (Cons (TText s)) (read_tokens (CHR ''<'' # rest))"
proof -
  obtain c cs where t: "t = c # cs" using assms(2) by (cases t) auto
  then have "CHR ''<'' \<notin> set cs" "c \<noteq> CHR ''<''" using assms(1) by auto
  then show ?thesis using assms(3) takeWhile_stop [of "CHR ''<''" cs rest]
    by (simp add: t read_tokens.simps(2) [of c])
qed

section \<open>Trees written and read\<close>

fun xml_shape :: "xml \<Rightarrow> bool" where
  "xml_shape (CharData s) = True"
| "xml_shape (Element n attrs cs) =
     (name_ok n \<and> list_all (\<lambda>nv. name_ok (fst nv)) attrs \<and>
      (list_all is_element cs \<or> (\<exists>s. cs = [CharData s])) \<and> list_all xml_shape cs)"

fun tokens_of :: "nat \<Rightarrow> xml \<Rightarrow> xml_token list" where
  "tokens_of depth (CharData s) = (if s = [] then [] else [TText (xml_valid s)])"
| "tokens_of depth (Element n attrs cs) =
     [TStart n (valid_attrs attrs)] @
     concat (map (\<lambda>c. (if is_element c then [TText (newline (Suc depth))] else []) @ tokens_of (Suc depth) c) cs) @
     (if list_ex is_element cs then [TText (newline depth)] else []) @ [TEnd n]"

text \<open>The tree that is read, with the space between the elements.\<close>

fun read_back :: "nat \<Rightarrow> xml \<Rightarrow> xml list" where
  "read_back depth (CharData s) = (if s = [] then [] else [CharData (xml_valid s)])"
| "read_back depth (Element n attrs cs) =
     [Element n (valid_attrs attrs)
       (concat (map (\<lambda>c. (if is_element c then [CharData (newline (Suc depth))] else []) @ read_back (Suc depth) c) cs) @
        (if list_ex is_element cs then [CharData (newline depth)] else []))]"

lemma newline_text: "CHR ''<'' \<notin> set (newline d)" "newline d \<noteq> []" "unescape (newline d) = Some (newline d)"
  "trim_space (newline d) = []"
proof -
  have sp: "set (newline d) \<subseteq> {CHR 0x0A, CHR '' ''}" by (auto simp: newline_def)
  then show "CHR ''<'' \<notin> set (newline d)" "newline d \<noteq> []" by (auto simp: newline_def)
  show "unescape (newline d) = Some (newline d)"
    using sp unescape_plain [of "newline d" "[]"] by auto
  have "\<forall>c\<in>set (newline d). is_space c" using sp by (auto simp: is_space_def)
  then have "dropWhile is_space (newline d) = []" by (simp only: dropWhile_eq_Nil_conv)
  then show "trim_space (newline d) = []" by (simp only: trim_space_def) simp
qed

lemma print_element_starts: "is_element x \<Longrightarrow> \<exists>t. print_xml d x = CHR ''<'' # t"
  by (cases x) (simp_all add: is_element_def)

lemma read_children:
  assumes "\<And>c rest. c \<in> set cs \<Longrightarrow> read_tokens (print_xml d c @ rest) = map_option ((@) (tokens_of d c)) (read_tokens rest)"
    "list_all is_element cs"
  shows "read_tokens (concat (map (\<lambda>c. newline d @ print_xml d c) cs) @ rest) =
    map_option ((@) (concat (map (\<lambda>c. TText (newline d) # tokens_of d c) cs))) (read_tokens rest)"
  using assms
proof (induction cs)
  case (Cons c cs)
  obtain t where t: "print_xml d c = CHR ''<'' # t" using print_element_starts [of c d] Cons.prems by auto
  let ?more = "concat (map (\<lambda>c. newline d @ print_xml d c) cs) @ rest"
  have "read_tokens (newline d @ print_xml d c @ ?more) =
      map_option (Cons (TText (newline d))) (read_tokens (print_xml d c @ ?more))"
    using read_tokens_text [OF newline_text(1-3)] by (simp add: t)
  also have "read_tokens (print_xml d c @ ?more) = map_option ((@) (tokens_of d c)) (read_tokens ?more)"
    by (rule Cons.prems(1)) simp
  finally show ?case using Cons by (cases "read_tokens rest") simp_all
qed (cases "read_tokens rest"; simp)

lemma read_end_tag: "name_ok n \<Longrightarrow>
    read_tokens (CHR ''<'' # CHR ''/'' # n @ CHR ''>'' # rest) = map_option (Cons (TEnd n)) (read_tokens rest)"
  using read_tokens_tag [of "CHR ''/'' # n" "TEnd n" rest] name_ok_chars [of n] by (simp add: read_tag_def)

lemma read_print:
  "is_element x \<Longrightarrow> xml_shape x \<Longrightarrow>
     read_tokens (print_xml d x @ rest) = map_option ((@) (tokens_of d x)) (read_tokens rest)"
proof (induction x arbitrary: d rest)
  case (Element n attrs cs)
  let ?close = "CHR ''<'' # CHR ''/'' # n @ CHR ''>'' # rest"
  let ?inner = "concat (map (\<lambda>c. (if is_element c then newline (Suc d) else []) @ print_xml (Suc d) c) cs) @
    (if list_ex is_element cs then newline d else []) @ ?close"
  have ok: "name_ok n" "list_all (\<lambda>nv. name_ok (fst nv)) attrs" using Element.prems by auto
  have "read_tokens (CHR ''<'' # start_tag n attrs @ CHR ''>'' # ?inner) =
      map_option (Cons (TStart n (valid_attrs attrs))) (read_tokens ?inner)"
    by (rule read_tokens_tag [OF read_tag_start(2,1) [OF ok]])
  moreover have "read_tokens ?inner = map_option ((@) (tl (tokens_of d (Element n attrs cs)))) (read_tokens rest)"
  proof (cases "list_all is_element cs")
    case True
    have cs: "\<And>c rest. c \<in> set cs \<Longrightarrow> read_tokens (print_xml (Suc d) c @ rest) =
        map_option ((@) (tokens_of (Suc d) c)) (read_tokens rest)"
      using Element True by (auto simp: list_all_iff)
    have flat: "map (\<lambda>c. (if is_element c then newline (Suc d) else []) @ print_xml (Suc d) c) cs =
        map (\<lambda>c. newline (Suc d) @ print_xml (Suc d) c) cs"
      "map (\<lambda>c. (if is_element c then [TText (newline (Suc d))] else []) @ tokens_of (Suc d) c) cs =
        map (\<lambda>c. TText (newline (Suc d)) # tokens_of (Suc d) c) cs"
      using True by (auto simp: list_all_iff)
    show ?thesis
      unfolding flat tokens_of.simps using read_children [OF cs True, where rest = "(if list_ex is_element cs then newline d else []) @ ?close"]
        read_tokens_text [OF newline_text(1-3), of d "CHR ''/'' # n @ CHR ''>'' # rest"] read_end_tag [OF ok(1), of rest]
      by (cases "read_tokens rest") simp_all
  next
    case False
    then obtain s where s: "cs = [CharData s]" using Element.prems by auto
    then show ?thesis
      using read_tokens_text [OF EscapeText_clean(1) _ unescape_EscapeText, of s "CHR ''/'' # n @ CHR ''>'' # rest"]
        read_end_tag [OF ok(1), of rest] EscapeText_Nil [of s]
      by (cases "read_tokens rest"; cases "s = []") (simp_all add: is_element_def)
  qed
  ultimately show ?case by (cases "read_tokens rest") (simp_all add: start_tag_def)
qed (simp add: is_element_def)

lemma build_read_back:
  "build_xml ((m, b, ds) # st) (tokens_of d x @ ts) = build_xml ((m, b, ds @ read_back d x) # st) ts"
proof (induction x arbitrary: m b ds st d ts)
  case (Element n attrs cs)
  let ?toks = "\<lambda>c. (if is_element c then [TText (newline (Suc d))] else []) @ tokens_of (Suc d) c"
  let ?bk = "\<lambda>c. (if is_element c then [CharData (newline (Suc d))] else []) @ read_back (Suc d) c"
  have cs: "set es \<subseteq> set cs \<Longrightarrow>
      build_xml ((n, valid_attrs attrs, ks) # st') (concat (map ?toks es) @ us) =
      build_xml ((n, valid_attrs attrs, ks @ concat (map ?bk es)) # st') us" for es ks st' us
    by (induction es arbitrary: ks) (simp_all add: Element.IH)
  show ?case using cs [of cs] by simp
qed simp

definition read_root :: "xml \<Rightarrow> xml" where
  "read_root x = hd (read_back 0 x)"

lemma build_root:
  assumes "is_element x" "ts = [TText s]" "trim_space s = []"
  shows "build_xml [] (tokens_of 0 x @ ts) = Some (read_root x)"
proof -
  obtain n attrs cs where x: "x = Element n attrs cs" using assms(1) by (cases x) (auto simp: is_element_def)
  let ?toks = "\<lambda>c. (if is_element c then [TText (newline (Suc 0))] else []) @ tokens_of (Suc 0) c"
  let ?bk = "\<lambda>c. (if is_element c then [CharData (newline (Suc 0))] else []) @ read_back (Suc 0) c"
  have cs: "build_xml ((n, a, ks) # st') (concat (map ?toks es) @ us) =
      build_xml ((n, a, ks @ concat (map ?bk es)) # st') us" for es a ks st' us
    by (induction es arbitrary: ks) (simp_all add: build_read_back)
  show ?thesis using assms(2,3) cs by (simp add: x read_root_def)
qed

lemma read_xml_text:
  assumes "is_element x" "xml_shape x"
  shows "\<exists>p. read_tokens (xml_Header @ print_xml 0 x @ [CHR 0x0A]) =
    Some (TProc p # TText (newline 0) # tokens_of 0 x @ [TText [CHR 0x0A]])"
proof -
  obtain p where p: "xml_Header = CHR ''<'' # (CHR ''?'' # p) @ CHR ''>'' # newline 0" "CHR ''>'' \<notin> set (CHR ''?'' # p)"
  proof
    let ?p = "butlast (butlast (drop 2 xml_Header))"
    show "xml_Header = CHR ''<'' # (CHR ''?'' # ?p) @ CHR ''>'' # newline 0" by code_simp
    show "CHR ''>'' \<notin> set (CHR ''?'' # ?p)" by code_simp
  qed
  obtain t where t: "print_xml 0 x = CHR ''<'' # t" using print_element_starts [OF assms(1)] by blast
  have "read_tokens (xml_Header @ print_xml 0 x @ [CHR 0x0A]) =
      map_option (Cons (TProc p)) (read_tokens (newline 0 @ print_xml 0 x @ [CHR 0x0A]))"
    using read_tokens_tag [OF p(2), of "TProc p" "newline 0 @ print_xml 0 x @ [CHR 0x0A]"] by (simp add: p(1) read_tag_def)
  also have "read_tokens (newline 0 @ print_xml 0 x @ [CHR 0x0A]) =
      map_option (Cons (TText (newline 0))) (read_tokens (print_xml 0 x @ [CHR 0x0A]))"
    using read_tokens_text [OF newline_text(1-3)] by (simp add: t)
  finally show ?thesis by (simp add: read_print [OF assms] read_tokens.simps(2))
qed

section \<open>The guide read back\<close>

definition valid_channel :: "xmltv_channel \<Rightarrow> xmltv_channel" where
  "valid_channel ch = \<lparr>xcID = xml_valid (xcID ch), xcDisplayName = xml_valid (xcDisplayName ch)\<rparr>"

definition valid_programme :: "programme \<Rightarrow> programme" where
  "valid_programme p = \<lparr>pgStart = xml_valid (pgStart p), pgStop = xml_valid (pgStop p), pgChannel = xml_valid (pgChannel p),
     pgTitleLang = xml_valid (pgTitleLang p), pgTitle = xml_valid (pgTitle p), pgDescLang = xml_valid (pgDescLang p),
     pgDesc = xml_valid (pgDesc p), pgEpisodeSystem = xml_valid (pgEpisodeSystem p),
     pgEpisodeNum = xml_valid (pgEpisodeNum p)\<rparr>"

definition valid_xmltv :: "xmltv \<Rightarrow> xmltv" where
  "valid_xmltv doc = \<lparr>tvSourceInfoName = xml_valid (tvSourceInfoName doc),
     tvGeneratorInfoName = xml_valid (tvGeneratorInfoName doc), tvDate = xml_valid (tvDate doc),
     tvChannels = map valid_channel (tvChannels doc), tvProgrammes = map valid_programme (tvProgrammes doc)\<rparr>"

lemma elements_of_simps [simp]:
  "elements_of n [] = []" "elements_of n (xs @ ys) = elements_of n xs @ elements_of n ys"
  "elements_of n (CharData s # xs) = elements_of n xs"
  "elements_of n (Element m a ds # xs) = (if m = n then (a, ds) # elements_of n xs else elements_of n xs)"
  by (simp_all add: elements_of_def map_filter_def)

lemma xml_text_simps [simp]: "xml_text [] = []" "xml_text (CharData s # cs) = s @ xml_text cs"
  by (simp_all add: xml_text_def)

lemma text_read_back [simp]:
  "xml_text (if s = [] then [] else [CharData (xml_valid s)]) = xml_valid s" "xml_valid [] = []"
  by (simp_all add: xml_valid_def)

lemmas element_defs = channel_element_def programme_element_def text_element_def text_value_def is_element_def

definition element_content :: "xml \<Rightarrow> (string \<times> string) list \<times> xml list" where
  "element_content x = (case read_back (Suc 0) x of Element _ a ds # _ \<Rightarrow> (a, ds) | _ \<Rightarrow> ([], []))"

abbreviation spaced :: "xml list \<Rightarrow> xml list" where
  "spaced xs \<equiv> concat (map (\<lambda>c. (if is_element c then [CharData (newline (Suc 0))] else []) @ read_back (Suc 0) c) xs)"

lemma spaced_elements:
  "elements_of ''channel'' (spaced (map channel_element chs)) = map (\<lambda>c. element_content (channel_element c)) chs"
  "elements_of ''programme'' (spaced (map channel_element chs)) = []"
  "elements_of ''channel'' (spaced (map programme_element ps)) = []"
  "elements_of ''programme'' (spaced (map programme_element ps)) = map (\<lambda>p. element_content (programme_element p)) ps"
     apply (induction chs; simp add: element_content_def element_defs)
    apply (induction chs; simp add: element_defs)
   apply (induction ps; simp add: element_defs)
  apply (induction ps; simp add: element_content_def element_defs)
  done

lemma read_contents:
  "read_channel (element_content (channel_element ch)) = valid_channel ch"
  "read_programme (element_content (programme_element p)) = valid_programme p"
  by (simp_all add: element_content_def element_defs read_channel_def read_programme_def valid_channel_def
      valid_programme_def last_element_def xml_attr_def valid_attrs_def)

lemma read_tv_root: "read_tv (read_root (tv_element doc)) = Some (valid_xmltv doc)"
  using spaced_elements read_contents
  by (simp add: read_root_def tv_element_def read_tv_def valid_xmltv_def valid_attrs_def xml_attr_def comp_def)

lemma tv_shape: "is_element (tv_element doc)" "xml_shape (tv_element doc)"
proof -
  have "xml_shape (channel_element ch) \<and> is_element (channel_element ch)" for ch
    by (simp add: element_defs name_ok_def)
  moreover have "xml_shape (programme_element p) \<and> is_element (programme_element p)" for p
    by (simp add: element_defs name_ok_def)
  ultimately show "is_element (tv_element doc)" "xml_shape (tv_element doc)"
    by (simp_all add: tv_element_def is_element_def list_all_iff name_ok_def) (auto simp: name_ok_def is_element_def)
qed

lemma read_encoded: "read_xmltv (encodeXMLTV doc) = Some (valid_xmltv doc)"
proof -
  obtain p where "read_tokens (encodeXMLTV doc) =
      Some (TProc p # TText (newline 0) # tokens_of 0 (tv_element doc) @ [TText [CHR 0x0A]])"
    using read_xml_text [OF tv_shape] by (auto simp: encodeXMLTV_def)
  moreover have "build_xml [] (tokens_of 0 (tv_element doc) @ [TText [CHR 0x0A]]) = Some (read_root (tv_element doc))"
    by (rule build_root [OF tv_shape(1) refl]) (simp add: trim_space_def is_space_def)
  ultimately show ?thesis by (simp add: read_xmltv_def newline_text read_tv_root)
qed

section \<open>Texts that pass unchanged\<close>

definition ascii :: "char \<Rightarrow> bool" where
  "ascii c \<longleftrightarrow> (0x20 :: nat) \<le> of_char c \<and> of_char c < (0x80 :: nat)"

lemma xml_text_append: "is_xml_text s \<Longrightarrow> is_xml_text t \<Longrightarrow> is_xml_text (s @ t)"
proof -
  assume "is_xml_text s" "is_xml_text t"
  then obtain rs qs where "s = concat rs" "t = concat qs"
    "\<forall>r\<in>set (rs @ qs). decode_rune r = Some r \<and> xml_char r" by (auto simp: is_xml_text_def)
  then show ?thesis unfolding is_xml_text_def by (metis concat_append)
qed

lemma ascii_xml_text:
  assumes "list_all ascii s"
  shows "is_xml_text s"
proof -
  have "decode_rune [c] = Some [c] \<and> xml_char [c]" if "ascii c" for c
    using that by (simp add: ascii_def decode_rune_def rune_shape_def byte_in_def xml_char_def)
  then have "\<forall>r\<in>set (map (\<lambda>c. [c]) s). decode_rune r = Some r \<and> xml_char r"
    using assms by (simp add: list_all_iff)
  moreover have "s = concat (map (\<lambda>c. [c]) s)" by (induction s) simp_all
  ultimately show ?thesis unfolding is_xml_text_def by blast
qed

lemma xml_text_Cons: "ascii c \<Longrightarrow> is_xml_text s \<Longrightarrow> is_xml_text (c # s)"
  using xml_text_append [of "[c]" s] ascii_xml_text [of "[c]"] by simp

lemma xml_text_Nil: "is_xml_text []"
  by (rule ascii_xml_text) simp

lemmas xml_text_intros = xml_text_append xml_text_Cons xml_text_Nil

lemma number_xml_text: "is_xml_text (pad_int w i)"
proof (rule ascii_xml_text)
  have "ascii c" if "c \<in> set (itoa i)" for c
    using set_itoa [OF that] by (auto simp: ascii_def is_digit_def)
  then show "list_all ascii (pad_int w i)" by (auto simp: list_all_iff pad_int_def ascii_def)
qed

lemma stamp_xml_text: "is_xml_text (format_stamp t)"
  by (simp add: format_stamp_def xml_text_append number_xml_text split: prod.split)

lemma time_xml_text: "is_xml_text (formatXMLTVTime loc t)"
  by (simp add: formatXMLTVTime_def format_zone_def Let_def xml_text_intros number_xml_text stamp_xml_text
      ascii_def)

lemma loop_renders:
  "p \<in> set (programmes_loop svc ch clk gapped gapEnd start) \<Longrightarrow>
     \<exists>a b. p = render_programme svc ch (clkLocation clk) a b"
proof (induction svc ch clk gapped gapEnd start rule: programmes_loop.induct)
  case (1 svc ch clk gapped gapEnd start)
  show ?case
    using 1(2) 1(1) [OF refl refl _ refl refl]
    by (subst (asm) programmes_loop.simps) (auto simp: Let_def split: if_splits)
qed

lemma programme_unchanged:
  "is_xml_text (svcName svc) \<Longrightarrow> is_xml_text ch \<Longrightarrow>
     valid_programme (render_programme svc ch loc a b) = render_programme svc ch loc a b"
  by (simp add: render_programme_def valid_programme_def Let_def xml_valid_iff xml_text_intros time_xml_text
      stamp_xml_text number_xml_text ascii_def)

lemma guide_unchanged:
  assumes "list_all (\<lambda>svc. is_xml_text (svcName svc) \<and> is_xml_text (svcTvgID svc)) (catServices c)"
  shows "valid_xmltv (fst (xmltv_document c clk sc)) = fst (xmltv_document c clk sc)"
proof -
  have svc: "is_xml_text (svcName svc) \<and> is_xml_text (xmltvChannelID svc sc)" if "svc \<in> set (catServices c)" for svc
    using assms that by (simp add: list_all_iff xmltvChannelID_def xml_text_intros ascii_def)
  have "valid_programme p = p" if "svc \<in> set (catServices c)"
    "p \<in> set (programmesForService c svc (xmltvChannelID svc sc) clk sc)" for svc p
  proof -
    note prog = that(2)
    obtain a b where "p = render_programme svc (xmltvChannelID svc sc) (clkLocation clk) a b"
      using loop_renders prog unfolding programmesForService_def Let_def by blast
    then show ?thesis using programme_unchanged svc [OF that(1)] by simp
  qed
  then have "map valid_programme (concat (map (\<lambda>svc. programmesForService c svc (xmltvChannelID svc sc) clk sc) (catServices c))) =
      concat (map (\<lambda>svc. programmesForService c svc (xmltvChannelID svc sc) clk sc) (catServices c))"
    by (intro map_idI) auto
  then show ?thesis
    using svc by (simp add: xmltv_document_def valid_xmltv_def valid_channel_def xml_valid_iff Let_def time_xml_text
        xml_text_intros ascii_def)
qed

text \<open>C38. The guide survives its encoding: whatever bytes the names of the catalog hold, the text is
  well-formed, and a reader gets the document with every text made valid; when the names are texts that XML
  allows, encoded in UTF-8, it gets exactly the document, and no other text passes unchanged.\<close>

theorem guide_reads_back:
  "read_xmltv (fst (GenerateXMLTV c clk sc)) = Some (valid_xmltv (fst (xmltv_document c clk sc))) \<and>
   (xml_valid s = s \<longleftrightarrow> is_xml_text s) \<and>
   (list_all (\<lambda>svc. is_xml_text (svcName svc) \<and> is_xml_text (svcTvgID svc)) (catServices c) \<longrightarrow>
      read_xmltv (fst (GenerateXMLTV c clk sc)) = Some (fst (xmltv_document c clk sc)))"
  using guide_unchanged [of c clk sc]
  by (cases "xmltv_document c clk sc") (simp add: GenerateXMLTV_def read_encoded xml_valid_iff)

theorem guide_reads_back_witness:
  "\<exists>c clk sc. catServices c \<noteq> [] \<and> read_xmltv (fst (GenerateXMLTV c clk sc)) = Some (fst (xmltv_document c clk sc))"
proof -
  let ?c = demo_catalog
  let ?svc = "\<lambda>svc. list_all ascii (svcName svc) \<and> list_all ascii (svcTvgID svc)"
  have all: "catServices ?c \<noteq> [] \<and> list_all ?svc (catServices ?c)"
    by (simp add: demo_catalog_def ascii_def)
  then have "list_all (\<lambda>svc. is_xml_text (svcName svc) \<and> is_xml_text (svcTvgID svc)) (catServices ?c)"
    by (simp add: list_all_iff ascii_xml_text)
  with guide_reads_back [of ?c] all show ?thesis by blast
qed

end
