(* ===== verification/HttpServer.thy ===== *)
theory HttpServer
  imports RtspInv AgentContext Topology Ssdp Json Xmltv
begin

text \<open>
  The HTTP server (\<open>internal/httpserver/server.go\<close>): its routes, its handlers and the status and
  diagnostics it derives from the manager. It shares the manager with the RTSP server, whose state is
  threaded through the handlers; \<open>hsReset\<close> says whether the server was made with the RTSP server's
  \<open>Reset\<close> as its callback. A response body is the value that the code encodes as JSON, whose encoding
  (\<open>encoding/json\<close>) is not modelled, or the text that it writes. Paths are clean, so
  \<open>http.ServeMux\<close> matches them as they are; a pattern that is not there falls to \<open>/\<close>.
\<close>

section \<open>Documents\<close>

record hardware_identity =
  hiFriendlyName :: string
  hiManufacturer :: string
  hiModel :: string
  hiModelNumber :: string
  hiProfile :: string
  hiFirmware :: string

record hardware_streams =
  hmActive :: nat
  hmPlaying :: nat
  hmSetup :: nat
  hmPaused :: nat

record hardware_tuners =
  htTotal :: nat
  htInUse :: nat
  htIdle :: nat

record hardware_network =
  hnHTTPPort :: int
  hnRTSPPort :: int
  hnSSDPPort :: int
  hnRTSPSessions :: nat
  hnRTPStreams :: nat
  hnFrontendLocks :: nat
  hnRecentEvents :: nat

record hardware_status =
  hwLabOnly :: bool
  hwStartedAt :: time
  hwUptimeMS :: int
  hwIdentity :: hardware_identity
  hwStreams :: hardware_streams
  hwTuners :: hardware_tuners
  hwNetwork :: hardware_network

record http_status =
  hstLab :: status
  hstHardware :: hardware_status

text \<open>A packet rate is a float; its arithmetic is exact here.\<close>

record playback_diagnostic =
  pdSessionID :: string
  pdServiceID :: string
  pdScenario :: string
  pdRTPTransport :: string
  pdRTPDestination :: string
  pdRTPPort :: "int option"
  pdRTCPPort :: "int option"
  pdRTPChannel :: "int option"
  pdRTCPChannel :: "int option"
  pdFirstRTPSentAt :: "time option"
  pdRTPPacketCount :: int
  pdRTPByteCount :: int
  pdPacketRate :: rat
  pdContinuityErrors :: bool
  pdContinuityErrorCount :: "int option"
  pdMalformedPSI :: bool
  pdDelayedPSI :: bool
  pdDelayedKeyframe :: bool
  pdIntentionalImpairments :: "string list"

record http_server =
  hsConfig :: config
  hsReset :: bool
  hsStartedAt :: time
  hsTopology :: document

datatype api_value =
    VStatus http_status | VLabStatus status | VTopology document | VAgentContext agent_context | VCatalog catalog
  | VMuxes "mux list" | VServices "service list" | VTuners "tuner list" | VSessions "session list"
  | VDiagnostics "playback_diagnostic list" | VEvents "event list" | VClock lab_clock
  | VConfigSchema schema_document | VSchema api_schema | VScenario scenario

datatype http_failure = MethodNotAllowed | InvalidJSON | LabFailure lab_error | ClockFailure clock_error

datatype http_body =
    Page string | DeviceXML string | M3UList string | Guide string time | Json api_value | Failed http_failure

record http_response =
  hrStatus :: int
  hrBody :: http_body

text \<open>The body of a POST to the scenario endpoint and its decoding. The body of a request is empty, or not
  JSON, when it has no value.\<close>

record scenario_request =
  sqName :: string
  sqServiceID :: string
  sqMuxID :: string
  sqDurationMin :: int
  sqTimeline :: "scenario_timeline_step list"

definition zero_step :: scenario_timeline_step where
  "zero_step = \<lparr>stAtMS = 0, stName = [], stServiceID = [], stMuxID = [], stDurationMin = 0\<rparr>"

definition step_fields :: "scenario_timeline_step field list" where
  "step_fields =
     [field_of ''at_ms'' decode_int stAtMS stAtMS_update, field_of ''name'' decode_string stName stName_update,
      field_of ''service_id'' decode_string stServiceID stServiceID_update,
      field_of ''mux_id'' decode_string stMuxID stMuxID_update,
      field_of ''duration_min'' decode_int stDurationMin stDurationMin_update]"

definition scenario_fields :: "scenario_request field list" where
  "scenario_fields =
     [field_of ''name'' decode_string sqName sqName_update,
      field_of ''service_id'' decode_string sqServiceID sqServiceID_update,
      field_of ''mux_id'' decode_string sqMuxID sqMuxID_update,
      field_of ''duration_min'' decode_int sqDurationMin sqDurationMin_update,
      field_of ''timeline'' (\<lambda>name. decode_slice (decode_object False name step_fields) zero_step name)
        sqTimeline sqTimeline_update]"

definition decode_scenario :: "json_body \<Rightarrow> scenario_request option" where
  "decode_scenario body =
     (case jbValue body of
        None \<Rightarrow> None
      | Some v \<Rightarrow>
          (case decode_object False [] scenario_fields v
               \<lparr>sqName = [], sqServiceID = [], sqMuxID = [], sqDurationMin = 0, sqTimeline = []\<rparr> of
             (_, Some e) \<Rightarrow> None
           | (req, None) \<Rightarrow> Some req))"

record http_request =
  hqMethod :: string
  hqPath :: string
  hqBody :: json_body

definition NewWithTopology :: "config \<Rightarrow> document \<Rightarrow> bool \<Rightarrow> time \<Rightarrow> http_server" where
  "NewWithTopology cfg doc reset now =
     \<lparr>hsConfig = cfg, hsReset = reset, hsStartedAt = now, hsTopology = doc\<rparr>"

section \<open>Status\<close>

definition count :: "('a \<Rightarrow> bool) \<Rightarrow> 'a list \<Rightarrow> nat" where
  "count P xs = length (filter P xs)"

definition hardware_streams_of :: "session list \<Rightarrow> hardware_streams" where
  "hardware_streams_of ss =
     \<lparr>hmActive = length ss, hmPlaying = count (\<lambda>s. sesState s = ''playing'') ss,
      hmSetup = count (\<lambda>s. sesState s = ''setup'') ss, hmPaused = count (\<lambda>s. sesState s = ''paused'') ss\<rparr>"

definition hardware_tuners_of :: "tuner list \<Rightarrow> hardware_tuners" where
  "hardware_tuners_of ts =
     \<lparr>htTotal = length ts, htInUse = count (\<lambda>t. tunState t \<noteq> ''idle'') ts,
      htIdle = count (\<lambda>t. tunState t = ''idle'') ts\<rparr>"

definition frontend_locks :: "tuner list \<Rightarrow> nat" where
  "frontend_locks ts =
     count (\<lambda>t. feState (tunFrontend t) = FrontendLocked \<or> feState (tunFrontend t) = FrontendDegraded) ts"

definition hardwareStatus :: "http_server \<Rightarrow> status \<Rightarrow> time \<Rightarrow> hardware_status" where
  "hardwareStatus hs st now =
     (let p = CompatibilityProfile (hsConfig hs);
          streams = hardware_streams_of (statSessions st);
          uptime = time_sub now (hsStartedAt hs);
          uptime = (if uptime < 0 then 0 else uptime)
      in \<lparr>hwLabOnly = True, hwStartedAt = hsStartedAt hs, hwUptimeMS = go_quot uptime millisecond,
          hwIdentity = \<lparr>hiFriendlyName = devFriendlyName (profDevice p),
            hiManufacturer = devManufacturer (profDevice p), hiModel = devModelName (profDevice p),
            hiModelNumber = devModelNumber (profDevice p), hiProfile = profName p,
            hiFirmware = ''satip-lab simulated''\<rparr>,
          hwStreams = streams, hwTuners = hardware_tuners_of (statTuners st),
          hwNetwork = \<lparr>hnHTTPPort = EffectivePublicHTTPPort (hsConfig hs),
            hnRTSPPort = EffectivePublicRTSPPort (hsConfig hs), hnSSDPPort = cfgSSDPort (hsConfig hs),
            hnRTSPSessions = length (statSessions st), hnRTPStreams = hmPlaying streams,
            hnFrontendLocks = frontend_locks (statTuners st), hnRecentEvents = length (statEvents st)\<rparr>\<rparr>)"

definition lab_status :: "rtsp_env \<Rightarrow> server \<Rightarrow> status \<times> server" where
  "lab_status env s = with_lab (\<lambda>m. Status (envOrder env (mSessions m)) m) s"

definition http_status_of :: "rtsp_env \<Rightarrow> http_server \<Rightarrow> server \<Rightarrow> http_status \<times> server" where
  "http_status_of env hs s =
     (case lab_status env s of (st, s) \<Rightarrow>
        case srv_now s of (now, s) \<Rightarrow>
          (\<lparr>hstLab = st, hstHardware = hardwareStatus hs st now\<rparr>, s))"

definition status_page :: "http_server \<Rightarrow> http_status \<Rightarrow> string \<Rightarrow> string" where
  "status_page hs st scenario_name =
     (let cfg = hsConfig hs; hw = hstHardware st;
          frontendState = (case statTuners (hstLab st) of [] \<Rightarrow> ''idle'' | t # _ \<Rightarrow> feState (tunFrontend t))
      in join [CHR 0x0A]
        [''<!DOCTYPE html>'',
         ''<html lang=\"en\">'',
         ''<head><meta charset=\"utf-8\"><title>satip-lab</title></head>'',
         ''<body>'',
         ''<h1>satip-lab</h1>'',
         ''<p>Local SAT&gt;IP lab server for client developers.</p>'',
         ''<ul>'',
         ''<li><a href=\"/desc.xml\">Device description</a></li>'',
         ''<li><a href=\"/channels.m3u\">Channel list (M3U)</a></li>'',
         ''</ul>'',
         ''<p>Startup scenario: '' @ ScenarioName cfg @ ''</p>'',
         ''<p>Runtime scenario: '' @ scenario_name @ ''</p>'',
         ''<p>RTSP port: '' @ itoa (cfgRTSPPort cfg) @ ''</p>'',
         ''<p>Transport stream: '' @ xmlEscape (cfgTransportStreamPath cfg) @ ''</p>'',
         ''<p>Media directory: '' @ xmlEscape (cfgMediaDir cfg) @ ''</p>'',
         ''<p>Compatibility profile: '' @ xmlEscape (profName (CompatibilityProfile cfg)) @ ''</p>'',
         ''<h2>Hardware status</h2>'',
         ''<p>Device: '' @ xmlEscape (hiFriendlyName (hwIdentity hw)) @ '' ('' @ xmlEscape (hiModel (hwIdentity hw))
           @ '')</p>'',
         ''<p>Firmware: '' @ xmlEscape (hiFirmware (hwIdentity hw)) @ ''</p>'',
         ''<p>Uptime: '' @ itoa (hwUptimeMS hw) @ '' ms</p>'',
         ''<p>Active streams: '' @ itoa (int (hmActive (hwStreams hw))) @ ''</p>'',
         ''<p>Tuners in use: '' @ itoa (int (htInUse (hwTuners hw))) @ '' / '' @ itoa (int (htTotal (hwTuners hw)))
           @ ''</p>'',
         ''<p>Frontend state: '' @ xmlEscape frontendState @ ''</p>'',
         ''<p><a href=\"/api/status\">JSON status</a></p>'',
         ''</body>'',
         ''</html>''])"

section \<open>Playback diagnostics\<close>

definition packetRate :: "session \<Rightarrow> rat" where
  "packetRate ses =
     (case (sesFirstRTPSentAt ses, sesLastRTPSentAt ses) of
        (Some first, Some final) \<Rightarrow>
          if sesRTPPacketCount ses < 2 then 0
          else
            let elapsed = Fract (time_sub final first) second
            in if elapsed \<le> 0 then 0 else of_int (sesRTPPacketCount ses - 1) / elapsed
      | _ \<Rightarrow> 0)"

definition playbackTransportFields ::
  "session \<Rightarrow> int option \<times> int option \<times> int option \<times> int option" where
  "playbackTransportFields ses =
     (if sesRTPPort ses > 0 then Some (sesRTPPort ses) else None,
      if sesRTCPPort ses > 0 then Some (sesRTCPPort ses) else None,
      sesRTPChannel ses, sesRTCPChannel ses)"

definition applyScenarioDiagnostics :: "playback_diagnostic \<Rightarrow> scenario \<Rightarrow> playback_diagnostic" where
  "applyScenarioDiagnostics d sc =
     (if scName sc = ScenarioContinuityErrors
      then d\<lparr>pdContinuityErrors := True,
             pdIntentionalImpairments := pdIntentionalImpairments d @ [''continuity_counter_errors'']\<rparr>
      else if scName sc = ScenarioMalformedPSI
      then d\<lparr>pdMalformedPSI := True, pdIntentionalImpairments := pdIntentionalImpairments d @ [''malformed_psi'']\<rparr>
      else if scName sc = ScenarioDelayedPSI
      then d\<lparr>pdDelayedPSI := True, pdIntentionalImpairments := pdIntentionalImpairments d @ [''delayed_psi'']\<rparr>
      else d)"

definition playback_diagnostic_of :: "catalog \<Rightarrow> scenario \<Rightarrow> session \<Rightarrow> playback_diagnostic" where
  "playback_diagnostic_of c sc ses =
     (let svc = (case ServiceByID c (sesServiceID ses) of None \<Rightarrow> zero_service | Some s \<Rightarrow> s);
          mux = (case MuxByID c (sesMuxID ses) of None \<Rightarrow> zero_mux | Some x \<Rightarrow> x);
          sessionScenario = (if AppliesTo sc (svcID svc) (mxID mux) then sc else plain_scenario ScenarioNormal []);
          (rtpPort, rtcpPort, rtpChannel, rtcpChannel) = playbackTransportFields ses
      in applyScenarioDiagnostics
           \<lparr>pdSessionID = sesID ses, pdServiceID = sesServiceID ses, pdScenario = scName sessionScenario,
            pdRTPTransport = sesRTPTransport ses, pdRTPDestination = sesRTPDestination ses,
            pdRTPPort = rtpPort, pdRTCPPort = rtcpPort, pdRTPChannel = rtpChannel,
            pdRTCPChannel = rtcpChannel, pdFirstRTPSentAt = sesFirstRTPSentAt ses,
            pdRTPPacketCount = sesRTPPacketCount ses, pdRTPByteCount = sesRTPByteCount ses,
            pdPacketRate = packetRate ses, pdContinuityErrors = False, pdContinuityErrorCount = None,
            pdMalformedPSI = False, pdDelayedPSI = False, pdDelayedKeyframe = False,
            pdIntentionalImpairments = []\<rparr> sessionScenario)"

definition playbackDiagnostics :: "rtsp_env \<Rightarrow> server \<Rightarrow> playback_diagnostic list \<times> server" where
  "playbackDiagnostics env s =
     (case lab_status env s of (st, s) \<Rightarrow>
        case with_lab Scenario s of (sc, s) \<Rightarrow>
          (map (playback_diagnostic_of (mCatalog (srvLab s)) sc) (statSessions st), s))"

section \<open>Handlers\<close>

definition ok_response :: "http_body \<Rightarrow> http_response" where
  "ok_response b = \<lparr>hrStatus = 200, hrBody = b\<rparr>"

definition http_error :: "http_failure \<Rightarrow> int \<Rightarrow> http_response" where
  "http_error e code = \<lparr>hrStatus = code, hrBody = Failed e\<rparr>"

definition writeJSON :: "api_value \<Rightarrow> http_response" where
  "writeJSON v = ok_response (Json v)"

type_synonym http_handler = "http_request \<Rightarrow> server \<Rightarrow> http_response \<times> server"

definition requireMethod :: "string \<Rightarrow> (server \<Rightarrow> http_response \<times> server) \<Rightarrow> http_handler" where
  "requireMethod verb k req s =
     (if hqMethod req = verb then k s else (http_error MethodNotAllowed 405, s))"

definition handleStatus :: "rtsp_env \<Rightarrow> http_server \<Rightarrow> http_handler" where
  "handleStatus env hs req s =
     (case http_status_of env hs s of (st, s) \<Rightarrow>
        case with_lab Scenario s of (sc, s) \<Rightarrow> (ok_response (Page (status_page hs st (scName sc))), s))"

definition handleDesc :: "http_server \<Rightarrow> http_handler" where
  "handleDesc hs req s =
     (ok_response (DeviceXML (BuildDeviceDescriptionXML (PresentationURL (hsConfig hs))
        (cfgTunerCount (hsConfig hs)) (CompatibilityProfile (hsConfig hs)))), s)"

definition bad_m3u :: string where
  "bad_m3u = join [CHR 0x0A] [''#EXTM3U'', ''# satip-lab:bad_m3u'', ''#EXTINF:-1,broken SAT>IP entry'',
     ''not-a-satip-url'', []]"

definition handleM3U :: "http_server \<Rightarrow> http_handler" where
  "handleM3U hs req s =
     (case with_lab Scenario s of (sc, s) \<Rightarrow>
        if scName sc = ScenarioBadM3U then (ok_response (M3UList bad_m3u), s)
        else (ok_response (M3UList (BuildM3U (cfgPublicHost (hsConfig hs)) (EffectivePublicRTSPPort (hsConfig hs))
                (Some (Catalog_Channels (mCatalog (srvLab s)))))), s))"

text \<open>The reading of the real clock in \<open>ParseClock\<close> is not counted among those of the manager's clock.\<close>

definition lab_clock_of :: "rtsp_env \<Rightarrow> http_server \<Rightarrow> server \<Rightarrow> clock_error + lab_clock" where
  "lab_clock_of env hs s = ParseClock (envBerlin env) (fst (srv_now s)) (cfgEPGClock (hsConfig hs))"

definition handleXMLTV :: "rtsp_env \<Rightarrow> http_server \<Rightarrow> http_handler" where
  "handleXMLTV env hs req = requireMethod ''GET'' (\<lambda>s.
     (case lab_clock_of env hs s of
        Inl e \<Rightarrow> (http_error (ClockFailure e) 500, s)
      | Inr clock \<Rightarrow>
          (case with_lab Scenario s of (sc, s) \<Rightarrow>
             case GenerateXMLTV (mCatalog (srvLab s)) clock sc of
               (doc, lastModified) \<Rightarrow> (ok_response (Guide doc lastModified), s)))) req"

definition handleAPIStatus :: "rtsp_env \<Rightarrow> http_server \<Rightarrow> http_handler" where
  "handleAPIStatus env hs req = requireMethod ''GET'' (\<lambda>s.
     (case http_status_of env hs s of (st, s) \<Rightarrow> (writeJSON (VStatus st), s))) req"

definition handleAPITopology :: "http_server \<Rightarrow> http_handler" where
  "handleAPITopology hs req = requireMethod ''GET'' (\<lambda>s. (writeJSON (VTopology (hsTopology hs)), s)) req"

definition handleAPIAgentContext :: "rtsp_env \<Rightarrow> http_server \<Rightarrow> http_handler" where
  "handleAPIAgentContext env hs req = requireMethod ''GET'' (\<lambda>s.
     (case with_lab (buildAgentContext (hsConfig hs) (envOrder env)) s of
        (ctx, s) \<Rightarrow> (writeJSON (VAgentContext ctx), s))) req"

definition handleAPICatalog :: http_handler where
  "handleAPICatalog req = requireMethod ''GET'' (\<lambda>s. (writeJSON (VCatalog (mCatalog (srvLab s))), s)) req"

definition handleAPIMuxes :: http_handler where
  "handleAPIMuxes req = requireMethod ''GET'' (\<lambda>s. (writeJSON (VMuxes (catMuxes (mCatalog (srvLab s)))), s)) req"

definition handleAPIServices :: http_handler where
  "handleAPIServices req =
     requireMethod ''GET'' (\<lambda>s. (writeJSON (VServices (catServices (mCatalog (srvLab s)))), s)) req"

definition handleAPITuners :: "rtsp_env \<Rightarrow> http_handler" where
  "handleAPITuners env req = requireMethod ''GET'' (\<lambda>s.
     (case lab_status env s of (st, s) \<Rightarrow> (writeJSON (VTuners (statTuners st)), s))) req"

definition handleAPISessions :: "rtsp_env \<Rightarrow> http_handler" where
  "handleAPISessions env req = requireMethod ''GET'' (\<lambda>s.
     (case lab_status env s of (st, s) \<Rightarrow> (writeJSON (VSessions (statSessions st)), s))) req"

definition handleAPIPlaybackDiagnostics :: "rtsp_env \<Rightarrow> http_handler" where
  "handleAPIPlaybackDiagnostics env req = requireMethod ''GET'' (\<lambda>s.
     (case playbackDiagnostics env s of (ds, s) \<Rightarrow> (writeJSON (VDiagnostics ds), s))) req"

definition handleAPIEvents :: "rtsp_env \<Rightarrow> http_handler" where
  "handleAPIEvents env req = requireMethod ''GET'' (\<lambda>s.
     (case lab_status env s of (st, s) \<Rightarrow> (writeJSON (VEvents (statEvents st)), s))) req"

definition handleAPIClock :: "rtsp_env \<Rightarrow> http_server \<Rightarrow> http_handler" where
  "handleAPIClock env hs req = requireMethod ''GET'' (\<lambda>s.
     (case lab_clock_of env hs s of
        Inl e \<Rightarrow> (http_error (ClockFailure e) 500, s)
      | Inr clock \<Rightarrow> (writeJSON (VClock clock), s))) req"

definition handleAPIConfigSchema :: http_handler where
  "handleAPIConfigSchema req = requireMethod ''GET'' (\<lambda>s. (writeJSON (VConfigSchema Schema), s)) req"

definition handleAPISchema :: http_handler where
  "handleAPISchema req = requireMethod ''GET'' (\<lambda>s. (writeJSON (VSchema APISchema), s)) req"

definition handleAPIScenario :: http_handler where
  "handleAPIScenario req s =
     (if hqMethod req = ''GET'' then
        (case with_lab Scenario s of (sc, s) \<Rightarrow> (writeJSON (VScenario sc), s))
      else if hqMethod req = ''POST'' then
        (case decode_scenario (hqBody req) of
           None \<Rightarrow> (http_error InvalidJSON 400, s)
         | Some q \<Rightarrow>
             (case with_lab (if length (sqTimeline q) > 0 then SetScenarioTimeline (sqTimeline q)
                   else SetScenarioOptions (sqName q) (sqServiceID q) (sqMuxID q) (sqDurationMin q)) s of
                (Some e, s) \<Rightarrow> (http_error (LabFailure e) 400, s)
              | (None, s) \<Rightarrow>
                  (case with_lab Scenario s of (sc, s) \<Rightarrow> (writeJSON (VScenario sc), s))))
      else (http_error MethodNotAllowed 405, s))"

definition handleAPIReset :: "rtsp_env \<Rightarrow> http_server \<Rightarrow> http_handler" where
  "handleAPIReset env hs req s =
     (if hqMethod req \<noteq> ''POST'' then (http_error MethodNotAllowed 405, s)
      else
        let s = (if hsReset hs then Server_Reset s else s);
            s = s\<lparr>srvLab := Reset (srvLab s)\<rparr>
        in case lab_status env s of
             (st, s) \<Rightarrow> (writeJSON (VLabStatus st), s))"

section \<open>Routes\<close>

definition routes :: "rtsp_env \<Rightarrow> http_server \<Rightarrow> (string \<times> http_handler) list" where
  "routes env hs =
     (let device = profDevice (CompatibilityProfile (hsConfig hs)) in
      [(''/'', handleStatus env hs), (''/index.html'', handleStatus env hs), (''/desc.xml'', handleDesc hs)]
      @ (if devDescriptionPath device \<noteq> [] \<and> devDescriptionPath device \<noteq> ''/desc.xml''
         then [(devDescriptionPath device, handleDesc hs)] else [])
      @ [(''/channels.m3u'', handleM3U hs)]
      @ (if devXSatipM3U device \<noteq> [] \<and> devXSatipM3U device \<noteq> ''/channels.m3u''
         then [(devXSatipM3U device, handleM3U hs)] else [])
      @ [(''/epg/xmltv.xml'', handleXMLTV env hs),
         (''/api/agent/context'', handleAPIAgentContext env hs),
         (''/api/status'', handleAPIStatus env hs),
         (''/api/topology'', handleAPITopology hs),
         (''/api/catalog'', handleAPICatalog),
         (''/api/muxes'', handleAPIMuxes),
         (''/api/services'', handleAPIServices),
         (''/api/tuners'', handleAPITuners env),
         (''/api/sessions'', handleAPISessions env),
         (''/api/playback/diagnostics'', handleAPIPlaybackDiagnostics env),
         (''/api/events'', handleAPIEvents env),
         (''/api/clock'', handleAPIClock env hs),
         (''/api/config/schema'', handleAPIConfigSchema),
         (''/api/schema'', handleAPISchema),
         (''/api/scenario'', handleAPIScenario),
         (''/api/reset'', handleAPIReset env hs)])"

definition serve :: "rtsp_env \<Rightarrow> http_server \<Rightarrow> http_handler" where
  "serve env hs req =
     (case map_of (routes env hs) (hqPath req) of
        Some h \<Rightarrow> h req
      | None \<Rightarrow> handleStatus env hs req)"

end
