(* ===== verification/HttpSpec.thy ===== *)
theory HttpSpec
  imports HttpServer RtspSpec
begin

text \<open>
  What the HTTP server promises: it serves exactly the contract it publishes, a client that discovers the
  simulator gets from the SSDP answer to the channel list, no request damages the sessions, and the
  hardware status adds up.
\<close>

section \<open>Routes\<close>

text \<open>The paths that a vendor profile adds.\<close>

lemma device_paths:
  "devDescriptionPath (profDevice (ForName name)) \<in> {''/desc.xml'', ''/satip_server/desc.xml'', ''/octoserve/octonet.xml''}"
  "devXSatipM3U (profDevice (ForName name)) \<in> {''/channels.m3u'', ''/channellist.m3u''}"
proof -
  have "list_all (\<lambda>p. devDescriptionPath (profDevice p) \<in> {''/desc.xml'', ''/satip_server/desc.xml'', ''/octoserve/octonet.xml''}
      \<and> devXSatipM3U (profDevice p) \<in> {''/channels.m3u'', ''/channellist.m3u''}) profiles"
    by (simp add: profiles_def vendor_profiles)
  then show "devDescriptionPath (profDevice (ForName name)) \<in> {''/desc.xml'', ''/satip_server/desc.xml'', ''/octoserve/octonet.xml''}"
    "devXSatipM3U (profDevice (ForName name)) \<in> {''/channels.m3u'', ''/channellist.m3u''}"
    using ForName_member [of name] by (simp_all add: list_all_iff)
qed

lemma profile_cases:
  obtains name where "CompatibilityProfile cfg = ForName name"
  by (metis CompatibilityProfile_def)

text \<open>A fixed route is not shadowed by one of a profile.\<close>

definition fixed_routes :: "rtsp_env \<Rightarrow> http_server \<Rightarrow> (string \<times> http_handler) list" where
  "fixed_routes env hs =
     [(''/epg/xmltv.xml'', handleXMLTV env hs),
      (''/api/agent/context'', handleAPIAgentContext env hs),
      (''/api/status'', handleAPIStatus env hs),
      (''/api/topology'', handleAPITopology hs),
      (''/api/catalog'', handleAPICatalog),
      (''/api/muxes'', handleAPIMuxes),
      (''/api/services'', handleAPIServices),
      (''/api/tuners'', handleAPITuners env),
      (''/api/sessions'', handleAPISessions env),
      (''/api/playback/diagnostics'', handleAPIPlaybackDiagnostics env),
      (''/api/events'', handleAPIEvents env),
      (''/api/clock'', handleAPIClock env hs),
      (''/api/config/schema'', handleAPIConfigSchema),
      (''/api/schema'', handleAPISchema),
      (''/api/scenario'', handleAPIScenario),
      (''/api/reset'', handleAPIReset env hs)]"

lemma routes_split:
  obtains front where "routes env hs = front @ fixed_routes env hs"
    "fst ` set front \<subseteq> {''/'', ''/index.html'', ''/desc.xml'', ''/channels.m3u'', ''/satip_server/desc.xml'',
       ''/octoserve/octonet.xml'', ''/channellist.m3u''}"
proof -
  obtain name where name: "CompatibilityProfile (hsConfig hs) = ForName name" by (rule profile_cases)
  let ?d = "profDevice (ForName name)"
  let ?front = "[(''/'', handleStatus env hs), (''/index.html'', handleStatus env hs), (''/desc.xml'', handleDesc hs)]
    @ (if devDescriptionPath ?d \<noteq> [] \<and> devDescriptionPath ?d \<noteq> ''/desc.xml'' then [(devDescriptionPath ?d, handleDesc hs)] else [])
    @ [(''/channels.m3u'', handleM3U hs)]
    @ (if devXSatipM3U ?d \<noteq> [] \<and> devXSatipM3U ?d \<noteq> ''/channels.m3u'' then [(devXSatipM3U ?d, handleM3U hs)] else [])"
  have "routes env hs = ?front @ fixed_routes env hs"
    unfolding routes_def name fixed_routes_def Let_def append_assoc ..
  moreover have "fst ` set ?front \<subseteq> {''/'', ''/index.html'', ''/desc.xml'', ''/channels.m3u'', ''/satip_server/desc.xml'',
       ''/octoserve/octonet.xml'', ''/channellist.m3u''}"
    using device_paths [of name] by auto
  ultimately show thesis by (rule that)
qed

lemma serve_fixed:
  assumes "(path, h) \<in> set (fixed_routes env hs)"
  shows "serve env hs \<lparr>hqMethod = verb, hqPath = path, hqBody = body\<rparr> =
    h \<lparr>hqMethod = verb, hqPath = path, hqBody = body\<rparr>"
proof -
  obtain front where front: "routes env hs = front @ fixed_routes env hs"
    "fst ` set front \<subseteq> {''/'', ''/index.html'', ''/desc.xml'', ''/channels.m3u'', ''/satip_server/desc.xml'',
       ''/octoserve/octonet.xml'', ''/channellist.m3u''}" by (rule routes_split)
  have "path \<notin> {''/'', ''/index.html'', ''/desc.xml'', ''/channels.m3u'', ''/satip_server/desc.xml'',
       ''/octoserve/octonet.xml'', ''/channellist.m3u''}"
    using assms by (auto simp: fixed_routes_def)
  then have "map_of front path = None" using front(2) by (auto simp: map_of_eq_None_iff)
  moreover have "map_of (fixed_routes env hs) path = Some h"
    using assms by (intro map_of_is_SomeI) (simp_all add: fixed_routes_def)
  ultimately show ?thesis by (simp add: serve_def front(1) map_add_def)
qed

section \<open>The contract\<close>

lemmas get_handlers = handleXMLTV_def [abs_def] handleAPIAgentContext_def [abs_def] handleAPIStatus_def [abs_def]
  handleAPITopology_def [abs_def] handleAPICatalog_def [abs_def] handleAPIMuxes_def [abs_def]
  handleAPIServices_def [abs_def] handleAPITuners_def [abs_def] handleAPISessions_def [abs_def]
  handleAPIPlaybackDiagnostics_def [abs_def] handleAPIEvents_def [abs_def] handleAPIClock_def [abs_def]
  handleAPIConfigSchema_def [abs_def] handleAPISchema_def [abs_def]

lemmas responses = ok_response_def http_error_def writeJSON_def

text \<open>Which methods a fixed route allows.\<close>

definition allows :: "string list \<Rightarrow> http_handler \<Rightarrow> bool" where
  "allows verbs h \<longleftrightarrow> (\<forall>req s. (hrStatus (fst (h req s)) = 405) = (hqMethod req \<notin> set verbs))"

lemma allows_get:
  "(\<And>s. hrStatus (fst (k s)) \<noteq> 405) \<Longrightarrow> allows [''GET''] (requireMethod ''GET'' k)"
  by (simp add: allows_def requireMethod_def http_error_def)

lemma allows_handlers:
  "allows [''GET''] (handleXMLTV env hs)" "allows [''GET''] (handleAPIAgentContext env hs)"
  "allows [''GET''] (handleAPIStatus env hs)" "allows [''GET''] (handleAPITopology hs)"
  "allows [''GET''] handleAPICatalog" "allows [''GET''] handleAPIMuxes" "allows [''GET''] handleAPIServices"
  "allows [''GET''] (handleAPITuners env)" "allows [''GET''] (handleAPISessions env)"
  "allows [''GET''] (handleAPIPlaybackDiagnostics env)" "allows [''GET''] (handleAPIEvents env)"
  "allows [''GET''] (handleAPIClock env hs)" "allows [''GET''] handleAPIConfigSchema"
  "allows [''GET''] handleAPISchema"
  unfolding get_handlers
  by (rule allows_get; auto simp: responses split: prod.split sum.split)+

lemma allows_scenario: "allows [''GET'', ''POST''] handleAPIScenario"
  by (auto simp: allows_def handleAPIScenario_def responses split: option.split prod.split)

lemma allows_reset: "allows [''POST''] (handleAPIReset env hs)"
  by (auto simp: allows_def handleAPIReset_def responses Let_def split: prod.split)

lemma allows_fixed:
  "list_all2 (\<lambda>(path, h) verbs. allows verbs h) (fixed_routes env hs)
     (replicate 14 [''GET''] @ [[''GET'', ''POST''], [''POST'']])"
  by (simp add: fixed_routes_def eval_nat_numeral allows_handlers allows_scenario allows_reset)


definition no_body :: json_body where
  "no_body = \<lparr>jbValue = None, jbRest = AtEnd\<rparr>"

section \<open>Requests and the sessions\<close>

text \<open>A calm change keeps the invariant and every session on both sides.\<close>

definition calm :: "server \<Rightarrow> server \<Rightarrow> bool" where
  "calm s s' \<longleftrightarrow> ok_to s s' \<and> srvSessions s' = srvSessions s \<and> mSessions (srvLab s') = mSessions (srvLab s)"

lemma calm_refl [simp, intro]: "calm s s"
  by (simp add: calm_def)

lemma calm_trans: "calm s t \<Longrightarrow> calm t u \<Longrightarrow> calm s u"
  by (auto simp: calm_def intro: ok_trans)

lemma calm_with:
  assumes "with_lab f s = (r, s')" "quiet_step (srvLab s) (snd (f (srvLab s)))"
    "mSessions (snd (f (srvLab s))) = mSessions (srvLab s)"
  shows "calm s s'"
  using ok_with [OF assms(1,2)] assms(1,3) by (auto simp: calm_def with_lab_def split: prod.splits)

lemma calm_Scenario: "with_lab Scenario s = (sc, s') \<Longrightarrow> calm s s'"
  by (erule calm_with) (simp_all add: quiet_Scenario registry_frame)

lemma calm_status: "lab_status env s = (st, s') \<Longrightarrow> calm s s'"
  unfolding lab_status_def by (erule calm_with) (simp_all add: quiet_Status registry_frame)

lemma calm_now: "srv_now s = (now, s') \<Longrightarrow> calm s s'"
  using ok_now [of s now s'] by (auto simp: calm_def srv_now_def time_now_def)

lemma calm_http_status: "http_status_of env hs s = (st, s') \<Longrightarrow> calm s s'"
  by (auto simp: http_status_of_def split: prod.splits intro: calm_trans [OF calm_status calm_now])

lemma calm_diagnostics: "playbackDiagnostics env s = (ds, s') \<Longrightarrow> calm s s'"
  by (auto simp: playbackDiagnostics_def split: prod.splits intro: calm_trans [OF calm_status calm_Scenario])

lemma calm_context: "with_lab (buildAgentContext cfg order) s = (ctx, s') \<Longrightarrow> calm s s'"
proof -
  assume a: "with_lab (buildAgentContext cfg order) s = (ctx, s')"
  let ?m = "snd (Status (order (mSessions (srvLab s))) (srvLab s))"
  have m: "snd (buildAgentContext cfg order (srvLab s)) = snd (Scenario ?m)"
    by (simp add: buildAgentContext_def Let_def split: prod.splits)
  have "calm s (s\<lparr>srvLab := ?m\<rparr>)"
    using ok_quiet [OF quiet_Status] by (simp add: calm_def registry_frame)
  moreover have "calm (s\<lparr>srvLab := ?m\<rparr>) (s\<lparr>srvLab := snd (Scenario ?m)\<rparr>)"
    using ok_quiet [OF quiet_Scenario, of "s\<lparr>srvLab := ?m\<rparr>"] by (simp add: calm_def registry_frame)
  moreover have "s' = s\<lparr>srvLab := snd (Scenario ?m)\<rparr>"
    using a m by (auto simp: with_lab_def split: prod.splits)
  ultimately show ?thesis using calm_trans by blast
qed

lemma calm_scenario_change:
  "with_lab (if b then SetScenarioTimeline steps else SetScenarioOptions name sid mx dur) s = (r, s') \<Longrightarrow> calm s s'"
  by (erule calm_with) (simp_all add: quiet_SetScenario quiet_SetTimeline registry_frame)

lemmas calms = calm_Scenario calm_status calm_now calm_http_status calm_diagnostics calm_context calm_scenario_change

text \<open>A handler that is calm on every request.\<close>

definition calm_handler :: "http_handler \<Rightarrow> bool" where
  "calm_handler h \<longleftrightarrow> (\<forall>req s. calm s (snd (h req s)))"

lemma calm_require: "(\<And>s. calm s (snd (k s))) \<Longrightarrow> calm_handler (requireMethod verb k)"
  by (simp add: calm_handler_def requireMethod_def)

lemma calm_get_handlers:
  "calm_handler (handleXMLTV env hs)" "calm_handler (handleAPIAgentContext env hs)"
  "calm_handler (handleAPIStatus env hs)" "calm_handler (handleAPITopology hs)"
  "calm_handler handleAPICatalog" "calm_handler handleAPIMuxes" "calm_handler handleAPIServices"
  "calm_handler (handleAPITuners env)" "calm_handler (handleAPISessions env)"
  "calm_handler (handleAPIPlaybackDiagnostics env)" "calm_handler (handleAPIEvents env)"
  "calm_handler (handleAPIClock env hs)" "calm_handler handleAPIConfigSchema" "calm_handler handleAPISchema"
  unfolding get_handlers
  by (rule calm_require; auto split: prod.split sum.split intro: calms)+

lemma calm_pages:
  "calm_handler (handleStatus env hs)" "calm_handler (handleDesc hs)" "calm_handler (handleM3U hs)"
  by (auto simp: calm_handler_def handleStatus_def handleDesc_def handleM3U_def split: prod.split
      intro: calms calm_trans [OF calm_http_status calm_Scenario])

lemma calm_scenario_handler: "calm_handler handleAPIScenario"
  unfolding calm_handler_def handleAPIScenario_def
  by (auto split: prod.split option.split intro: calms calm_trans [OF calm_scenario_change calm_Scenario])

lemma calm_routes:
  assumes "(path, h) \<in> set (routes env hs)" "path \<noteq> ''/api/reset''"
  shows "calm_handler h"
  using assms unfolding routes_def Let_def
  by (auto simp: calm_get_handlers calm_pages calm_scenario_handler split: if_splits)

lemma reset_effect:
  assumes "lab_status env ((Server_Reset s)\<lparr>srvLab := Reset (srvLab s)\<rparr>) = (st, s')"
  shows "ok_to s s'" "srvSessions s' = {}" "mSessions (srvLab s') = Map.empty"
proof -
  note c = calm_status [OF assms]
  show "ok_to s s'" using ok_trans [OF ok_Reset] c by (simp add: calm_def)
  show "srvSessions s' = {}" using c by (simp add: calm_def Server_Reset_def)
  show "mSessions (srvLab s') = Map.empty" using c by (simp add: calm_def Reset_def Let_def)
qed

lemma serve_calm:
  assumes "hqPath req \<noteq> ''/api/reset''"
  shows "calm s (snd (serve env hs req s))"
proof (cases "map_of (routes env hs) (hqPath req)")
  case None
  then show ?thesis using calm_pages(1) by (simp add: serve_def calm_handler_def)
next
  case (Some h)
  then show ?thesis
    using calm_routes [OF map_of_SomeD [OF Some] assms] by (simp add: serve_def calm_handler_def)
qed

lemma serve_reset:
  assumes "hqPath req = ''/api/reset''" "hsReset hs"
  shows "\<exists>st s'. serve env hs req s = (if hqMethod req = ''POST'' then (writeJSON (VLabStatus st), s')
      else (http_error MethodNotAllowed 405, s)) \<and>
    lab_status env ((Server_Reset s)\<lparr>srvLab := Reset (srvLab s)\<rparr>) = (st, s')"
proof -
  have "serve env hs req s = handleAPIReset env hs req s"
    using serve_fixed [of "''/api/reset''" "handleAPIReset env hs" env hs "hqMethod req" "hqBody req"] assms(1)
    by (cases req) (simp add: fixed_routes_def)
  moreover have "(Server_Reset s)\<lparr>srvLab := Reset (srvLab (Server_Reset s))\<rparr> = (Server_Reset s)\<lparr>srvLab := Reset (srvLab s)\<rparr>"
    by (simp add: Server_Reset_def)
  ultimately show ?thesis
    using assms(2) by (auto simp: handleAPIReset_def Let_def split: prod.split)
qed

text \<open>So every request keeps the invariant, and starts no session.\<close>

lemma serve_ok:
  assumes "hsReset hs"
  shows "ok_to s (snd (serve env hs req s)) \<and> srvSessions (snd (serve env hs req s)) \<subseteq> srvSessions s"
proof (cases "hqPath req = ''/api/reset''")
  case False
  then show ?thesis using serve_calm by (simp add: calm_def)
next
  case True
  then show ?thesis using serve_reset [OF True assms, of env s] by (auto dest: reset_effect(1,2) split: if_splits)
qed

text \<open>C10. An HTTP request never breaks the agreement of the RTSP server with the lab manager, and the only
  one that touches a session is \<open>POST /api/reset\<close>, which ends them all on both sides.\<close>

theorem http_requests_safe:
  assumes "server_ok s" "hsReset hs"
  shows "server_ok (snd (serve env hs req s)) \<and>
    (if hqMethod req = ''POST'' \<and> hqPath req = ''/api/reset''
     then srvSessions (snd (serve env hs req s)) = {} \<and> mSessions (srvLab (snd (serve env hs req s))) = Map.empty
     else srvSessions (snd (serve env hs req s)) = srvSessions s \<and>
       mSessions (srvLab (snd (serve env hs req s))) = mSessions (srvLab s))"
proof (cases "hqPath req = ''/api/reset''")
  case False
  then show ?thesis using serve_calm [OF False, of s env hs] assms(1) by (auto simp: calm_def ok_to_def)
next
  case True
  then show ?thesis
    using serve_reset [OF True assms(2), of env s] serve_ok [OF assms(2), of s env req] assms(1)
    by (auto simp: ok_to_def dest: reset_effect(2,3))
qed

text \<open>A node over the small lab: one request has set a session up.\<close>

definition demo_http :: http_server where
  "demo_http = NewWithTopology (FromEnvironment unset) (DefaultTopology (FromEnvironment unset)) True 0"

definition demo_loaded :: server where
  "demo_loaded = snd (snd demo_handled)"

lemma demo_loaded_ok: "server_ok demo_loaded"
proof -
  have "handled_ok demo_server (Some newConnectionState) demo_handled"
    unfolding demo_handled_def
    by (rule handle_request [OF demo_env_ok]) (simp_all add: demo_server_lab calls_ok_def newConnectionState_def)
  moreover have "server_ok demo_server"
    unfolding demo_server_def NewServer_def Let_def
    by (simp add: server_ok_def reg.agrees_def demo_lab_inv demo_lab_sessions objects_ok_def)
  moreover have "calls_ok demo_server (Some newConnectionState)"
    by (simp add: calls_ok_def newConnectionState_def)
  ultimately show ?thesis
    by (simp add: handled_ok_def demo_loaded_def case_prod_beta)
qed

theorem http_requests_safe_witness:
  "srvSessions demo_loaded = {''00000001''} \<and>
   srvSessions (snd (serve demo_env demo_http \<lparr>hqMethod = ''POST'', hqPath = ''/api/reset'', hqBody = no_body\<rparr> demo_loaded)) = {} \<and>
   srvSessions (snd (serve demo_env demo_http \<lparr>hqMethod = ''GET'', hqPath = ''/api/reset'', hqBody = no_body\<rparr> demo_loaded)) =
     {''00000001''}"
proof -
  have r: "hsReset demo_http" by (simp add: demo_http_def NewWithTopology_def)
  have l: "srvSessions demo_loaded = {''00000001''}" unfolding demo_loaded_def by (rule demo_sessions)
  show ?thesis
    using http_requests_safe [OF demo_loaded_ok r, of demo_env "\<lparr>hqMethod = ''POST'', hqPath = ''/api/reset'', hqBody = no_body\<rparr>"]
      http_requests_safe [OF demo_loaded_ok r, of demo_env "\<lparr>hqMethod = ''GET'', hqPath = ''/api/reset'', hqBody = no_body\<rparr>"] l
    by simp
qed

section \<open>The hardware status\<close>

lemma status_reports:
  assumes "http_status_of env hs s = (st, s')"
  obtains m now where "quiet_step (srvLab s) m" "mSessions m = mSessions (srvLab s)"
    "statTuners (hstLab st) = mTuners m" "statEvents (hstLab st) = mEvents m"
    "statSessions (hstLab st) = sort_key sesID (List.map_filter (mSessions m) (envOrder env (mSessions m)))"
    "hstHardware st = hardwareStatus hs (hstLab st) now"
proof -
  let ?o = "envOrder env (mSessions (srvLab s))"
  let ?m = "snd (Status ?o (srvLab s))"
  obtain now t where now: "srv_now (s\<lparr>srvLab := ?m\<rparr>) = (now, t)" by fastforce
  have st: "hstLab st = fst (Status ?o (srvLab s))" "hstHardware st = hardwareStatus hs (hstLab st) now"
    using assms now by (auto simp: http_status_of_def lab_status_def with_lab_def split: prod.splits)
  have "mSessions ?m = mSessions (srvLab s)" by (simp add: registry_frame)
  moreover have "statTuners (fst (Status ?o (srvLab s))) = mTuners ?m" "statEvents (fst (Status ?o (srvLab s))) = mEvents ?m"
      "statSessions (fst (Status ?o (srvLab s))) = sort_key sesID (List.map_filter (mSessions ?m) ?o)"
    by (simp_all add: Status_def StatusAt_def Let_def split: prod.split)
  ultimately show thesis using that [OF quiet_Status, of ?o now] st by simp
qed

lemma length_map_filter_dom:
  "set order \<subseteq> dom f \<Longrightarrow> length (List.map_filter f order) = length order"
  by (induction order) (auto simp: List.map_filter_simps split: option.splits)

lemma count_partition:
  "(\<And>x. x \<in> set xs \<Longrightarrow> f x \<in> set [a, b, c]) \<Longrightarrow> distinct [a, b, c] \<Longrightarrow>
     length xs = count (\<lambda>x. f x = a) xs + count (\<lambda>x. f x = b) xs + count (\<lambda>x. f x = c) xs"
  by (induction xs) (auto simp: count_def)

lemma count_mono: "(\<And>x. x \<in> set xs \<Longrightarrow> P x \<Longrightarrow> Q x) \<Longrightarrow> count P xs \<le> count Q xs"
  by (induction xs) (auto simp: count_def)

lemma count_complement: "length xs = count (\<lambda>x. \<not> P x) xs + count P xs"
  by (induction xs) (auto simp: count_def)

lemma tuned_count:
  assumes "lab_inv m"
  shows "count (\<lambda>t. tunState t \<noteq> ''idle'') (mTuners m) = card (muxes_in_use m)"
proof -
  note pool = lab_pool [OF assms]
  have "distinct (mTuners m)" using pool_distinct [OF pool] by (simp add: distinct_map)
  then have "count (\<lambda>t. tunState t \<noteq> ''idle'') (mTuners m) = card (set (filter (\<lambda>t. tunState t \<noteq> ''idle'') (mTuners m)))"
    using distinct_card [of "filter (\<lambda>t. tunState t \<noteq> ''idle'') (mTuners m)"] by (simp add: count_def)
  also have "set (filter (\<lambda>t. tunState t \<noteq> ''idle'') (mTuners m)) = tuned_tuners (mTuners m)"
    using pool_shape [OF pool] by (auto simp: tuned_tuners_def tuner_shape_def)
  also have "card \<dots> = card (muxes_in_use m)"
    using card_image [OF pool_inj [OF pool]] muxes_in_use_tuned [OF assms] by simp
  finally show ?thesis .
qed

lemma frontend_locks_tuned:
  assumes "lab_inv m"
  shows "frontend_locks (mTuners m) \<le> count (\<lambda>t. tunState t \<noteq> ''idle'') (mTuners m)"
  unfolding frontend_locks_def
proof (rule count_mono)
  fix t
  assume t: "t \<in> set (mTuners m)" "feState (tunFrontend t) = FrontendLocked \<or> feState (tunFrontend t) = FrontendDegraded"
  then have "tunFrontend t \<noteq> idleFrontend" by (auto simp: idleFrontend_def frontend_names)
  then show "tunState t \<noteq> ''idle''" using pool_shape [OF lab_pool [OF assms] t(1)] by (auto simp: tuner_shape_def)
qed

text \<open>C18. The hardware status adds up: its active streams are the sessions, each counted as playing, set up
  or paused; its tuners in use are as many as there are muxes in use, never more than there are streams;
  the others are idle; no idle tuner holds a frontend lock.\<close>

theorem hardware_status_adds_up:
  assumes "server_ok s" "env_ok env" "http_status_of env hs s = (st, s')"
  shows "let hw = hstHardware st; streams = hwStreams hw; tuners = hwTuners hw; network = hwNetwork hw in
    hmActive streams = card (srvSessions s) \<and>
    hmActive streams = hmPlaying streams + hmSetup streams + hmPaused streams \<and>
    hnRTSPSessions network = hmActive streams \<and> hnRTPStreams network = hmPlaying streams \<and>
    htTotal tuners = htInUse tuners + htIdle tuners \<and>
    htInUse tuners = card (muxes_in_use (srvLab s)) \<and> htInUse tuners \<le> hmActive streams \<and>
    hnFrontendLocks network \<le> htInUse tuners \<and> hnRecentEvents network \<le> 200"
proof -
  obtain m now where m: "quiet_step (srvLab s) m" "mSessions m = mSessions (srvLab s)"
    "statTuners (hstLab st) = mTuners m" "statEvents (hstLab st) = mEvents m"
    "statSessions (hstLab st) = sort_key sesID (List.map_filter (mSessions m) (envOrder env (mSessions m)))"
    "hstHardware st = hardwareStatus hs (hstLab st) now"
    using status_reports [OF assms(3)] .
  have lab: "lab_inv m" "dom (mSessions m) = srvSessions s" "finite (srvSessions s)"
    using assms(1) reg.quiet_inv [OF m(1)] m(2) by (simp_all add: server_ok_def reg.agrees_def objects_ok_def)
  let ?ss = "statSessions (hstLab st)"
  have order: "distinct (envOrder env (mSessions m))" "set (envOrder env (mSessions m)) = srvSessions s"
    using assms(2) lab by (simp_all add: env_ok_def)
  then have active: "length ?ss = card (srvSessions s)"
    using lab(2) distinct_card [OF order(1)] by (simp add: m(5) length_map_filter_dom)
  have "sesState x \<in> set [''playing'', ''setup'', ''paused'']" if "x \<in> set ?ss" for x
    using that sessions_ok_get [OF lab_sessions [OF lab(1)]]
    by (fastforce simp: m(5) List.map_filter_def session_ok_def session_states_def)
  then have states: "length ?ss = count (\<lambda>x. sesState x = ''playing'') ?ss + count (\<lambda>x. sesState x = ''setup'') ?ss
      + count (\<lambda>x. sesState x = ''paused'') ?ss"
    by (rule count_partition) simp_all
  have muxes: "muxes_in_use m = muxes_in_use (srvLab s)" by (simp add: muxes_in_use_def m(2))
  have few: "card (muxes_in_use m) \<le> card (srvSessions s)"
    unfolding muxes_in_use_def lab(2) using lab(3) by (rule card_image_le)
  show ?thesis
    using active states tuned_count [OF lab(1)] frontend_locks_tuned [OF lab(1)] muxes few lab_events [OF lab(1)]
      count_complement [of "mTuners m" "\<lambda>t. tunState t = ''idle''"]
    by (simp add: m(6) hardwareStatus_def Let_def hardware_streams_of_def hardware_tuners_of_def m(3,4))
qed

theorem hardware_status_adds_up_witness:
  "let hw = hstHardware (fst (http_status_of demo_env demo_http demo_loaded)) in
     hmActive (hwStreams hw) = 1 \<and> hnRTSPSessions (hwNetwork hw) = 1 \<and> htInUse (hwTuners hw) \<le> 1"
  using hardware_status_adds_up [OF demo_loaded_ok demo_env_ok, of demo_http]
    demo_sessions [folded demo_loaded_def]
  by (cases "http_status_of demo_env demo_http demo_loaded") (simp add: Let_def)

section \<open>Discovery\<close>

text \<open>A line of a message, and the element of the description that names the channel list.\<close>

definition location_line :: "config \<Rightarrow> string \<Rightarrow> string" where
  "location_line cfg path = [CHR 0x0A] @ ''LOCATION: '' @ HTTPBaseURL cfg @ path @ [CHR 0x0D]"

definition m3u_element :: "string \<Rightarrow> string" where
  "m3u_element path = ''<satip:X_SATIPM3U>'' @ path @ ''</satip:X_SATIPM3U>''"

lemma announced: "contains_str (location_line cfg (devDescriptionPath (profDevice (CompatibilityProfile cfg)))) (searchResponse cfg)"
  "contains_str (location_line cfg (devDescriptionPath (profDevice (CompatibilityProfile cfg)))) (notifyMessage cfg)"
proof -
  let ?p = "CompatibilityProfile cfg"
  let ?path = "devDescriptionPath (profDevice ?p)"
  let ?line = "location_line cfg ?path"
  have "searchResponse cfg = (''HTTP/1.1 200 OK'' @ [CHR 0x0D, CHR 0x0A] @ ''CACHE-CONTROL: max-age=1800'' @ [CHR 0x0D, CHR 0x0A]
      @ ''EXT:'' @ [CHR 0x0D]) @ ?line @ ([CHR 0x0A] @ join [CHR 0x0D, CHR 0x0A] [''CONFIGID.UPNP.ORG: 1'',
        ''SERVER: '' @ ssdpServer (profSSDP ?p), ''ST: '' @ ssdpST (profSSDP ?p), ''USN: '' @ ssdpUSN (profSSDP ?p), [], []])"
    by (simp add: searchResponse_def message_lines_def DeviceDescriptionURL_def location_line_def Let_def)
  then show "contains_str ?line (searchResponse cfg)" by (simp only: contains_middle)
  have "notifyMessage cfg = (''NOTIFY * HTTP/1.1'' @ [CHR 0x0D, CHR 0x0A] @ ''HOST: 239.255.255.250:1900'' @ [CHR 0x0D, CHR 0x0A]
      @ ''CACHE-CONTROL: max-age=1800'' @ [CHR 0x0D]) @ ?line @ ([CHR 0x0A] @ join [CHR 0x0D, CHR 0x0A] [''CONFIGID.UPNP.ORG: 1'',
        ''NT: '' @ ssdpST (profSSDP ?p), ''NTS: ssdp:alive'', ''SERVER: '' @ ssdpServer (profSSDP ?p),
        ''USN: '' @ ssdpUSN (profSSDP ?p), [], []])"
    by (simp add: notifyMessage_def message_lines_def DeviceDescriptionURL_def location_line_def Let_def)
  then show "contains_str ?line (notifyMessage cfg)" by (simp only: contains_middle)
qed

text \<open>The routes of the two discovered paths.\<close>

lemma served_paths:
  "map_of (routes env hs) (devDescriptionPath (profDevice (CompatibilityProfile (hsConfig hs)))) = Some (handleDesc hs)"
  "map_of (routes env hs) (devXSatipM3U (profDevice (CompatibilityProfile (hsConfig hs)))) = Some (handleM3U hs)"
proof -
  obtain name where name: "CompatibilityProfile (hsConfig hs) = ForName name" by (rule profile_cases)
  show "map_of (routes env hs) (devDescriptionPath (profDevice (CompatibilityProfile (hsConfig hs)))) = Some (handleDesc hs)"
    using device_paths(1) [of name] by (auto simp: routes_def name Let_def)
  show "map_of (routes env hs) (devXSatipM3U (profDevice (CompatibilityProfile (hsConfig hs)))) = Some (handleM3U hs)"
    using device_paths [of name] by (auto simp: routes_def name Let_def)
qed

lemma described:
  "contains_str (m3u_element (devXSatipM3U (profDevice (ForName name)))) (BuildDeviceDescriptionXML url n (ForName name))"
proof -
  have list: "list_all (\<lambda>p. devFriendlyName (profDevice p) \<noteq> [] \<and> xmlEscape (devXSatipM3U (profDevice p)) = devXSatipM3U (profDevice p)) profiles"
    by (simp add: profiles_def vendor_profiles xmlEscape_def escape_char_def)
  let ?d = "profDevice (ForName name)"
  have d: "devFriendlyName ?d \<noteq> []" "xmlEscape (devXSatipM3U ?d) = devXSatipM3U ?d"
    using list ForName_member [of name] by (simp_all add: list_all_iff)
  let ?m = "devXSatipM3U ?d"
  have tag: "''    <satip:X_SATIPM3U>'' @ x = ''    '' @ ''<satip:X_SATIPM3U>'' @ x" for x by simp
  have element: "contains_str (a @ b @ c) (a @ b @ c @ x)" for a b c x using contains_prefix [of "a @ b @ c" x] by simp
  show ?thesis
    unfolding BuildDeviceDescriptionXML_def Let_def m3u_element_def if_not_P [OF d(1)] d(2) tag
    unfolding append_assoc by (rule element | rule contains_append)+
qed

text \<open>C19. A client that searches, or waits for the announcement, gets home: both messages carry the address
  of the device description; the server answers there with a description; the path of the channel list
  that it names is served; and what is served there is, outside the scenario of a broken list, the list
  of all services under the public address of the RTSP server.\<close>

theorem discovery_leads_home:
  "\<exists>desc list xml.
     contains_str (location_line (hsConfig hs) desc) (searchResponse (hsConfig hs)) \<and>
     contains_str (location_line (hsConfig hs) desc) (notifyMessage (hsConfig hs)) \<and>
     serve env hs \<lparr>hqMethod = ''GET'', hqPath = desc, hqBody = no_body\<rparr> s = (\<lparr>hrStatus = 200, hrBody = DeviceXML xml\<rparr>, s) \<and>
     contains_str (m3u_element list) xml \<and>
     (case with_lab Scenario s of (sc, s') \<Rightarrow>
        serve env hs \<lparr>hqMethod = ''GET'', hqPath = list, hqBody = no_body\<rparr> s =
          (\<lparr>hrStatus = 200, hrBody = M3UList
              (if scName sc = ScenarioBadM3U then bad_m3u
               else BuildM3U (cfgPublicHost (hsConfig hs)) (EffectivePublicRTSPPort (hsConfig hs))
                      (Some (Catalog_Channels (mCatalog (srvLab s)))))\<rparr>, s'))"
proof -
  obtain name where name: "CompatibilityProfile (hsConfig hs) = ForName name" by (rule profile_cases)
  let ?d = "profDevice (CompatibilityProfile (hsConfig hs))"
  let ?xml = "BuildDeviceDescriptionXML (PresentationURL (hsConfig hs)) (cfgTunerCount (hsConfig hs))
    (CompatibilityProfile (hsConfig hs))"
  obtain sc s' where sc: "with_lab Scenario s = (sc, s')" by fastforce
  then have s': "s' = s\<lparr>srvLab := snd (Scenario (srvLab s))\<rparr>" by (auto simp: with_lab_def split: prod.splits)
  have cat: "mCatalog (srvLab s') = mCatalog (srvLab s)"
    by (simp add: s' Scenario_def ScenarioAt_def time_now_def)
  show ?thesis
  proof (intro exI conjI)
    show "contains_str (location_line (hsConfig hs) (devDescriptionPath ?d)) (searchResponse (hsConfig hs))"
      by (rule announced)
    show "contains_str (location_line (hsConfig hs) (devDescriptionPath ?d)) (notifyMessage (hsConfig hs))"
      by (rule announced)
    show "serve env hs \<lparr>hqMethod = ''GET'', hqPath = devDescriptionPath ?d, hqBody = no_body\<rparr> s =
        (\<lparr>hrStatus = 200, hrBody = DeviceXML ?xml\<rparr>, s)"
      by (simp add: serve_def served_paths handleDesc_def ok_response_def)
    show "contains_str (m3u_element (devXSatipM3U ?d)) ?xml" unfolding name by (rule described)
    show "case with_lab Scenario s of (sc, s') \<Rightarrow>
        serve env hs \<lparr>hqMethod = ''GET'', hqPath = devXSatipM3U ?d, hqBody = no_body\<rparr> s =
          (\<lparr>hrStatus = 200, hrBody = M3UList
              (if scName sc = ScenarioBadM3U then bad_m3u
               else BuildM3U (cfgPublicHost (hsConfig hs)) (EffectivePublicRTSPPort (hsConfig hs))
                      (Some (Catalog_Channels (mCatalog (srvLab s)))))\<rparr>, s')"
      by (simp add: sc serve_def served_paths handleM3U_def ok_response_def cat)
  qed
qed

end
