(* ===== verification/TopologySpec.thy ===== *)
theory TopologySpec
  imports Topology
begin

text \<open>
  Which topology documents are accepted, what they are normalised to, and that normalising is final:
  a document that was accepted is accepted again and stays as it is.
\<close>

section \<open>Trimming\<close>

lemma trim_space_idem [simp]: "trim_space (trim_space s) = trim_space s"
proof -
  let ?d = "\<lambda>s. dropWhile is_space s"
  have twice: "?d (?d s) = ?d s" for s by (simp add: dropWhile_idem)
  have keeps: "?d (rev (?d (rev (?d s)))) = rev (?d (rev (?d s)))"
  proof (cases "rev (?d (rev (?d s)))")
    case (Cons c cs)
    obtain pre where pre: "rev (?d s) = pre @ ?d (rev (?d s))" by (metis takeWhile_dropWhile_id)
    then have "?d s = rev (?d (rev (?d s))) @ rev pre" by (metis rev_append rev_rev_ident)
    then have "hd (?d s) = c" "?d s \<noteq> []" using Cons by (metis append_Cons list.sel(1), metis append_Cons list.distinct(1))
    then have "\<not> is_space c" by (metis hd_dropWhile)
    then show ?thesis using Cons by simp
  qed (simp only: dropWhile.simps)
  show ?thesis unfolding trim_space_def keeps by (simp add: twice)
qed

section \<open>Profiles\<close>

lemma profileByName_facts:
  "(profileByName name \<noteq> None) = (to_lower (trim_space name) \<in> set Names)"
  "profileByName name = Some p \<Longrightarrow> profileByName (profName p) = Some p \<and> trim_space (profName p) = profName p
     \<and> profName p \<noteq> [] \<and> trim_space (devFriendlyName (profDevice p)) = devFriendlyName (profDevice p)
     \<and> devFriendlyName (profDevice p) \<noteq> []"
proof -
  show "(profileByName name \<noteq> None) = (to_lower (trim_space name) \<in> set Names)"
    by (auto simp: profileByName_def Let_def find_None_iff)
  assume p: "profileByName name = Some p"
  then obtain n where "n \<in> set Names" "p = ForName n"
    by (auto simp: profileByName_def Let_def dest: find_SomeD)
  moreover have "list_all (\<lambda>n. profName (ForName n) = n \<and> trim_space n = n \<and> to_lower n = n \<and> n \<noteq> [] \<and>
      trim_space (devFriendlyName (profDevice (ForName n))) = devFriendlyName (profDevice (ForName n)) \<and>
      devFriendlyName (profDevice (ForName n)) \<noteq> []) Names"
    by code_simp
  ultimately have n: "p = ForName n" "n \<in> set Names" "profName p = n" "trim_space n = n" "to_lower n = n" "n \<noteq> []"
    "trim_space (devFriendlyName (profDevice p)) = devFriendlyName (profDevice p)" "devFriendlyName (profDevice p) \<noteq> []"
    by (simp_all add: list_all_iff)
  have "find (\<lambda>c. c = n) xs = Some n" if "n \<in> set xs" for xs using that by (induction xs) auto
  then have "profileByName n = Some p" using n by (simp add: profileByName_def)
  with n show "profileByName (profName p) = Some p \<and> trim_space (profName p) = profName p
     \<and> profName p \<noteq> [] \<and> trim_space (devFriendlyName (profDevice p)) = devFriendlyName (profDevice p)
     \<and> devFriendlyName (profDevice p) \<noteq> []"
    by simp
qed

lemma generic_known: "profileByName NameGeneric = Some genericProfile"
  by code_simp

section \<open>Devices\<close>

definition profile_text :: "device \<Rightarrow> string" where
  "profile_text d = (if trim_space (dvcProfile d) = [] then NameGeneric else trim_space (dvcProfile d))"

definition device_valid :: "device \<Rightarrow> bool" where
  "device_valid d \<longleftrightarrow> trim_space (dvcID d) \<noteq> [] \<and>
     (trim_space (dvcProfile d) = [] \<or> to_lower (trim_space (dvcProfile d)) \<in> set Names) \<and>
     trim_space (dvcPublicHost d) \<noteq> [] \<and> 0 < dvcHTTPPort d \<and> 0 < dvcRTSPPort d \<and> 0 < dvcTuners d"

definition normal_device :: "device \<Rightarrow> device" where
  "normal_device d =
     (let p = the (profileByName (profile_text d)); host = trim_space (dvcPublicHost d);
          path = devDescriptionPath (profDevice p)
      in \<lparr>dvcID = trim_space (dvcID d),
          dvcFriendlyName = (if trim_space (dvcFriendlyName d) = [] then devFriendlyName (profDevice p)
            else trim_space (dvcFriendlyName d)),
          dvcProfile = profName p, dvcPublicHost = host, dvcHTTPPort = dvcHTTPPort d,
          dvcRTSPPort = dvcRTSPPort d, dvcTuners = dvcTuners d,
          dvcLocation = (if trim_space (dvcLocation d) = []
            then ''http://'' @ host @ '':'' @ itoa (dvcHTTPPort d) @ path else dvcLocation d),
          dvcStaleLocation = dvcStaleLocation d, dvcDescriptionPath = path\<rparr>)"

lemma profile_text_known:
  "(profileByName (profile_text d) \<noteq> None) =
     (trim_space (dvcProfile d) = [] \<or> to_lower (trim_space (dvcProfile d)) \<in> set Names)"
  using generic_known profileByName_facts(1) [of "trim_space (dvcProfile d)"] by (simp add: profile_text_def)

lemma device_result:
  "if device_valid d \<and> trim_space (dvcID d) \<notin> set seen then normalize_device seen i d = (normal_device d, None)
   else snd (normalize_device seen i d) \<noteq> None"
proof (cases "profileByName (profile_text d)")
  case None
  then show ?thesis
    using profile_text_known [of d]
    by (cases d) (auto simp: device_valid_def normalize_device_def Let_def profile_text_def)
next
  case (Some p)
  then show ?thesis
    using profile_text_known [of d]
    by (cases d) (auto simp: device_valid_def normalize_device_def normal_device_def Let_def profile_text_def)
qed

lemma device_settled:
  assumes "device_valid d"
  shows "device_valid (normal_device d)" "normal_device (normal_device d) = normal_device d"
    "dvcID (normal_device d) = trim_space (dvcID d)"
proof -
  obtain p where p: "profileByName (profile_text d) = Some p"
    using assms profile_text_known [of d] by (auto simp: device_valid_def)
  note f = profileByName_facts(2) [OF p]
  have "dvcProfile (normal_device d) = profName p" by (simp add: normal_device_def p Let_def)
  then have n: "profile_text (normal_device d) = profName p" using f by (simp add: profile_text_def)
  have "profileByName (profile_text (normal_device d)) \<noteq> None" using f n by simp
  then show "device_valid (normal_device d)"
    using assms profile_text_known [of "normal_device d"] by (simp add: device_valid_def normal_device_def Let_def)
  show "dvcID (normal_device d) = trim_space (dvcID d)" by (simp add: normal_device_def Let_def)
  have loc: "trim_space (CHR ''h'' # x) \<noteq> []" for x
    by (simp add: trim_space_def is_space_def)
  have e: "dvcID e = trim_space (dvcID d)" "dvcPublicHost e = trim_space (dvcPublicHost d)"
    "dvcProfile e = profName p" "dvcDescriptionPath e = devDescriptionPath (profDevice p)"
    "trim_space (dvcFriendlyName e) = dvcFriendlyName e" "dvcFriendlyName e \<noteq> []"
    "trim_space (dvcLocation e) \<noteq> []" if "e = normal_device d" for e
    using f loc by (simp_all add: that normal_device_def p Let_def)
  show "normal_device (normal_device d) = normal_device d"
    using f n e [OF refl] unfolding normal_device_def [of "normal_device d"] Let_def
    by (intro device.equality) simp_all
qed

section \<open>Documents\<close>

definition document_valid :: "document \<Rightarrow> bool" where
  "document_valid doc \<longleftrightarrow> docDevices doc \<noteq> [] \<and> distinct (map (\<lambda>d. trim_space (dvcID d)) (docDevices doc)) \<and>
     list_all device_valid (docDevices doc)"

definition normal_document :: "document \<Rightarrow> document" where
  "normal_document doc = doc\<lparr>docDevices := map normal_device (docDevices doc)\<rparr>"

lemma devices_result:
  "if distinct (map (\<lambda>d. trim_space (dvcID d)) ds) \<and> (\<forall>d\<in>set ds. trim_space (dvcID d) \<notin> set seen) \<and> list_all device_valid ds
   then normalize_devices seen i ds = (map normal_device ds, None)
   else snd (normalize_devices seen i ds) \<noteq> None"
proof (induction ds arbitrary: seen i)
  case (Cons d ds)
  obtain d' e where n: "normalize_device seen i d = (d', e)" by fastforce
  show ?case
  proof (cases "device_valid d \<and> trim_space (dvcID d) \<notin> set seen")
    case True
    then have "d' = normal_device d" "e = None" "dvcID d' = trim_space (dvcID d)"
      using device_result [of d seen i] n device_settled(3) [of d] by auto
    then have step: "normalize_devices seen i (d # ds) =
        (case normalize_devices (trim_space (dvcID d) # seen) (Suc i) ds of (ds', e) \<Rightarrow> (normal_device d # ds', e))"
      using n by simp
    have fresh: "(\<forall>x\<in>set ds. trim_space (dvcID x) \<notin> set (trim_space (dvcID d) # seen)) =
        (trim_space (dvcID d) \<notin> (\<lambda>d. trim_space (dvcID d)) ` set ds \<and> (\<forall>x\<in>set ds. trim_space (dvcID x) \<notin> set seen))"
      by (auto simp: image_iff)
    show ?thesis
      unfolding step using True Cons.IH [of "trim_space (dvcID d) # seen" "Suc i", unfolded fresh]
      by (cases "normalize_devices (trim_space (dvcID d) # seen) (Suc i) ds") (auto split: if_splits)
  next
    case False
    then show ?thesis
      using device_result [of d seen i] n by (auto split: prod.splits option.splits)
  qed
qed simp

lemma document_accepted:
  "if document_valid doc then NormalizeAndValidate doc = (normal_document doc, None)
   else snd (NormalizeAndValidate doc) \<noteq> None"
  using devices_result [of "docDevices doc" "[]" 0]
  by (auto simp: document_valid_def NormalizeAndValidate_def normal_document_def split: prod.splits)

lemma document_settled:
  assumes "document_valid doc"
  shows "document_valid (normal_document doc)" "normal_document (normal_document doc) = normal_document doc"
proof -
  have valid: "\<forall>d\<in>set (docDevices doc). device_valid d" using assms by (simp add: document_valid_def list_all_iff)
  then have ids: "map (\<lambda>d. trim_space (dvcID d)) (map normal_device (docDevices doc)) =
      map (\<lambda>d. trim_space (dvcID d)) (docDevices doc)"
    by (simp add: device_settled(3))
  have "distinct (map (\<lambda>d. trim_space (dvcID d)) (map normal_device (docDevices doc)))"
    using assms unfolding ids by (simp add: document_valid_def)
  moreover have "list_all device_valid (map normal_device (docDevices doc))"
    using valid by (simp add: list_all_iff device_settled)
  moreover have "map normal_device (map normal_device (docDevices doc)) = map normal_device (docDevices doc)"
    using valid by (simp add: device_settled)
  ultimately show "document_valid (normal_document doc)" "normal_document (normal_document doc) = normal_document doc"
    using assms unfolding document_valid_def normal_document_def by (simp_all del: map_map)
qed

lemma normalized_document:
  "NormalizeAndValidate raw = (doc, None) \<Longrightarrow> document_valid doc \<and> normal_document doc = doc"
  using document_accepted [of raw] document_settled [of raw] by (auto split: if_splits)

text \<open>C24. A topology is accepted exactly when it has devices, under distinct ids, each with an id, a known or no
  vendor profile, a public host and positive ports and tuners. It is then normalised device by device,
  and normalising it again accepts it and changes nothing.\<close>

theorem topology_accepted:
  "if document_valid doc
   then NormalizeAndValidate doc = (normal_document doc, None) \<and>
     NormalizeAndValidate (normal_document doc) = (normal_document doc, None)
   else snd (NormalizeAndValidate doc) \<noteq> None"
  using document_accepted [of doc] document_accepted [of "normal_document doc"] document_settled [of doc]
  by (auto split: if_splits)

end
