(* ===== verification/Compat.thy ===== *)
theory Compat
  imports Json
begin

text \<open>
  The compatibility corpus (\<open>internal/compatibility\<close>): trace evidence as JSON (\<open>evidence.go\<close>) and the
  profiles as YAML (\<open>profile.go\<close>). JSON is decoded as in \<open>Json\<close>; YAML is a parameter: what
  \<open>yaml.v3\<close> makes of a body as a node and as a document.
\<close>

section \<open>Documents\<close>

record trace_source =
  tsLabel :: string
  tsURL :: string

record observed_behavior =
  obRTSPMethods :: "string list"
  obSessionHeader :: string
  obTransportHeader :: string
  obSessionIDFormat :: string
  obSetupIncludesTimeout :: "bool option"
  obRequiresDescribeBeforeSetup :: "bool option"
  obTunerBusyStatus :: string
  obNoSignalStatus :: string
  obTimingNotes :: string

record simulator_evidence =
  seImplementedBehavior :: "string list"
  seNotes :: string

record trace_evidence =
  teProfile :: string
  teConfidence :: string
  teSource :: trace_source
  teObserved :: observed_behavior
  teSimulator :: simulator_evidence

record behavior_document =
  bhRTSPMethods :: "string list"
  bhSessionHeader :: string
  bhTransportHeader :: string
  bhSessionIDFormat :: string
  bhSetupIncludesTimeout :: "bool option"
  bhRequiresDescribeBeforeSetup :: "bool option"
  bhTunerBusyStatus :: string
  bhNoSignalStatus :: string
  bhTimingNotes :: string

definition no_evidence :: trace_evidence where
  "no_evidence = \<lparr>teProfile = [], teConfidence = [], teSource = \<lparr>tsLabel = [], tsURL = []\<rparr>,
     teObserved = \<lparr>obRTSPMethods = [], obSessionHeader = [], obTransportHeader = [], obSessionIDFormat = [],
       obSetupIncludesTimeout = None, obRequiresDescribeBeforeSetup = None, obTunerBusyStatus = [],
       obNoSignalStatus = [], obTimingNotes = []\<rparr>,
     teSimulator = \<lparr>seImplementedBehavior = [], seNotes = []\<rparr>\<rparr>"

datatype evidence_error =
    Malformed | Undecodable json_error | TrailingJSON
  | MissingEvidence "string list" | NotTraceBacked | Unencodable

text \<open>The fields and their decoders.\<close>

definition source_fields :: "trace_source field list" where
  "source_fields = [field_of ''label'' decode_string tsLabel tsLabel_update, field_of ''url'' decode_string tsURL tsURL_update]"

definition observed_fields :: "observed_behavior field list" where
  "observed_fields =
     [field_of ''rtsp_methods'' decode_strings obRTSPMethods obRTSPMethods_update,
      field_of ''session_header'' decode_string obSessionHeader obSessionHeader_update,
      field_of ''transport_header'' decode_string obTransportHeader obTransportHeader_update,
      field_of ''session_id_format'' decode_string obSessionIDFormat obSessionIDFormat_update,
      field_of ''setup_includes_timeout'' decode_bool obSetupIncludesTimeout obSetupIncludesTimeout_update,
      field_of ''requires_describe_before_setup'' decode_bool obRequiresDescribeBeforeSetup
        obRequiresDescribeBeforeSetup_update,
      field_of ''tuner_busy_status'' decode_string obTunerBusyStatus obTunerBusyStatus_update,
      field_of ''no_signal_status'' decode_string obNoSignalStatus obNoSignalStatus_update,
      field_of ''timing_notes'' decode_string obTimingNotes obTimingNotes_update]"

definition simulator_fields :: "simulator_evidence field list" where
  "simulator_fields =
     [field_of ''implemented_behavior'' decode_strings seImplementedBehavior seImplementedBehavior_update,
      field_of ''notes'' decode_string seNotes seNotes_update]"

definition evidence_fields :: "trace_evidence field list" where
  "evidence_fields =
     [field_of ''profile'' decode_string teProfile teProfile_update,
      field_of ''confidence'' decode_string teConfidence teConfidence_update,
      field_of ''source'' (\<lambda>name. decode_object True name source_fields) teSource teSource_update,
      field_of ''observed'' (\<lambda>name. decode_object True name observed_fields) teObserved teObserved_update,
      field_of ''simulator'' (\<lambda>name. decode_object True name simulator_fields) teSimulator teSimulator_update]"

definition parseTraceEvidence :: "json_body \<Rightarrow> evidence_error + trace_evidence" where
  "parseTraceEvidence body =
     (case jbValue body of
        None \<Rightarrow> Inl Malformed
      | Some v \<Rightarrow>
          (case decode_object True [] evidence_fields v no_evidence of
             (_, Some e) \<Rightarrow> Inl (Undecodable e)
           | (doc, None) \<Rightarrow> if has_more (jbRest body) then Inl TrailingJSON else Inr doc))"

section \<open>Trace evidence\<close>

definition require :: "string \<Rightarrow> string \<Rightarrow> string list \<Rightarrow> string list" where
  "require value field missing = (if trim_space value = [] then missing @ [field] else missing)"

fun value_at :: "json \<Rightarrow> string list \<Rightarrow> json option" where
  "value_at v [] = Some v"
| "value_at v (part # path) =
     (case v of JObject ms \<Rightarrow> (case member ms part of None \<Rightarrow> None | Some w \<Rightarrow> value_at w path) | _ \<Rightarrow> None)"

definition jsonValueAt :: "json_body \<Rightarrow> string list \<Rightarrow> json option" where
  "jsonValueAt body path = (case unmarshal body of None \<Rightarrow> None | Some v \<Rightarrow> value_at v path)"

definition jsonFieldPresent :: "json_body \<Rightarrow> string list \<Rightarrow> bool" where
  "jsonFieldPresent body path \<longleftrightarrow> jsonValueAt body path \<noteq> None"

definition is_string :: "json \<Rightarrow> bool" where
  "is_string v = (case v of JString _ \<Rightarrow> True | _ \<Rightarrow> False)"

definition jsonStringArrayField :: "json_body \<Rightarrow> string list \<Rightarrow> bool" where
  "jsonStringArrayField body path =
     (case jsonValueAt body path of Some (JArray vs) \<Rightarrow> list_all is_string vs | _ \<Rightarrow> False)"

definition behaviorFromObserved :: "observed_behavior \<Rightarrow> behavior_document" where
  "behaviorFromObserved o' =
     \<lparr>bhRTSPMethods = obRTSPMethods o', bhSessionHeader = obSessionHeader o',
      bhTransportHeader = obTransportHeader o', bhSessionIDFormat = obSessionIDFormat o',
      bhSetupIncludesTimeout = obSetupIncludesTimeout o',
      bhRequiresDescribeBeforeSetup = obRequiresDescribeBeforeSetup o',
      bhTunerBusyStatus = obTunerBusyStatus o', bhNoSignalStatus = obNoSignalStatus o',
      bhTimingNotes = obTimingNotes o'\<rparr>"

definition isNonSpec :: "behavior_document \<Rightarrow> bool" where
  "isNonSpec b =
     (if bhSessionHeader b \<noteq> [] \<and> bhSessionHeader b \<noteq> ''Session'' then True
      else if bhTransportHeader b \<noteq> [] \<and> bhTransportHeader b \<noteq> ''Transport'' then True
      else if bhSessionIDFormat b \<noteq> [] \<and> bhSessionIDFormat b \<noteq> ''numeric'' then True
      else if bhSetupIncludesTimeout b = Some False then True
      else if bhRequiresDescribeBeforeSetup b = Some True then True
      else if bhTunerBusyStatus b \<noteq> ''503 Service Unavailable'' then True
      else if bhNoSignalStatus b \<noteq> ''503 Service Unavailable'' then True
      else False)"

definition traceBacked :: "string \<Rightarrow> bool" where
  "traceBacked confidence \<longleftrightarrow> trim_space confidence \<in> set [''captured-trace'', ''owned-hardware'']"

definition implemented_path :: "string list" where
  "implemented_path = [''simulator'', ''implemented_behavior'']"

definition missing_evidence :: "json_body \<Rightarrow> trace_evidence \<Rightarrow> string list" where
  "missing_evidence body doc =
     (let o' = teObserved doc;
          missing = require (teProfile doc) ''profile'' [];
          missing = require (teConfidence doc) ''confidence'' missing;
          missing = require (tsLabel (teSource doc)) ''source.label'' missing;
          missing = require (tsURL (teSource doc)) ''source.url'' missing;
          missing = (if obRTSPMethods o' = [] then missing @ [''observed.rtsp_methods''] else missing);
          missing = require (obSessionHeader o') ''observed.session_header'' missing;
          missing = require (obTransportHeader o') ''observed.transport_header'' missing;
          missing = require (obSessionIDFormat o') ''observed.session_id_format'' missing;
          missing = (if obSetupIncludesTimeout o' = None then missing @ [''observed.setup_includes_timeout''] else missing);
          missing = (if obRequiresDescribeBeforeSetup o' = None
            then missing @ [''observed.requires_describe_before_setup''] else missing);
          missing = require (obTunerBusyStatus o') ''observed.tuner_busy_status'' missing;
          missing = require (obNoSignalStatus o') ''observed.no_signal_status'' missing;
          missing = require (obTimingNotes o') ''observed.timing_notes'' missing
      in if \<not> jsonFieldPresent body implemented_path then missing @ [''simulator.implemented_behavior'']
         else if \<not> jsonStringArrayField body implemented_path
         then missing @ [''simulator.implemented_behavior must be an array'']
         else missing)"

definition ValidateTraceEvidence :: "json_body \<Rightarrow> evidence_error option" where
  "ValidateTraceEvidence body =
     (case parseTraceEvidence body of
        Inl e \<Rightarrow> Some e
      | Inr doc \<Rightarrow>
          if missing_evidence body doc \<noteq> [] then Some (MissingEvidence (missing_evidence body doc))
          else if isNonSpec (behaviorFromObserved (teObserved doc)) \<and> \<not> traceBacked (teConfidence doc)
          then Some NotTraceBacked else None)"

definition parseAndValidateTraceEvidence :: "json_body \<Rightarrow> evidence_error + trace_evidence" where
  "parseAndValidateTraceEvidence body =
     (case ValidateTraceEvidence body of Some e \<Rightarrow> Inl e | None \<Rightarrow> parseTraceEvidence body)"

definition TraceEvidenceBehaviorYAML ::
  "(string \<times> behavior_document \<Rightarrow> 'y option) \<Rightarrow> json_body \<Rightarrow> evidence_error + 'y" where
  "TraceEvidenceBehaviorYAML marshal body =
     (case parseAndValidateTraceEvidence body of
        Inl e \<Rightarrow> Inl e
      | Inr doc \<Rightarrow>
          (case marshal (''behavior'', behaviorFromObserved (teObserved doc)) of
             None \<Rightarrow> Inl Unencodable
           | Some out \<Rightarrow> Inr out))"


section \<open>Profiles\<close>

record model_document =
  mdManufacturer :: string
  mdName :: string

record source_document =
  sdLabel :: string
  sdURL :: string

record desc_xml_document =
  dxFriendlyName :: string
  dxManufacturer :: string
  dxModelName :: string
  dxModelNumber :: string
  dxUDN :: string
  dxDescriptionPath :: string
  dxXSatipCAP :: string
  dxXSatipM3U :: string

record ssdp_document =
  dsServer :: string
  dsST :: string
  dsUSN :: string

record simulator_document =
  mrRuntimeProfile :: string
  mrImplementedScope :: string

record profile_document =
  pdocProfile :: string
  pdocModel :: model_document
  pdocSource :: "source_document list"
  pdocConfidence :: string
  pdocDescXML :: desc_xml_document
  pdocSSDPHeaders :: ssdp_document
  pdocM3USample :: string
  pdocRTSPTranscript :: string
  pdocKnownQuirks :: "string list"
  pdocSupportedMethods :: "string list"
  pdocTunerBehavior :: string
  pdocPlaybackNotes :: string
  pdocBehavior :: "behavior_document option"
  pdocSimulator :: simulator_document

text \<open>A YAML node: the value of a scalar (empty for the other kinds), and the keys and values of a mapping.\<close>

datatype yaml_node = Mapping "(string \<times> yaml_node) list" | OtherNode

record 'y yaml_lib =
  ylNode :: "'y \<Rightarrow> yaml_node option option"
  ylProfile :: "'y \<Rightarrow> profile_document option"

text \<open>\<open>recordFields\<close>: the paths of all keys.\<close>

fun recordFields :: "string \<Rightarrow> yaml_node \<Rightarrow> string list" and
  recordMembers :: "string \<Rightarrow> (string \<times> yaml_node) list \<Rightarrow> string list" where
  "recordFields pre OtherNode = []"
| "recordFields pre (Mapping ms) = recordMembers pre ms"
| "recordMembers pre [] = []"
| "recordMembers pre ((key, v) # ms) =
     (let path = (if pre \<noteq> [] then pre @ ''.'' @ key else key)
      in path # recordFields path v @ recordMembers pre ms)"

definition presentFields :: "'y yaml_lib \<Rightarrow> 'y \<Rightarrow> string list option" where
  "presentFields yaml body =
     (case ylNode yaml body of
        None \<Rightarrow> None
      | Some None \<Rightarrow> Some []
      | Some (Some node) \<Rightarrow> Some (recordFields [] node))"

definition requirePresent :: "string list \<Rightarrow> string \<Rightarrow> string list \<Rightarrow> string list" where
  "requirePresent present field missing = (if field \<notin> set present then missing @ [field] else missing)"

datatype profile_error =
    NotYAML | MissingFields "string list" | BehaviorNotTraceBacked | MissingBehavior "string list"

definition missing_behavior :: "behavior_document \<Rightarrow> string list" where
  "missing_behavior b =
     (let missing = (if bhRTSPMethods b = [] then [''behavior.rtsp_methods''] else []);
          missing = require (bhSessionHeader b) ''behavior.session_header'' missing;
          missing = require (bhTransportHeader b) ''behavior.transport_header'' missing;
          missing = require (bhSessionIDFormat b) ''behavior.session_id_format'' missing;
          missing = (if bhSetupIncludesTimeout b = None then missing @ [''behavior.setup_includes_timeout''] else missing);
          missing = (if bhRequiresDescribeBeforeSetup b = None
            then missing @ [''behavior.requires_describe_before_setup''] else missing);
          missing = require (bhTunerBusyStatus b) ''behavior.tuner_busy_status'' missing;
          missing = require (bhNoSignalStatus b) ''behavior.no_signal_status'' missing
      in require (bhTimingNotes b) ''behavior.timing_notes'' missing)"

definition validateBehavior :: "string \<Rightarrow> behavior_document \<Rightarrow> profile_error option" where
  "validateBehavior confidence b =
     (if isNonSpec b \<and> \<not> traceBacked confidence then Some BehaviorNotTraceBacked
      else if missing_behavior b \<noteq> [] then Some (MissingBehavior (missing_behavior b)) else None)"

definition missing_fields :: "string list \<Rightarrow> profile_document \<Rightarrow> string list" where
  "missing_fields present doc =
     (let missing = require (pdocProfile doc) ''profile'' [];
          missing = require (mdManufacturer (pdocModel doc)) ''model.manufacturer'' missing;
          missing = require (mdName (pdocModel doc)) ''model.name'' missing;
          missing = (case pdocSource doc of
              [] \<Rightarrow> missing @ [''source'']
            | s # _ \<Rightarrow> require (sdLabel s) ''source[0].label'' missing);
          missing = require (pdocConfidence doc) ''confidence'' missing;
          missing = require (dxFriendlyName (pdocDescXML doc)) ''desc_xml.friendlyName'' missing;
          missing = require (dxManufacturer (pdocDescXML doc)) ''desc_xml.manufacturer'' missing;
          missing = require (dxModelName (pdocDescXML doc)) ''desc_xml.modelName'' missing;
          missing = requirePresent present ''desc_xml.modelNumber'' missing;
          missing = requirePresent present ''desc_xml.udn'' missing;
          missing = require (dxDescriptionPath (pdocDescXML doc)) ''desc_xml.description_path'' missing;
          missing = require (dxXSatipCAP (pdocDescXML doc)) ''desc_xml.x_satipcap'' missing;
          missing = require (dxXSatipM3U (pdocDescXML doc)) ''desc_xml.x_satipm3u'' missing;
          missing = require (dsServer (pdocSSDPHeaders doc)) ''ssdp_headers.SERVER'' missing;
          missing = require (dsST (pdocSSDPHeaders doc)) ''ssdp_headers.ST'' missing;
          missing = require (dsUSN (pdocSSDPHeaders doc)) ''ssdp_headers.USN'' missing;
          missing = requirePresent present ''m3u_sample'' missing;
          missing = requirePresent present ''rtsp_transcript'' missing;
          missing = requirePresent present ''known_quirks'' missing;
          missing = (if pdocSupportedMethods doc = [] then missing @ [''supported_methods''] else missing);
          missing = require (pdocTunerBehavior doc) ''tuner_behavior'' missing;
          missing = require (pdocPlaybackNotes doc) ''playback_notes'' missing;
          missing = require (mrRuntimeProfile (pdocSimulator doc)) ''simulator.runtime_profile'' missing
      in require (mrImplementedScope (pdocSimulator doc)) ''simulator.implemented_scope'' missing)"

definition ValidateProfile :: "'y yaml_lib \<Rightarrow> 'y \<Rightarrow> profile_error option" where
  "ValidateProfile yaml body =
     (case presentFields yaml body of
        None \<Rightarrow> Some NotYAML
      | Some present \<Rightarrow>
          (case ylProfile yaml body of
             None \<Rightarrow> Some NotYAML
           | Some doc \<Rightarrow>
               if missing_fields present doc \<noteq> [] then Some (MissingFields (missing_fields present doc))
               else (case pdocBehavior doc of
                       None \<Rightarrow> None
                     | Some b \<Rightarrow> validateBehavior (pdocConfidence doc) b)))"

datatype file_error = CannotRead | InvalidProfile string profile_error

definition ValidateProfileFile :: "'y yaml_lib \<Rightarrow> (string \<Rightarrow> 'y option) \<Rightarrow> string \<Rightarrow> file_error option" where
  "ValidateProfileFile yaml read path =
     (case read path of
        None \<Rightarrow> Some CannotRead
      | Some body \<Rightarrow> map_option (InvalidProfile path) (ValidateProfile yaml body))"

datatype dir_error = BadPattern | NoProfiles string | Failures "file_error list"

text \<open>\<open>matches\<close> is the result of \<open>filepath.Glob\<close>.\<close>

definition ValidateProfileDir ::
  "'y yaml_lib \<Rightarrow> (string \<Rightarrow> 'y option) \<Rightarrow> string \<Rightarrow> string list option \<Rightarrow> dir_error option" where
  "ValidateProfileDir yaml read dir matches =
     (case matches of
        None \<Rightarrow> Some BadPattern
      | Some paths \<Rightarrow>
          if paths = [] then Some (NoProfiles dir)
          else let failures = List.map_filter (ValidateProfileFile yaml read) paths
               in if failures \<noteq> [] then Some (Failures failures) else None)"

section \<open>A profile against its trace\<close>

datatype check_error =
    EvidenceError evidence_error | ProfileNotYAML | ProfileMismatch string string | NoBehavior
  | BehaviorMismatch | ProfileError profile_error

definition CheckProfileBehaviorAgainstTrace :: "'y yaml_lib \<Rightarrow> 'y \<Rightarrow> json_body \<Rightarrow> check_error option" where
  "CheckProfileBehaviorAgainstTrace yaml profileYAML traceJSON =
     (case parseAndValidateTraceEvidence traceJSON of
        Inl e \<Rightarrow> Some (EvidenceError e)
      | Inr trace \<Rightarrow>
          (case ylProfile yaml profileYAML of
             None \<Rightarrow> Some ProfileNotYAML
           | Some p \<Rightarrow>
               if trim_space (pdocProfile p) \<noteq> [] \<and> pdocProfile p \<noteq> teProfile trace
               then Some (ProfileMismatch (pdocProfile p) (teProfile trace))
               else (case pdocBehavior p of
                       None \<Rightarrow> Some NoBehavior
                     | Some b \<Rightarrow>
                         if b \<noteq> behaviorFromObserved (teObserved trace) then Some BehaviorMismatch
                         else map_option ProfileError (ValidateProfile yaml profileYAML))))"

end
