(* ===== verification/CompatSpec.thy ===== *)
theory CompatSpec
  imports Compat
begin

text \<open>
  When trace evidence and profiles are accepted, and that the two validations of a behaviour agree: the
  behaviour taken from accepted evidence is one that a profile may have.
\<close>

section \<open>Missing fields\<close>

lemma require_Nil [simp]: "require v field missing = [] \<longleftrightarrow> trim_space v \<noteq> [] \<and> missing = []"
  by (simp add: require_def)

lemma requirePresent_Nil [simp]: "requirePresent present field missing = [] \<longleftrightarrow> field \<in> set present \<and> missing = []"
  by (simp add: requirePresent_def)

lemma missing_behavior_Nil:
  "missing_behavior b = [] \<longleftrightarrow> bhRTSPMethods b \<noteq> [] \<and> list_all (\<lambda>v. trim_space v \<noteq> [])
     [bhSessionHeader b, bhTransportHeader b, bhSessionIDFormat b, bhTunerBusyStatus b, bhNoSignalStatus b, bhTimingNotes b] \<and>
     bhSetupIncludesTimeout b \<noteq> None \<and> bhRequiresDescribeBeforeSetup b \<noteq> None"
  by (auto simp: missing_behavior_def Let_def)

lemma missing_evidence_Nil:
  "missing_evidence body doc = [] \<longleftrightarrow> list_all (\<lambda>v. trim_space v \<noteq> [])
       [teProfile doc, teConfidence doc, tsLabel (teSource doc), tsURL (teSource doc)] \<and>
     missing_behavior (behaviorFromObserved (teObserved doc)) = [] \<and> jsonStringArrayField body implemented_path"
proof -
  have "jsonStringArrayField body path \<Longrightarrow> jsonFieldPresent body path" for path
    by (auto simp: jsonStringArrayField_def jsonFieldPresent_def split: option.splits)
  then show ?thesis
    unfolding missing_behavior_Nil
    by (auto simp: missing_evidence_def Let_def behaviorFromObserved_def)
qed

lemma array_field_end: "jsonStringArrayField body path \<Longrightarrow> jbRest body = AtEnd"
  by (auto simp: jsonStringArrayField_def jsonValueAt_def unmarshal_def split: option.splits if_splits)

lemma accepted_behavior:
  "ValidateTraceEvidence body = None \<Longrightarrow> parseTraceEvidence body = Inr doc \<Longrightarrow>
     validateBehavior (teConfidence doc) (behaviorFromObserved (teObserved doc)) = None"
  by (auto simp: ValidateTraceEvidence_def missing_evidence_Nil validateBehavior_def split: if_splits)

text \<open>Trace evidence is accepted exactly when its body is a single JSON value that decodes, with profile,
  confidence and source filled in, with an array of strings as the implemented behaviour, and with an
  observed behaviour that a profile of that confidence may have.\<close>

theorem evidence_accepted_iff:
  "(ValidateTraceEvidence body = None) =
     (case parseTraceEvidence body of Inl _ \<Rightarrow> False
      | Inr doc \<Rightarrow> jbRest body = AtEnd \<and>
          list_all (\<lambda>v. trim_space v \<noteq> []) [teProfile doc, teConfidence doc, tsLabel (teSource doc), tsURL (teSource doc)] \<and>
          jsonStringArrayField body implemented_path \<and>
          validateBehavior (teConfidence doc) (behaviorFromObserved (teObserved doc)) = None)"
  by (cases "parseTraceEvidence body")
    (auto simp: ValidateTraceEvidence_def missing_evidence_Nil validateBehavior_def dest: array_field_end)

section \<open>A profile against its trace\<close>

lemma profile_accepted:
  "(ValidateProfile yaml body = None) =
     (case (presentFields yaml body, ylProfile yaml body) of
        (Some present, Some doc) \<Rightarrow> missing_fields present doc = [] \<and>
          (case pdocBehavior doc of None \<Rightarrow> True | Some b \<Rightarrow> validateBehavior (pdocConfidence doc) b = None)
      | _ \<Rightarrow> False)"
  by (auto simp: ValidateProfile_def split: option.splits)

lemma missing_fields_profile: "missing_fields present doc = [] \<Longrightarrow> trim_space (pdocProfile doc) \<noteq> []"
  by (auto simp: missing_fields_def Let_def split: list.splits if_split_asm)

lemma parse_validated:
  "parseAndValidateTraceEvidence body = Inr doc \<longleftrightarrow> ValidateTraceEvidence body = None \<and> parseTraceEvidence body = Inr doc"
  by (auto simp: parseAndValidateTraceEvidence_def split: option.splits)

text \<open>A profile passes the check against a trace exactly when the trace is accepted and the profile is a
  valid one of the trace's name whose behaviour is, field by field, the one observed; so its behaviour
  was also validated under the profile's own confidence.\<close>

theorem check_accepts_iff:
  "(CheckProfileBehaviorAgainstTrace yaml profileYAML traceJSON = None) =
     (case (parseTraceEvidence traceJSON, presentFields yaml profileYAML, ylProfile yaml profileYAML) of
        (Inr trace, Some present, Some p) \<Rightarrow>
          ValidateTraceEvidence traceJSON = None \<and> missing_fields present p = [] \<and>
          pdocProfile p = teProfile trace \<and> pdocBehavior p = Some (behaviorFromObserved (teObserved trace)) \<and>
          validateBehavior (pdocConfidence p) (behaviorFromObserved (teObserved trace)) = None
      | _ \<Rightarrow> False)"
proof (cases "parseAndValidateTraceEvidence traceJSON")
  case (Inl e)
  then have "ValidateTraceEvidence traceJSON \<noteq> None \<or> (\<exists>e. parseTraceEvidence traceJSON = Inl e)"
    by (auto simp: parseAndValidateTraceEvidence_def split: option.splits)
  then show ?thesis
    using Inl by (auto simp: CheckProfileBehaviorAgainstTrace_def split: sum.split option.split)
next
  case (Inr trace)
  then show ?thesis
    using profile_accepted [of yaml profileYAML] Inr [unfolded parse_validated]
    by (auto simp: CheckProfileBehaviorAgainstTrace_def dest: missing_fields_profile split: option.splits)
qed

section \<open>An example\<close>

text \<open>A body whose member \<open>Simulator\<close> differs in case decodes, but does not count as present.\<close>

definition sample_evidence :: "string \<Rightarrow> json_body" where
  "sample_evidence simulator = \<lparr>jbValue = Some (JObject
     [(''profile'', JString ''spec''), (''confidence'', JString '' captured-trace ''),
      (''source'', JObject [(''label'', JString ''a''), (''URL'', JString ''b'')]),
      (''observed'', JObject
        [(''rtsp_methods'', JArray [JString ''SETUP'']), (''session_header'', JString ''X-Session''),
         (''transport_header'', JString ''Transport''), (''session_id_format'', JString ''numeric''),
         (''setup_includes_timeout'', JBool True), (''requires_describe_before_setup'', JBool False),
         (''tuner_busy_status'', JString ''503 Service Unavailable''),
         (''no_signal_status'', JString ''503 Service Unavailable''), (''timing_notes'', JString ''none'')]),
      (simulator, JObject [(''implemented_behavior'', JArray [])])]), jbRest = AtEnd\<rparr>"

lemma sample_accepted: "ValidateTraceEvidence (sample_evidence ''simulator'') = None"
  by code_simp

lemma sample_case:
  "ValidateTraceEvidence (sample_evidence ''Simulator'') = Some (MissingEvidence [''simulator.implemented_behavior''])"
  by code_simp

end
