(* ===== verification/Smoke.thy ===== *)
theory Smoke
  imports RtspServer
begin

text \<open>
  The smoke probe (\<open>internal/smoke/rtsp.go\<close>): one SETUP, PLAY and TEARDOWN over a connection of its own,
  and the check of the first RTP packet. The network is a parameter: what the sockets give for each write
  or read before the deadline. A new buffered reader is made for each exchange, so the model hands an
  exchange the bytes that arrive between its request and the next one.
\<close>

section \<open>Records\<close>

record probe_options =
  poHost :: string
  poPort :: int
  poRTPBindAddress :: string
  poDestination :: string
  poProfile :: string
  poTimeout :: duration

record rtsp_exchange =
  exMethod :: string
  exStatusLine :: string
  exHeaders :: "string \<rightharpoonup> string"
  exDuration :: duration

record probe_result =
  prSessionID :: string
  prSessionIDFormat :: string
  prProfile :: string
  prRTPBytes :: nat
  prPayloadType :: byte
  prMPEGTSSyncByte :: byte
  prRTSPExchanges :: "rtsp_exchange list"

text \<open>\<open>nwListen\<close> binds the RTP socket and gives its port, \<open>nwExchange\<close> writes a request and gives the bytes
  that then arrive (\<open>None\<close> when the write fails), \<open>nwReceive\<close> gives a datagram, \<open>nwOrder\<close> is the order in
  which the runtime ranges over a map of headers.\<close>

record 'w network =
  nwListen :: "string \<Rightarrow> 'w \<Rightarrow> int option \<times> 'w"
  nwDial :: "string \<Rightarrow> 'w \<Rightarrow> bool \<times> 'w"
  nwExchange :: "string \<Rightarrow> 'w \<Rightarrow> string option \<times> 'w"
  nwReceive :: "'w \<Rightarrow> bytes option \<times> 'w"
  nwNow :: "'w \<Rightarrow> time"
  nwOrder :: "(string \<rightharpoonup> string) \<Rightarrow> string list"

datatype probe_error =
    ListenFailed | DialFailed | ExchangeFailed string | SetupFailed string | MissingSession
  | PlayFailed string | NoPacket | PacketTooSmall nat | WrongVersion byte | WrongPayloadType byte
  | WrongSyncByte byte | TeardownFailed

section \<open>Reading a response\<close>

text \<open>The lines of a response up to the first empty one.\<close>

function read_response :: "string \<Rightarrow> string \<Rightarrow> string option" where
  "read_response buf input =
     (case read_line input of
        None \<Rightarrow> None
      | Some (line, rest) \<Rightarrow>
          if suffix (crlf @ crlf) (buf @ line) then Some (buf @ line) else read_response (buf @ line) rest)"
  by auto
termination
  by (relation "measure (\<lambda>(buf, input). length input)") (auto dest: read_line_shorter)

declare read_response.simps [simp del]

text \<open>The leftmost match of \<open>Session:\s*([^;\r\n]+)\<close> in any case: white space is taken as long as
  something is left to match, and given back otherwise.\<close>

definition re_space :: "char \<Rightarrow> bool" where
  "re_space c \<longleftrightarrow> c \<in> {CHR 0x20, CHR 0x09, CHR 0x0A, CHR 0x0C, CHR 0x0D}"

definition session_char :: "char \<Rightarrow> bool" where
  "session_char c \<longleftrightarrow> c \<noteq> CHR '';'' \<and> c \<noteq> CR \<and> c \<noteq> LF"

fun match_after :: "nat \<Rightarrow> string \<Rightarrow> string option" where
  "match_after k s =
     (let v = takeWhile session_char (drop k s)
      in if v \<noteq> [] then Some v else case k of 0 \<Rightarrow> None | Suc k \<Rightarrow> match_after k s)"

declare match_after.simps [simp del]

fun match_session :: "string \<Rightarrow> string option" where
  "match_session [] = None"
| "match_session (c # cs) =
     (let s = c # cs; rest = drop 8 s
      in case (if equal_fold (take 8 s) ''Session:'' then match_after (length (takeWhile re_space rest)) rest else None) of
           Some v \<Rightarrow> Some v
         | None \<Rightarrow> match_session cs)"

definition sessionIDFromResponse :: "string \<Rightarrow> string" where
  "sessionIDFromResponse response = (case match_session response of None \<Rightarrow> [] | Some v \<Rightarrow> trim_space v)"

fun exchange_headers :: "(string \<rightharpoonup> string) \<Rightarrow> string list \<Rightarrow> (string \<rightharpoonup> string)" where
  "exchange_headers headers [] = headers"
| "exchange_headers headers (line # rest) =
     (if line = [] then headers
      else
        let idx = index_char (CHR '':'') line
        in if idx \<le> 0 then exchange_headers headers rest
           else exchange_headers (headers(trim_space (take (nat idx) line) \<mapsto> trim_space (drop (nat idx + 1) line))) rest)"

definition parseRTSPExchange :: "string \<Rightarrow> string \<Rightarrow> rtsp_exchange" where
  "parseRTSPExchange verb response =
     (let lines = split_str crlf response
      in \<lparr>exMethod = verb, exStatusLine = hd lines, exHeaders = exchange_headers Map.empty (tl lines), exDuration = 0\<rparr>)"

definition sessionIDFormat :: "string \<Rightarrow> string" where
  "sessionIDFormat sid =
     (if sid = [] then ''empty'' else if list_all is_digit sid then ''numeric'' else ''opaque'')"

definition headersForError :: "string list \<Rightarrow> (string \<rightharpoonup> string) \<Rightarrow> string" where
  "headersForError order headers =
     concat (map (\<lambda>k. k @ '': '' @ (case headers k of None \<Rightarrow> [] | Some v \<Rightarrow> v) @ crlf) order)"

section \<open>The probe\<close>

definition rtspExchange :: "'w network \<Rightarrow> string \<Rightarrow> 'w \<Rightarrow> string option \<times> 'w" where
  "rtspExchange nw req w =
     (case nwExchange nw req w of
        (None, w) \<Rightarrow> (None, w)
      | (Some input, w) \<Rightarrow> (read_response [] input, w))"

definition rtspExchangeEvidence :: "'w network \<Rightarrow> string \<Rightarrow> string \<Rightarrow> 'w \<Rightarrow> rtsp_exchange option \<times> 'w" where
  "rtspExchangeEvidence nw verb req w =
     (let start = nwNow nw w
      in case rtspExchange nw req w of
           (None, w) \<Rightarrow> (None, w)
         | (Some response, w) \<Rightarrow>
             (Some ((parseRTSPExchange verb response)\<lparr>exDuration := time_sub (nwNow nw w) start\<rparr>), w))"

definition with_defaults :: "probe_options \<Rightarrow> probe_options" where
  "with_defaults opts =
     (let opts = (if poHost opts = [] then opts\<lparr>poHost := ''127.0.0.1''\<rparr> else opts);
          opts = (if poPort opts = 0 then opts\<lparr>poPort := 554\<rparr> else opts);
          opts = (if poRTPBindAddress opts = [] then opts\<lparr>poRTPBindAddress := ''0.0.0.0''\<rparr> else opts)
      in if poTimeout opts = 0 then opts\<lparr>poTimeout := 5 * second\<rparr> else opts)"

definition probe_transport :: "probe_options \<Rightarrow> int \<Rightarrow> string" where
  "probe_transport opts rtpPort =
     join '';'' ([''RTP/AVP'', ''unicast'', ''client_port='' @ itoa rtpPort @ ''-'' @ itoa (rtpPort + 1)]
       @ (if poDestination opts \<noteq> [] then [''destination='' @ poDestination opts] else []))"

definition probe_uri :: "probe_options \<Rightarrow> string" where
  "probe_uri opts = ''rtsp://'' @ poHost opts @ '':'' @ itoa (poPort opts) @ ''/''"

definition setup_request :: "probe_options \<Rightarrow> int \<Rightarrow> string" where
  "setup_request opts rtpPort =
     ''SETUP '' @ probe_uri opts @ ''?src=1&freq=11494&pol=h&msys=dvbs2&sr=22000&pids=0,17,5100,5101,5102 RTSP/1.0'' @ crlf
       @ ''CSeq: 1'' @ crlf @ ''Transport: '' @ probe_transport opts rtpPort @ crlf @ crlf"

definition session_request :: "string \<Rightarrow> string \<Rightarrow> probe_options \<Rightarrow> string \<Rightarrow> string" where
  "session_request verb cseq opts sid =
     verb @ '' '' @ probe_uri opts @ '' RTSP/1.0'' @ crlf @ ''CSeq: '' @ cseq @ crlf @ ''Session: '' @ sid @ crlf @ crlf"

text \<open>What the probe takes from the answer to SETUP.\<close>

definition setup_session :: "'w network \<Rightarrow> rtsp_exchange \<Rightarrow> probe_error + string" where
  "setup_session nw ex =
     (let setup_text = exStatusLine ex @ crlf @ headersForError (nwOrder nw (exHeaders ex)) (exHeaders ex)
      in if \<not> contains_str ''200 OK'' setup_text then Inl (SetupFailed (trim_space setup_text))
         else
           let sessionHeader = (case exHeaders ex ''Session'' of None \<Rightarrow> [] | Some v \<Rightarrow> v);
               sid = sessionIDFromResponse (''Session: '' @ sessionHeader);
               sid = (if sid = [] then sessionIDFromResponse setup_text else sid)
           in if sid = [] then Inl MissingSession else Inr sid)"

text \<open>The checks of the datagram, read into a buffer of 2048 bytes.\<close>

definition check_packet :: "bytes \<Rightarrow> probe_error + nat \<times> byte \<times> byte" where
  "check_packet datagram =
     (let buf = take 2048 datagram; n = length buf
      in if n < 13 then Inl (PacketTooSmall n)
         else if drop_bit 6 (buf ! 0) \<noteq> 2 then Inl (WrongVersion (drop_bit 6 (buf ! 0)))
         else
           let payloadType = buf ! 1 AND 0x7F
           in if payloadType \<noteq> 33 then Inl (WrongPayloadType payloadType)
              else if buf ! 12 \<noteq> 0x47 then Inl (WrongSyncByte (buf ! 12))
              else Inr (n, payloadType, buf ! 12))"

definition ProbeRTSPRTP :: "'w network \<Rightarrow> probe_options \<Rightarrow> 'w \<Rightarrow> (probe_error + probe_result) \<times> 'w" where
  "ProbeRTSPRTP nw opts w =
     (let opts = with_defaults opts
      in case nwListen nw (poRTPBindAddress opts) w of
           (None, w) \<Rightarrow> (Inl ListenFailed, w)
         | (Some rtpPort, w) \<Rightarrow>
     (case nwDial nw (poHost opts @ '':'' @ itoa (poPort opts)) w of
        (False, w) \<Rightarrow> (Inl DialFailed, w)
      | (True, w) \<Rightarrow>
     (case rtspExchangeEvidence nw ''SETUP'' (setup_request opts rtpPort) w of
        (None, w) \<Rightarrow> (Inl (ExchangeFailed ''SETUP''), w)
      | (Some setup, w) \<Rightarrow>
     (case setup_session nw setup of
        Inl e \<Rightarrow> (Inl e, w)
      | Inr sid \<Rightarrow>
     (case rtspExchangeEvidence nw ''PLAY'' (session_request ''PLAY'' ''2'' opts sid) w of
        (None, w) \<Rightarrow> (Inl (ExchangeFailed ''PLAY''), w)
      | (Some play, w) \<Rightarrow>
     (if \<not> contains_str ''200 OK'' (exStatusLine play) then (Inl (PlayFailed (trim_space (exStatusLine play))), w)
      else
     (case nwReceive nw w of
        (None, w) \<Rightarrow> (Inl NoPacket, w)
      | (Some datagram, w) \<Rightarrow>
     (case check_packet datagram of
        Inl e \<Rightarrow> (Inl e, w)
      | Inr (n, payloadType, syncByte) \<Rightarrow>
     (case rtspExchangeEvidence nw ''TEARDOWN'' (session_request ''TEARDOWN'' ''3'' opts sid) w of
        (None, w) \<Rightarrow> (Inl TeardownFailed, w)
      | (Some teardown, w) \<Rightarrow>
          (Inr \<lparr>prSessionID = sid, prSessionIDFormat = sessionIDFormat sid, prProfile = poProfile opts,
             prRTPBytes = n, prPayloadType = payloadType, prMPEGTSSyncByte = syncByte,
             prRTSPExchanges = [setup, play, teardown]\<rparr>, w))))))))))"

section \<open>Evidence\<close>

record json_exchange =
  jeMethod :: string
  jeStatusLine :: string
  jeHeaders :: "string \<rightharpoonup> string"
  jeDurationMS :: int

record probe_evidence =
  peProfile :: string
  peSessionID :: string
  peSessionIDFormat :: string
  peBytes :: nat
  pePayloadType :: byte
  peSyncByte :: string
  peRTSP :: "json_exchange list"

definition hex_digit :: "nat \<Rightarrow> char" where
  "hex_digit n = ''0123456789abcdef'' ! n"

text \<open>The document that \<open>JSONEvidence\<close> encodes; \<open>%02x\<close> of a byte.\<close>

definition JSONEvidence :: "probe_result \<Rightarrow> probe_evidence" where
  "JSONEvidence r =
     \<lparr>peProfile = prProfile r, peSessionID = prSessionID r, peSessionIDFormat = prSessionIDFormat r,
      peBytes = prRTPBytes r, pePayloadType = prPayloadType r,
      peSyncByte = ''0x'' @ [hex_digit (unat (prMPEGTSSyncByte r) div 16), hex_digit (unat (prMPEGTSSyncByte r) mod 16)],
      peRTSP = map (\<lambda>e. \<lparr>jeMethod = exMethod e, jeStatusLine = exStatusLine e, jeHeaders = exHeaders e,
        jeDurationMS = go_quot (exDuration e) millisecond\<rparr>) (prRTSPExchanges r)\<rparr>"

end
