(* ===== verification/SmokeSpec.thy ===== *)
theory SmokeSpec
  imports Smoke RtspSpec
begin

text \<open>
  The smoke probe against the RTSP server: the client's own reader understands what the server writes,
  the probe follows the server's session, and a probe that succeeds leaves no session behind.
\<close>

section \<open>Reading what the server writes\<close>

lemma response_lines:
  "buildResponse cseq status extra = concat (map (\<lambda>l. l @ crlf) ([''RTSP/1.0 '' @ status, ''CSeq: '' @ cseq] @ extra)) @ crlf"
proof -
  have "join crlf (ls @ [[], []]) = concat (map (\<lambda>l. l @ crlf) ls) @ crlf" for ls
  proof (induction ls)
    case (Cons l ls)
    then show ?case by (cases ls) simp_all
  qed simp
  from this [of "[''RTSP/1.0 '' @ status, ''CSeq: '' @ cseq] @ extra"] show ?thesis
    unfolding buildResponse_def by simp
qed

definition line_ok :: "string \<Rightarrow> bool" where
  "line_ok l \<longleftrightarrow> l \<noteq> [] \<and> clean_line l"

lemma read_response_lines:
  "list_all line_ok ls \<Longrightarrow>
     read_response buf (concat (map (\<lambda>l. l @ crlf) ls) @ rest) = read_response (buf @ concat (map (\<lambda>l. l @ crlf) ls)) rest"
proof (induction ls arbitrary: buf)
  case (Cons l ls)
  then have l: "l \<noteq> []" "clean_line l" by (auto simp: line_ok_def)
  have "read_response buf ((l @ crlf) @ concat (map (\<lambda>l. l @ crlf) ls) @ rest) =
      read_response (buf @ l @ crlf) (concat (map (\<lambda>l. l @ crlf) ls) @ rest)"
    using l not_suffix_line [OF l] read_line_crlf [of l]
    by (subst read_response.simps) (simp add: clean_line_def)
  then show ?case using Cons by simp
qed simp

lemma read_buildResponse:
  assumes "list_all line_ok extra" "clean_line status" "clean_line cseq"
  shows "read_response [] (buildResponse cseq status extra @ rest) = Some (buildResponse cseq status extra)"
proof -
  let ?ls = "[''RTSP/1.0 '' @ status, ''CSeq: '' @ cseq] @ extra"
  let ?text = "concat (map (\<lambda>l. l @ crlf) ?ls)"
  have ok: "list_all line_ok ?ls" using assms by (simp add: line_ok_def clean_line_def CR_def LF_def)
  have "suffix (crlf @ crlf) (?text @ crlf)"
  proof -
    obtain ls l where ls: "?ls = ls @ [l]" by (metis append_butlast_last_id append_is_Nil_conv list.distinct(1))
    show ?thesis unfolding ls by (simp add: suffix_def)
  qed
  moreover have "read_line (crlf @ rest) = Some (crlf, rest)" using read_line_crlf [of "[]" rest] by simp
  ultimately have "read_response ?text (crlf @ rest) = Some (?text @ crlf)"
    by (subst read_response.simps) (simp del: append_assoc)
  then show ?thesis
    using read_response_lines [OF ok, of "[]" "crlf @ rest"] unfolding response_lines by simp
qed

text \<open>The header map keeps the keys as they are written.\<close>

definition written_headers :: "(string \<times> string) list \<Rightarrow> (string \<rightharpoonup> string)" where
  "written_headers hs = map_of (rev hs)"

lemma exchange_headers_all:
  "list_all header_ok hs \<Longrightarrow> exchange_headers m (map render_header hs @ [] # rest) = m ++ written_headers hs"
proof (induction hs arbitrary: m)
  case (Cons kv hs)
  obtain k v where kv: "kv = (k, v)" by fastforce
  have k: "k \<noteq> []" "CHR '':'' \<notin> set k" "trim_space k = k" "trim_space v = v"
    using Cons.prems by (auto simp: kv header_ok_def)
  have idx: "index_char (CHR '':'') (k @ '': '' @ v) = int (length k)"
    using k(2) by (auto simp: index_char_def takeWhile_append)
  have sp: "trim_space (CHR '' '' # v) = trim_space v"
    by (simp add: trim_space_def is_space_def)
  have first: "exchange_headers m (map render_header (kv # hs) @ [] # rest) =
      exchange_headers (m(k \<mapsto> v)) (map render_header hs @ [] # rest)"
    using k idx sp by (simp add: kv render_header_def Let_def)
  have second: "m(k \<mapsto> v) ++ written_headers hs = m ++ written_headers (kv # hs)"
    by (auto simp: written_headers_def kv map_add_def fun_eq_iff map_of_append split: option.splits)
  have ih: "exchange_headers (m(k \<mapsto> v)) (map render_header hs @ [] # rest) = m(k \<mapsto> v) ++ written_headers hs"
    by (rule Cons.IH) (use Cons.prems in simp)
  show ?case unfolding first ih second ..
qed (simp add: written_headers_def)

lemma parse_buildResponse:
  assumes "list_all header_ok hs" "header_ok (''CSeq'', cseq)" "clean_line status"
  shows "parseRTSPExchange verb (buildResponse cseq status (map render_header hs)) =
    \<lparr>exMethod = verb, exStatusLine = ''RTSP/1.0 '' @ status, exHeaders = written_headers ((''CSeq'', cseq) # hs), exDuration = 0\<rparr>"
proof -
  let ?hs = "(''CSeq'', cseq) # hs"
  have "buildResponse cseq status (map render_header hs) =
      join crlf ((''RTSP/1.0 '' @ status) # map render_header ?hs @ [[], []])"
    by (simp add: buildResponse_def render_header_def)
  moreover have "split_str crlf (join crlf ((''RTSP/1.0 '' @ status) # map render_header ?hs @ [[], []])) =
      (''RTSP/1.0 '' @ status) # map render_header ?hs @ [[], []]"
    using assms
    by (intro split_join_crlf)
      (auto simp: header_ok_def clean_line_def render_header_def list_all_iff CR_def)
  ultimately show ?thesis
    using exchange_headers_all [of ?hs Map.empty "[[]]"] assms by (simp add: parseRTSPExchange_def)
qed

section \<open>The answers to SETUP\<close>

text \<open>A server whose texts have no line break, over a profile that keeps to the standard headers.\<close>

definition plain_server :: "server \<Rightarrow> bool" where
  "plain_server s \<longleftrightarrow> clean_line (cfgPublicHost (srvConfig s)) \<and>
     profSessionHeader (srvProfile s) = ''Session'' \<and> profTransportHeader (srvProfile s) = ''Transport'' \<and>
     profTunerBusyStatus (srvProfile s) = ''503 Service Unavailable''"

definition order_ok :: "'w network \<Rightarrow> bool" where
  "order_ok nw \<longleftrightarrow> (\<forall>hs. finite (dom hs) \<longrightarrow> distinct (nwOrder nw hs) \<and> set (nwOrder nw hs) = dom hs)"

definition session_value :: "server \<Rightarrow> string \<Rightarrow> string" where
  "session_value s sid =
     sid @ (if profIncludeSetupTimeout (srvProfile s) then '';timeout='' @ itoa (go_quot rtspSessionTimeout second) else [])"

definition numeric_id :: "string \<Rightarrow> bool" where
  "numeric_id sid \<longleftrightarrow> sid \<noteq> [] \<and> list_all is_digit sid"

lemma digit_kinds: "is_digit c \<Longrightarrow> session_char c \<and> \<not> is_space c \<and> \<not> re_space c \<and> c \<noteq> CR \<and> c \<noteq> LF"
  by (auto simp: is_digit_def session_char_def is_space_def re_space_def CR_def LF_def)

lemma session_value_read:
  assumes "numeric_id sid"
  shows "sessionIDFromResponse (''Session: '' @ session_value s sid) = sid"
proof -
  obtain c cs where sid: "sid = c # cs" "is_digit c" "list_all is_digit cs"
    using assms by (cases sid) (auto simp: numeric_id_def)
  let ?tail = "if profIncludeSetupTimeout (srvProfile s) then '';timeout='' @ itoa (go_quot rtspSessionTimeout second) else []"
  have all: "\<forall>x\<in>set sid. session_char x \<and> \<not> is_space x"
    using assms digit_kinds by (auto simp: numeric_id_def list_all_iff)
  have "takeWhile session_char (sid @ ?tail) = sid"
    using all by (auto simp: takeWhile_append2 takeWhile_append1 session_char_def [of "CHR '';''"])
  then have "takeWhile session_char (drop 1 ('' '' @ sid @ ?tail)) = sid" by simp
  moreover have "takeWhile re_space ('' '' @ sid @ ?tail) = '' ''"
    using digit_kinds [OF sid(2)] by (simp add: sid(1) re_space_def)
  ultimately have m: "match_after (length (takeWhile re_space ('' '' @ sid @ ?tail))) ('' '' @ sid @ ?tail) = Some sid"
    using sid(1) by (subst match_after.simps) simp
  have "match_session (''Session:'' @ '' '' @ sid @ ?tail) = Some sid"
    using m by (simp add: Let_def)
  then show ?thesis
    using trim_space_id [of sid] all by (simp add: sessionIDFromResponse_def session_value_def)
qed

lemma setup_response_lines:
  assumes "plain_server s" "tsMode t = transportUDP"
  shows "\<exists>v. setup_response s ''1'' sid t ip = buildResponse ''1'' ''200 OK''
      (map render_header [(''Session'', session_value s sid), (''Transport'', v)]) \<and>
    (clean_line ip \<longrightarrow> header_ok (''Transport'', v))"
proof -
  let ?v = "(''RTP/AVP;unicast;destination='' @ ip @ '';source='' @ cfgPublicHost (srvConfig s)
    @ '';client_port='' @ itoa (tsRtpPort t) @ ''-'' @ itoa (tsRtcpPort t)) @ '';server_port=5000-5001''"
  have "\<not> is_digit CR \<and> \<not> is_digit LF \<and> CR \<noteq> CHR ''-'' \<and> LF \<noteq> CHR ''-''" by code_simp
  then have clean: "clean_line (itoa i)" for i
    using set_itoa [of _ i] unfolding clean_line_def by blast
  have "trim_space ?v = ?v"
    by (rule trim_space_ends) (simp_all add: is_space_def)
  then have "clean_line ip \<Longrightarrow> header_ok (''Transport'', ?v)"
    using assms(1) clean [of "tsRtpPort t"] clean [of "tsRtcpPort t"]
    unfolding header_ok_def fst_conv snd_conv
    by (auto simp: plain_server_def clean_line_def CR_def LF_def trim_space_def is_space_def)
  moreover have "setup_response s ''1'' sid t ip = buildResponse ''1'' ''200 OK''
      (map render_header [(''Session'', session_value s sid), (''Transport'', ?v)])"
    using assms by (simp add: setup_response_def plain_server_def setupSessionHeader_def session_value_def render_header_def Let_def)
  ultimately show ?thesis by blast
qed

lemma session_value_ok:
  assumes "numeric_id sid"
  shows "header_ok (''Session'', session_value s sid)"
proof -
  have d: "\<forall>x\<in>set sid. \<not> is_space x \<and> x \<noteq> CR \<and> x \<noteq> LF"
    using assms digit_kinds by (auto simp: numeric_id_def list_all_iff)
  have "itoa (go_quot rtspSessionTimeout second) = ''60''" by code_simp
  then have "\<forall>x\<in>set (session_value s sid). \<not> is_space x \<and> x \<noteq> CR \<and> x \<noteq> LF"
    using d by (auto simp: session_value_def is_space_def CR_def LF_def)
  then show ?thesis
    using trim_space_id [of "session_value s sid"]
    by (auto simp: header_ok_def clean_line_def trim_space_def is_space_def CR_def LF_def)
qed

text \<open>An accepted SETUP gives the probe the session's id.\<close>

lemma accepted_session:
  assumes "plain_server s" "tsMode t = transportUDP" "clean_line ip" "numeric_id sid"
  shows "read_response [] (setup_response s ''1'' sid t ip @ rest) = Some (setup_response s ''1'' sid t ip)"
    and "setup_session nw ((parseRTSPExchange ''SETUP'' (setup_response s ''1'' sid t ip))\<lparr>exDuration := d\<rparr>) = Inr sid"
proof -
  obtain v where v: "setup_response s ''1'' sid t ip = buildResponse ''1'' ''200 OK''
      (map render_header [(''Session'', session_value s sid), (''Transport'', v)])" "header_ok (''Transport'', v)"
    using setup_response_lines [OF assms(1,2), of sid ip] assms(3) by blast
  let ?hs = "[(''Session'', session_value s sid), (''Transport'', v)]"
  have ok: "list_all header_ok ?hs" "header_ok (''CSeq'', ''1'')" "clean_line ''200 OK''" "clean_line ''1''"
    using v(2) session_value_ok [OF assms(4)] by (simp_all, code_simp+)
  have lines: "list_all line_ok (map render_header hs)" if "list_all header_ok hs" for hs
    using that by (auto simp: list_all_iff line_ok_def render_header_def header_ok_def clean_line_def CR_def LF_def)
  show "read_response [] (setup_response s ''1'' sid t ip @ rest) = Some (setup_response s ''1'' sid t ip)"
    unfolding v(1) by (rule read_buildResponse [OF lines [OF ok(1)] ok(3,4)])
  have "contains_str ''200 OK'' (''RTSP/1.0 '' @ ''200 OK'' @ x)" for x by (rule contains_middle)
  moreover have "sid \<noteq> []" using assms(4) by (auto simp: numeric_id_def)
  ultimately show "setup_session nw ((parseRTSPExchange ''SETUP'' (setup_response s ''1'' sid t ip))\<lparr>exDuration := d\<rparr>) = Inr sid"
    unfolding v(1) parse_buildResponse [OF ok(1,2,3)] using session_value_read [OF assms(4), of s]
    by (simp add: setup_session_def written_headers_def Let_def del: append_Cons)
qed

text \<open>A refused one makes it fail, in whatever order it reads the headers.\<close>

definition refusals :: "(string \<times> string) list" where
  "refusals = [(''461 Unsupported Transport'', ''invalid interleaved channel''),
     (''503 Service Unavailable'', ''tuner busy''), (''503 Service Unavailable'', ''no signal''),
     (''503 Service Unavailable'', ''tuner wedged''), (''404 Not Found'', ''service not found''),
     (''400 Bad Request'', ''invalid tuning'')]"

lemma refused_texts:
  "list_all (\<lambda>(status, reason). clean_line status \<and> header_ok (''Reason'', reason) \<and>
     list_all (\<lambda>order. \<not> contains_str ''200 OK'' (''RTSP/1.0 '' @ status @ crlf @
        headersForError order (written_headers [(''CSeq'', ''1''), (''Reason'', reason)])))
      [[''CSeq'', ''Reason''], [''Reason'', ''CSeq'']]) refusals"
  by code_simp

lemma two_keys: "distinct xs \<Longrightarrow> set xs = {a, b} \<Longrightarrow> a \<noteq> b \<Longrightarrow> xs \<in> {[a, b], [b, a]}"
proof -
  assume a: "distinct xs" "set xs = {a, b}" "a \<noteq> b"
  then have "length xs = 2" using distinct_card [of xs] by simp
  then obtain x y where "xs = [x, y]" by (auto simp: eval_nat_numeral length_Suc_conv)
  then show ?thesis using a by (auto simp: doubleton_eq_iff)
qed

lemma refused_session:
  assumes "order_ok nw" "(status, reason) \<in> set refusals" "resp = buildResponse ''1'' status [''Reason: '' @ reason]"
  shows "read_response [] (resp @ rest) = Some resp"
    and "\<exists>t. setup_session nw ((parseRTSPExchange ''SETUP'' resp)\<lparr>exDuration := d\<rparr>) = Inl (SetupFailed t)"
proof -
  have ok: "clean_line status" "header_ok (''Reason'', reason)" "header_ok (''CSeq'', ''1'')" "clean_line ''1''"
    using refused_texts assms(2) by (auto simp: list_all_iff) code_simp+
  have resp: "resp = buildResponse ''1'' status (map render_header [(''Reason'', reason)])"
    by (simp add: assms(3) render_header_def)
  have "list_all line_ok (map render_header [(''Reason'', reason)])"
    using ok(2) by (auto simp: line_ok_def render_header_def header_ok_def clean_line_def CR_def LF_def)
  then show "read_response [] (resp @ rest) = Some resp" unfolding resp by (rule read_buildResponse [OF _ ok(1,4)])
  let ?h = "written_headers [(''CSeq'', ''1''), (''Reason'', reason)]"
  have "dom ?h = {''CSeq'', ''Reason''}" by (auto simp: written_headers_def split: if_splits)
  then have "nwOrder nw ?h \<in> {[''CSeq'', ''Reason''], [''Reason'', ''CSeq'']}"
    using assms(1) two_keys [of "nwOrder nw ?h" "''CSeq''" "''Reason''"] by (simp add: order_ok_def)
  then have "\<not> contains_str ''200 OK'' (''RTSP/1.0 '' @ status @ crlf @ headersForError (nwOrder nw ?h) ?h)"
    using refused_texts assms(2) by (fastforce simp: list_all_iff)
  then show "\<exists>t. setup_session nw ((parseRTSPExchange ''SETUP'' resp)\<lparr>exDuration := d\<rparr>) = Inl (SetupFailed t)"
    using parse_buildResponse [of "[(''Reason'', reason)]" "''1''" status "''SETUP''"] ok
    by (simp add: resp setup_session_def Let_def)
qed

section \<open>A request and the sessions\<close>

text \<open>What a request does before it is dispatched.\<close>

definition same_texts :: "server \<Rightarrow> server \<Rightarrow> bool" where
  "same_texts s s' \<longleftrightarrow> srvProfile s' = srvProfile s \<and> srvConfig s' = srvConfig s \<and> srvNextID s' = srvNextID s \<and>
     srvSessions s' \<subseteq> srvSessions s"

lemma same_trans: "same_texts s t \<Longrightarrow> same_texts t u \<Longrightarrow> same_texts s u"
  by (auto simp: same_texts_def)

lemma same_refl [simp]: "same_texts s s"
  by (simp add: same_texts_def)

lemma same_with: "same_texts s (snd (with_lab f s))"
  by (simp add: same_texts_def with_lab_def split: prod.split)

lemma same_now: "srv_now s = (now, s') \<Longrightarrow> same_texts s s'"
  by (auto simp: same_texts_def srv_now_def split: prod.splits)

lemma same_expire_object: "same_texts s (expire_object s sid)"
  by (auto simp: same_texts_def expire_object_def)

lemma same_expire: "same_texts s (expireSessions env now s)"
proof -
  have fold: "same_texts s (foldl expire_object s gone)" for s gone
  proof (induction gone arbitrary: s)
    case (Cons g gone)
    show ?case using same_trans [OF same_expire_object Cons.IH] by simp
  qed (simp add: same_texts_def)
  let ?f = "\<lambda>m. ExpireSessions (envOrder env (mSessions m)) now rtspSessionTimeout m"
  obtain gone s1 where w: "with_lab ?f s = (gone, s1)" by fastforce
  then show ?thesis
    using same_with [of s ?f] same_trans [OF _ fold [of s1 gone], of s] by (simp add: expireSessions_def)
qed

lemma same_touch: "same_texts s (touchRequestSession req now s)"
  by (simp add: touchRequestSession_def Let_def same_with)

lemma request_dispatched:
  assumes "env_ok env" "\<not> profRequireDescribeBeforeSetup (srvProfile s)" "rqMethod req \<noteq> ''DESCRIBE''"
    "header req ''cseq'' \<noteq> []"
  obtains s4 s5 where "ok_to s s4" "ok_to s s5" "same_texts s s4" "same_texts s s5"
    "handleRequestWithState env ip req c s =
       (if cfgScenario (srvConfig s) = StartTunerBusy \<and> rqMethod req = ''SETUP''
        then (buildResponse (header req ''cseq'') (profTunerBusyStatus (srvProfile s)) [''Reason: tuner busy''], c, s4)
        else dispatch env ip req (header req ''cseq'') c s5)"
proof -
  obtain n1 s1 where s1: "srv_now s = (n1, s1)" by fastforce
  define s2 where "s2 = expireSessions env n1 s1"
  obtain n3 s3 where s3: "srv_now s2 = (n3, s3)" by fastforce
  define s4 where "s4 = touchRequestSession req n3 s3"
  define s5 where "s5 = snd (with_lab Scenario s4)"
  have ok4: "ok_to s s4"
    using ok_now [OF s1] ok_expire [OF assms(1), of s1 n1] ok_now [OF s3] ok_touch [of s3 req n3]
    unfolding s2_def s4_def by (meson ok_trans)
  have same4: "same_texts s s4"
    using same_now [OF s1] same_expire [of s1 env n1] same_now [OF s3] same_touch [of s3 req n3]
    unfolding s2_def s4_def by (meson same_trans)
  have ok5: "ok_to s s5" unfolding s5_def by (rule ok_trans [OF ok4]) (rule ok_with_snd, rule quiet_Scenario)
  have same5: "same_texts s s5" unfolding s5_def by (rule same_trans [OF same4 same_with])
  show thesis
    by (rule that [OF ok4 ok5 same4 same5])
      (use assms(2-4) same4 in \<open>simp add: handleRequestWithState_def s1 s2_def [symmetric] s3 s4_def [symmetric]
         s5_def [symmetric] Let_def same_texts_def\<close>)
qed

text \<open>The probe reads the answer to a SETUP, accepted or not, as what the server did.\<close>

definition reads_setup :: "'w network \<Rightarrow> string \<Rightarrow> string \<Rightarrow> server \<Rightarrow> bool" where
  "reads_setup nw sid resp s' \<longleftrightarrow> (\<forall>rest. read_response [] (resp @ rest) = Some resp) \<and>
     (\<forall>d. case setup_session nw ((parseRTSPExchange ''SETUP'' resp)\<lparr>exDuration := d\<rparr>) of
        Inr x \<Rightarrow> x = sid \<and> sid \<in> srvSessions s'
      | Inl e \<Rightarrow> (\<exists>t. e = SetupFailed t) \<and> sid \<notin> srvSessions s')"

lemma refused_reads:
  assumes "order_ok nw" "(status, reason) \<in> set refusals" "sid \<notin> srvSessions s'"
  shows "reads_setup nw sid (buildResponse ''1'' status [''Reason: '' @ reason]) s'"
  unfolding reads_setup_def
proof (intro conjI allI)
  let ?resp = "buildResponse ''1'' status [''Reason: '' @ reason]"
  show "read_response [] (?resp @ rest) = Some ?resp" for rest by (rule refused_session(1) [OF assms(1,2) refl])
  fix d
  obtain t where "setup_session nw ((parseRTSPExchange ''SETUP'' ?resp)\<lparr>exDuration := d\<rparr>) = Inl (SetupFailed t)"
    using refused_session(2) [OF assms(1,2) refl, of d] by blast
  then show "case setup_session nw ((parseRTSPExchange ''SETUP'' ?resp)\<lparr>exDuration := d\<rparr>) of
      Inr x \<Rightarrow> x = sid \<and> sid \<in> srvSessions s' | Inl e \<Rightarrow> (\<exists>t. e = SetupFailed t) \<and> sid \<notin> srvSessions s'"
    using assms(3) by simp
qed

lemma reads_setup_results:
  assumes "reads_setup nw sid resp s'"
  shows "sid \<in> srvSessions s' \<Longrightarrow> setup_session nw ((parseRTSPExchange ''SETUP'' resp)\<lparr>exDuration := d\<rparr>) = Inr sid"
    and "sid \<notin> srvSessions s' \<Longrightarrow>
      \<exists>t. setup_session nw ((parseRTSPExchange ''SETUP'' resp)\<lparr>exDuration := d\<rparr>) = Inl (SetupFailed t)"
  using assms unfolding reads_setup_def
  by (cases "setup_session nw ((parseRTSPExchange ''SETUP'' resp)\<lparr>exDuration := d\<rparr>)";
      auto dest!: spec [of _ d])+

lemma setup_handler_reads:
  assumes "plain_server s" "order_ok nw" "server_ok s" "srvNextID s + 1 < 2 ^ 63"
    "handleSetupWithState env ip req ''1'' c s = (resp, c', s')"
    "tsMode (parseTransport (envParseIP env) (header req ''transport'')) = transportUDP"
    "clean_line (destination (parseTransport (envParseIP env) (header req ''transport'')) ip)"
  defines "sid \<equiv> pad_int 8 (srvNextID s + 1)"
  shows "reads_setup nw sid resp s' \<and> srvSessions s' \<subseteq> insert sid (srvSessions s) \<and>
    srvProfile s' = srvProfile s \<and> srvConfig s' = srvConfig s \<and> (c' = c \<or> c' = rememberSession sid c)"
proof -
  let ?t = "parseTransport (envParseIP env) (header req ''transport'')"
  have fresh: "sid \<notin> srvSessions s" unfolding sid_def by (rule server_fresh(1) [OF assms(3)])
  have "0 \<le> srvNextID s + 1" using assms(3) by (simp add: server_ok_def objects_ok_def)
  then have num: "numeric_id sid" using pad_int_digits by (simp add: numeric_id_def sid_def list_all_iff)
  note h = assms(5) [unfolded handleSetup_eq [OF srv_wrap [OF assms(3,4)]] Let_def, folded sid_def]
  show ?thesis
  proof (cases "tsInvalid ?t")
    case True
    have "reads_setup nw sid (buildResponse ''1'' ''461 Unsupported Transport'' [''Reason: '' @ ''invalid interleaved channel'']) s'"
      by (rule refused_reads [OF assms(2)]) (use h True fresh in \<open>auto simp: refusals_def\<close>)
    then show ?thesis using h True by auto
  next
    case False
    obtain r m where r: "Setup sid (tuningQueryFromURI (rqURI req)) ip (srvLab s) = (r, m)" by fastforce
    show ?thesis
    proof (cases r)
      case (Inl e)
      obtain status reason where x: "refusal (profTunerBusyStatus (srvProfile s)) e = (status, reason)" by fastforce
      have "(status, reason) \<in> set refusals"
        using x assms(1) by (auto simp: refusal_def refusals_def plain_server_def split: if_splits)
      then have "reads_setup nw sid (buildResponse ''1'' status [''Reason: '' @ reason]) s'"
        by (rule refused_reads [OF assms(2)]) (use h False r Inl fresh in auto)
      then show ?thesis using h False r Inl x by (auto simp: setup_error_refusal)
    next
      case (Inr res)
      have "reads_setup nw sid (setup_response s ''1'' sid ?t (destination ?t ip)) s'"
        unfolding reads_setup_def
        using h False r Inr
        by (auto simp: registered_def accepted_session(1) [OF assms(1,6,7) num] accepted_session(2) [OF assms(1,6,7) num])
      then show ?thesis using h False r Inr by (auto simp: registered_def)
    qed
  qed
qed

section \<open>The probe's requests\<close>

definition host_ok :: "string \<Rightarrow> bool" where
  "host_ok h \<longleftrightarrow> clean_line h \<and> CHR '' '' \<notin> set h"

definition probe_setup :: "probe_options \<Rightarrow> int \<Rightarrow> request" where
  "probe_setup o' port = \<lparr>rqMethod = ''SETUP'', rqURI = probe_uri o' @ ''?src=1&freq=11494&pol=h&msys=dvbs2&sr=22000&pids=0,17,5100,5101,5102'',
     rqHeaders = header_map [(''CSeq'', ''1''), (''Transport'', probe_transport o' port)]\<rparr>"

definition probe_session :: "string \<Rightarrow> string \<Rightarrow> probe_options \<Rightarrow> string \<Rightarrow> request" where
  "probe_session verb cseq o' sid = \<lparr>rqMethod = verb, rqURI = probe_uri o',
     rqHeaders = header_map [(''CSeq'', cseq), (''Session'', sid)]\<rparr>"

lemma itoa_plain: "clean_line (itoa i)" "CHR '' '' \<notin> set (itoa i)" "CHR '';'' \<notin> set (itoa i)"
proof -
  have "\<not> is_digit CR \<and> \<not> is_digit LF \<and> CR \<noteq> CHR ''-'' \<and> LF \<noteq> CHR ''-'' \<and> \<not> is_digit (CHR '' '') \<and> \<not> is_digit (CHR '';'')"
    by code_simp
  then show "clean_line (itoa i)" "CHR '' '' \<notin> set (itoa i)" "CHR '';'' \<notin> set (itoa i)"
    using set_itoa [of _ i] unfolding clean_line_def by (blast, blast, metis itoa_clean insertCI)
qed

lemma clean_append: "clean_line (a @ b) \<longleftrightarrow> clean_line a \<and> clean_line b"
  by (auto simp: clean_line_def)

lemma uri_ok:
  assumes "host_ok (poHost o')"
  shows "clean_line (probe_uri o')" "CHR '' '' \<notin> set (probe_uri o')"
  using assms itoa_plain [of "poPort o'"]
  unfolding probe_uri_def clean_append host_ok_def by (simp_all add: clean_line_def CR_def LF_def)

lemma read_setup_request:
  assumes "host_ok (poHost o')" "header_ok (''Transport'', probe_transport o' port)"
  shows "readRequest (setup_request o' port) = Some (probe_setup o' port, [])"
proof -
  let ?uri = "probe_uri o' @ ''?src=1&freq=11494&pol=h&msys=dvbs2&sr=22000&pids=0,17,5100,5101,5102''"
  let ?hs = "[(''CSeq'', ''1''), (''Transport'', probe_transport o' port)]"
  have cseq: "header_ok (''CSeq'', ''1'')" by code_simp
  have "request_ok ''SETUP'' ?uri ?hs"
    using uri_ok [OF assms(1)] assms(2) cseq
    by (simp add: request_ok_def clean_append) (simp add: clean_line_def CR_def LF_def)
  moreover have "content_length ?hs = length ([] :: string)"
  proof -
    have "fst (atoi_val []) = 0" by code_simp
    moreover have "to_lower ''CSeq'' = ''cseq''" "to_lower ''Transport'' = ''transport''" by code_simp+
    ultimately show ?thesis by (simp add: content_length_def header_map_def)
  qed
  ultimately have "readRequest (render_head ''SETUP'' ?uri ?hs @ [] @ []) = Some (probe_setup o' port, [])"
    using read_head [of "''SETUP''" ?uri ?hs "[]" "[]"] by (simp only: readRequest_def probe_setup_def)
  moreover have "setup_request o' port = render_head ''SETUP'' ?uri ?hs"
    by (simp add: setup_request_def render_head_def render_header_def)
  ultimately show ?thesis by simp
qed

lemma read_session_request:
  assumes "host_ok (poHost o')" "numeric_id sid" "(verb, cseq) \<in> set [(''PLAY'', ''2''), (''TEARDOWN'', ''3'')]"
  shows "readRequest (session_request verb cseq o' sid) = Some (probe_session verb cseq o' sid, [])"
proof -
  let ?hs = "[(''CSeq'', cseq), (''Session'', sid)]"
  have "header_ok (''CSeq'', ''2'')" "header_ok (''CSeq'', ''3'')" by code_simp+
  then have cseq: "header_ok (''CSeq'', cseq)" using assms(3) by auto
  have "\<forall>x\<in>set sid. \<not> is_space x \<and> x \<noteq> CR \<and> x \<noteq> LF"
    using assms(2) digit_kinds by (auto simp: numeric_id_def list_all_iff)
  then have sid: "header_ok (''Session'', sid)"
    using trim_space_id [of sid] by (auto simp: header_ok_def clean_line_def trim_space_def is_space_def CR_def LF_def)
  have "request_ok verb (probe_uri o') ?hs"
    using uri_ok [OF assms(1)] sid cseq assms(3)
    by (auto simp: request_ok_def) (auto simp: clean_line_def CR_def LF_def)
  moreover have "content_length ?hs = length ([] :: string)"
  proof -
    have "fst (atoi_val []) = 0" by code_simp
    moreover have "to_lower ''CSeq'' = ''cseq''" "to_lower ''Session'' = ''session''" by code_simp+
    ultimately show ?thesis by (simp add: content_length_def header_map_def)
  qed
  ultimately have "readRequest (render_head verb (probe_uri o') ?hs @ [] @ []) = Some (probe_session verb cseq o' sid, [])"
    using read_head [of verb "probe_uri o'" ?hs "[]" "[]"] by (simp only: readRequest_def probe_session_def)
  moreover have "session_request verb cseq o' sid = render_head verb (probe_uri o') ?hs"
    by (simp add: session_request_def render_head_def render_header_def)
  ultimately show ?thesis by simp
qed

lemma probe_headers:
  "header (probe_setup o' port) ''cseq'' = ''1''" "header (probe_setup o' port) ''transport'' = probe_transport o' port"
  "header (probe_setup o' port) ''session'' = []"
  "header (probe_session verb cseq o' sid) ''cseq'' = cseq" "header (probe_session verb cseq o' sid) ''session'' = sid"
proof -
  have l: "to_lower ''CSeq'' = ''cseq''" "to_lower ''Transport'' = ''transport''" "to_lower ''Session'' = ''session''"
    by code_simp+
  show "header (probe_setup o' port) ''cseq'' = ''1''" "header (probe_setup o' port) ''transport'' = probe_transport o' port"
    "header (probe_setup o' port) ''session'' = []"
    "header (probe_session verb cseq o' sid) ''cseq'' = cseq" "header (probe_session verb cseq o' sid) ''session'' = sid"
    by (simp_all add: header_def probe_setup_def probe_session_def header_map_def l)
qed


section \<open>The probe against the server\<close>

text \<open>The server at the other end of the probe's connection: it takes a turn for each request. The datagram
  is the one that the probe receives, if any.\<close>

definition lab_network :: "rtsp_env \<Rightarrow> string \<Rightarrow> int \<Rightarrow> bytes option \<Rightarrow> ((string \<rightharpoonup> string) \<Rightarrow> string list)
    \<Rightarrow> (connection \<times> server) network" where
  "lab_network env ip port datagram order =
     \<lparr>nwListen = (\<lambda>_ w. (Some port, w)), nwDial = (\<lambda>_ w. (True, w)),
      nwExchange = (\<lambda>req (c, s). case handleConn_turn env ip True req c s of
        (resp, _, c, s) \<Rightarrow> (Some (case resp of None \<Rightarrow> [] | Some r \<Rightarrow> r), (c, s))),
      nwReceive = (\<lambda>w. (datagram, w)), nwNow = (\<lambda>_. 0), nwOrder = order\<rparr>"

text \<open>A request handled on a connection, with what runs after the response is written.\<close>

definition turn :: "rtsp_env \<Rightarrow> string \<Rightarrow> request \<Rightarrow> connection \<Rightarrow> server \<Rightarrow> string \<times> connection \<times> server" where
  "turn env ip req c s =
     (case handleRequestWithState env ip req (Some c) s of
        (resp, c', s) \<Rightarrow> (resp, runAfterWrite env (case c' of Some x \<Rightarrow> x | None \<Rightarrow> c) s))"

lemma exchange_turn:
  assumes "readRequest text = Some (req, [])" "turn env ip req c s = (resp, c', s')" "read_response [] resp = Some resp"
  shows "rtspExchangeEvidence (lab_network env ip port datagram order) verb text (c, s) =
    (Some ((parseRTSPExchange verb resp)\<lparr>exDuration := time_sub 0 0\<rparr>), (c', s'))"
  using assms
  by (auto simp: rtspExchangeEvidence_def rtspExchange_def lab_network_def handleConn_turn_def turn_def Let_def
      split: prod.splits)

lemma plain_cong: "srvProfile s' = srvProfile s \<Longrightarrow> srvConfig s' = srvConfig s \<Longrightarrow> plain_server s' = plain_server s"
  by (simp add: plain_server_def)

lemma setup_turn:
  assumes "env_ok env" "server_ok s" "srvNextID s + 1 < 2 ^ 63" "plain_server s"
    "\<not> profRequireDescribeBeforeSetup (srvProfile s)" "order_ok nw"
    "tsMode (parseTransport (envParseIP env) (probe_transport o' port)) = transportUDP"
    "clean_line (destination (parseTransport (envParseIP env) (probe_transport o' port)) ip)"
    "turn env ip (probe_setup o' port) c s = (resp, c', s')"
  defines "sid \<equiv> pad_int 8 (srvNextID s + 1)"
  shows "reads_setup nw sid resp s' \<and> srvSessions s' \<subseteq> insert sid (srvSessions s) \<and>
    srvProfile s' = srvProfile s \<and> srvConfig s' = srvConfig s"
proof -
  let ?req = "probe_setup o' port"
  have m: "rqMethod ?req = ''SETUP''" by (simp add: probe_setup_def)
  have fresh: "sid \<notin> srvSessions s" unfolding sid_def by (rule server_fresh(1) [OF assms(2)])
  obtain s4 s5 where d: "ok_to s s4" "ok_to s s5" "same_texts s s4" "same_texts s s5"
    "handleRequestWithState env ip ?req (Some c) s =
       (if cfgScenario (srvConfig s) = StartTunerBusy \<and> rqMethod ?req = ''SETUP''
        then (buildResponse (header ?req ''cseq'') (profTunerBusyStatus (srvProfile s)) [''Reason: tuner busy''], Some c, s4)
        else dispatch env ip ?req (header ?req ''cseq'') (Some c) s5)"
    by (rule request_dispatched [OF assms(1,5), of ?req ip "Some c"]) (simp_all add: m probe_headers)
  obtain c1 s1 where h: "handleRequestWithState env ip ?req (Some c) s = (resp, c1, s1)"
    and w: "srvSessions s' = srvSessions s1" "srvProfile s' = srvProfile s1" "srvConfig s' = srvConfig s1"
    using assms(9) by (auto simp: turn_def dest!: after_write_sessions split: prod.splits)
  have "reads_setup nw sid resp s1 \<and> srvSessions s1 \<subseteq> insert sid (srvSessions s) \<and>
    srvProfile s1 = srvProfile s \<and> srvConfig s1 = srvConfig s"
  proof (cases "cfgScenario (srvConfig s) = StartTunerBusy")
    case True
    have "reads_setup nw sid (buildResponse ''1'' ''503 Service Unavailable'' [''Reason: '' @ ''tuner busy'']) s4"
      by (rule refused_reads [OF assms(6)]) (use fresh d(3) in \<open>auto simp: refusals_def same_texts_def\<close>)
    then show ?thesis
      using h d(3,5) True m assms(4) by (auto simp: probe_headers same_texts_def plain_server_def)
  next
    case False
    then have "handleSetupWithState env ip ?req ''1'' (Some c) s5 = (resp, c1, s1)"
      using h d(5) m by (simp add: dispatch_def probe_headers)
    moreover have "plain_server s5" "server_ok s5" "srvNextID s5 = srvNextID s"
      using assms(2,4) d(2,4) plain_cong [of s5 s] by (auto simp: same_texts_def ok_to_def)
    ultimately show ?thesis
      using setup_handler_reads [of s5 nw env ip ?req "Some c" resp c1 s1] assms(3,6-8) d(4)
      by (auto simp: probe_headers sid_def same_texts_def)
  qed
  moreover have "reads_setup nw sid resp s' = reads_setup nw sid resp s1" unfolding reads_setup_def w ..
  ultimately show ?thesis using w by simp
qed

lemma session_id_numeric:
  assumes "numeric_id sid"
  shows "sessionIDFrom sid = sid" "clean_line sid" "sid \<noteq> []"
proof -
  have all: "\<forall>x\<in>set sid. session_char x \<and> \<not> is_space x \<and> x \<noteq> CR \<and> x \<noteq> LF"
    using assms digit_kinds by (auto simp: numeric_id_def list_all_iff)
  then show "clean_line sid" by (auto simp: clean_line_def)
  have "CHR '';'' \<notin> set sid" using all by (auto simp: session_char_def)
  then show "sessionIDFrom sid = sid"
    using trim_space_id [of sid] all by (simp add: sessionIDFrom_def split_char_no_sep)
  show "sid \<noteq> []" using assms by (auto simp: numeric_id_def)
qed

lemma session_header_line: "numeric_id sid \<Longrightarrow> plain_server s \<Longrightarrow> list_all line_ok (sessionHeaders s sid)"
  using session_id_numeric(2) [of sid]
  by (auto simp: sessionHeaders_def plain_server_def line_ok_def clean_line_def CR_def LF_def)

lemma play_handler:
  assumes "handlePlayWithState env req ''2'' c s = (resp, c', s')" "header req ''session'' = sid" "numeric_id sid" "plain_server s"
  shows "srvSessions s' = srvSessions s \<and> srvProfile s' = srvProfile s \<and> srvConfig s' = srvConfig s \<and>
    read_response [] resp = Some resp"
proof -
  have lab: "with_lab f t = (r, t') \<Longrightarrow> srvSessions t' = srvSessions t \<and> srvProfile t' = srvProfile t \<and> srvConfig t' = srvConfig t" for f t r t'
    by (auto simp: with_lab_def split: prod.splits)
  have cseq: "clean_line ''2''" by code_simp
  have fine: "read_response [] (buildResponse ''2'' st extra) = Some (buildResponse ''2'' st extra)"
    if "list_all line_ok extra" "clean_line st" for st extra
    using read_buildResponse [OF that cseq, of "[]"] by simp
  have st: "clean_line ''454 Session Not Found''" "clean_line ''400 Bad Request''" "clean_line ''500 Internal Server Error''"
    "clean_line ''200 OK''" "line_ok ''Reason: invalid pid update''" by code_simp+
  have extras: "list_all line_ok []" "list_all line_ok [''Reason: invalid pid update'']" using st(5) by simp_all
  have heads: "list_all line_ok (sessionHeaders t sid)" if "srvProfile t = srvProfile s" "srvConfig t = srvConfig s" for t
    using that assms(3,4) by (intro session_header_line) (simp_all add: plain_server_def)
  note answers = fine [OF extras(1) st(1)] fine [OF extras(2) st(2)] fine [OF extras(1) st(3)]
  show ?thesis
    using assms(1) session_id_numeric [OF assms(3)] answers
    by (auto simp: handlePlayWithState_def Let_def assms(2) session_not_found_def playPayloadProvider_def
        dest!: lab intro!: fine [OF heads st(4)] split: option.splits sum.splits prod.splits if_splits)
qed

lemma play_turn:
  assumes "env_ok env" "\<not> profRequireDescribeBeforeSetup (srvProfile s)" "plain_server s" "numeric_id sid"
    "turn env ip (probe_session ''PLAY'' ''2'' o' sid) c s = (resp, c', s')"
  shows "srvSessions s' \<subseteq> srvSessions s \<and> srvProfile s' = srvProfile s \<and> srvConfig s' = srvConfig s \<and>
    read_response [] resp = Some resp"
proof -
  let ?req = "probe_session ''PLAY'' ''2'' o' sid"
  have m: "rqMethod ?req = ''PLAY''" by (simp add: probe_session_def)
  obtain s4 s5 where d: "same_texts s s5" "handleRequestWithState env ip ?req (Some c) s =
       (if cfgScenario (srvConfig s) = StartTunerBusy \<and> rqMethod ?req = ''SETUP''
        then (buildResponse (header ?req ''cseq'') (profTunerBusyStatus (srvProfile s)) [''Reason: tuner busy''], Some c, s4)
        else dispatch env ip ?req (header ?req ''cseq'') (Some c) s5)"
    by (rule request_dispatched [OF assms(1,2), of ?req ip "Some c"]) (simp_all add: m probe_headers)
  obtain c1 s1 where h: "handleRequestWithState env ip ?req (Some c) s = (resp, c1, s1)"
    and w: "srvSessions s' = srvSessions s1" "srvProfile s' = srvProfile s1" "srvConfig s' = srvConfig s1"
    using assms(5) by (auto simp: turn_def dest!: after_write_sessions split: prod.splits)
  have "handlePlayWithState env ?req ''2'' (Some c) s5 = (resp, c1, s1)"
    using h d(2) m by (simp add: dispatch_def probe_headers)
  from play_handler [OF this _ assms(4), unfolded probe_headers, OF refl] show ?thesis
    using d(1) assms(3) w plain_cong [of s5 s] by (auto simp: same_texts_def)
qed

lemma teardown_turn:
  assumes "env_ok env" "\<not> profRequireDescribeBeforeSetup (srvProfile s)" "plain_server s" "numeric_id sid"
    "turn env ip (probe_session ''TEARDOWN'' ''3'' o' sid) c s = (resp, c', s')"
  shows "srvSessions s' \<subseteq> srvSessions s - {sid} \<and> read_response [] resp = Some resp"
proof -
  let ?req = "probe_session ''TEARDOWN'' ''3'' o' sid"
  have m: "rqMethod ?req = ''TEARDOWN''" by (simp add: probe_session_def)
  obtain s4 s5 where d: "same_texts s s5" "handleRequestWithState env ip ?req (Some c) s =
       (if cfgScenario (srvConfig s) = StartTunerBusy \<and> rqMethod ?req = ''SETUP''
        then (buildResponse (header ?req ''cseq'') (profTunerBusyStatus (srvProfile s)) [''Reason: tuner busy''], Some c, s4)
        else dispatch env ip ?req (header ?req ''cseq'') (Some c) s5)"
    by (rule request_dispatched [OF assms(1,2), of ?req ip "Some c"]) (simp_all add: m probe_headers)
  obtain c1 s1 where h: "handleRequestWithState env ip ?req (Some c) s = (resp, c1, s1)"
    and w: "srvSessions s' = srvSessions s1"
    using assms(5) by (auto simp: turn_def dest!: after_write_sessions split: prod.splits)
  let ?s = "(stopAndDeleteSession sid s5)\<lparr>srvLab := Teardown sid (srvLab (stopAndDeleteSession sid s5))\<rparr>"
  have "handleTeardownWithState ?req ''3'' (Some c) s5 = (resp, c1, s1)"
    using h d(2) m by (simp add: dispatch_def probe_headers)
  then have s1: "resp = buildResponse ''3'' ''200 OK'' (sessionHeaders ?s sid)" "s1 = ?s"
    using session_id_numeric [OF assms(4)] by (auto simp: handleTeardownWithState_def probe_headers Let_def)
  have gone: "srvSessions ?s = srvSessions s5 - {sid}" "srvProfile ?s = srvProfile s5" "srvConfig ?s = srvConfig s5"
    by (auto simp: stopAndDeleteSession_def Let_def)
  have "plain_server ?s" using assms(3) d(1) gone by (simp add: plain_server_def same_texts_def)
  then have "read_response [] (resp @ []) = Some resp"
    unfolding s1(1) using session_header_line [OF assms(4)]
    by (intro read_buildResponse) (simp_all, code_simp+)
  then show ?thesis using d(1) w s1(2) gone(1) by (auto simp: same_texts_def)
qed

lemma next_id_numeric:
  assumes "server_ok s"
  shows "numeric_id (pad_int 8 (srvNextID s + 1))" "sessionIDFormat (pad_int 8 (srvNextID s + 1)) = ''numeric''"
proof -
  have "0 \<le> srvNextID s + 1" using assms by (simp add: server_ok_def objects_ok_def)
  then show "numeric_id (pad_int 8 (srvNextID s + 1))" using pad_int_digits by (simp add: numeric_id_def list_all_iff)
  then show "sessionIDFormat (pad_int 8 (srvNextID s + 1)) = ''numeric''" by (simp add: sessionIDFormat_def numeric_id_def)
qed

lemma lab_network_open:
  "nwListen (lab_network env ip port d order) x w = (Some port, w)"
  "nwDial (lab_network env ip port d order) x w = (True, w)" "nwReceive (lab_network env ip port d order) w = (d, w)"
  by (simp_all add: lab_network_def)

text \<open>C23. The probe end to end against the server. It succeeds exactly when its SETUP was accepted, its PLAY
  answered with 200 and the datagram is RTP with a transport stream; it then reports the id of the session
  that the server made for it, as numeric, and leaves no session of its own behind. Otherwise it fails
  with the error that names the step, and never because it misreads an answer.\<close>

theorem probe_outcome:
  assumes "env_ok env" "server_ok s" "srvNextID s + 1 < 2 ^ 63" "plain_server s"
    "\<not> profRequireDescribeBeforeSetup (srvProfile s)" "order_ok (lab_network env ip port datagram order)"
    and opts: "with_defaults opts = o'" "host_ok (poHost o')" "header_ok (''Transport'', probe_transport o' port)"
    and udp: "tsMode (parseTransport (envParseIP env) (probe_transport o' port)) = transportUDP"
      "clean_line (destination (parseTransport (envParseIP env) (probe_transport o' port)) ip)"
    and turns: "turn env ip (probe_setup o' port) newConnectionState s = (r1, c1, s1)"
      "turn env ip (probe_session ''PLAY'' ''2'' o' (pad_int 8 (srvNextID s + 1))) c1 s1 = (r2, c2, s2)"
  shows "case ProbeRTSPRTP (lab_network env ip port datagram order) opts (newConnectionState, s) of
    (result, (c', s')) \<Rightarrow>
      if pad_int 8 (srvNextID s + 1) \<notin> srvSessions s1 then \<exists>t. result = Inl (SetupFailed t)
      else if \<not> contains_str ''200 OK'' (exStatusLine (parseRTSPExchange ''PLAY'' r2)) then \<exists>t. result = Inl (PlayFailed t)
      else (case datagram of None \<Rightarrow> result = Inl NoPacket
        | Some d \<Rightarrow> (case check_packet d of Inl e \<Rightarrow> result = Inl e
            | Inr _ \<Rightarrow> (\<exists>r. result = Inr r \<and> prSessionID r = pad_int 8 (srvNextID s + 1) \<and>
                prSessionIDFormat r = ''numeric'') \<and> srvSessions s' \<subseteq> srvSessions s))"
proof -
  let ?nw = "lab_network env ip port datagram order"
  let ?sid = "pad_int 8 (srvNextID s + 1)"
  note num = next_id_numeric [OF assms(2)]
  note t1 = setup_turn [OF assms(1-6) udp turns(1)]
  have s1: "plain_server s1" "\<not> profRequireDescribeBeforeSetup (srvProfile s1)"
    using t1 assms(4,5) plain_cong [of s1 s] by auto
  have "read_response [] r1 = Some r1" using t1 by (auto simp: reads_setup_def dest: spec [of _ "[]"])
  note e1 = exchange_turn [OF read_setup_request [OF opts(2,3)] turns(1) this,
      where port = port and order = order and verb = "''SETUP''"]
  show ?thesis
  proof (cases "?sid \<in> srvSessions s1")
    case False
    obtain t where "setup_session ?nw ((parseRTSPExchange ''SETUP'' r1)\<lparr>exDuration := time_sub 0 0\<rparr>) = Inl (SetupFailed t)"
      using reads_setup_results(2) [OF conjunct1 [OF t1] False] by blast
    then show ?thesis using False by (simp add: ProbeRTSPRTP_def Let_def opts(1) lab_network_open e1)
  next
    case True
    have "setup_session ?nw ((parseRTSPExchange ''SETUP'' r1)\<lparr>exDuration := time_sub 0 0\<rparr>) = Inr ?sid"
      using reads_setup_results(1) [OF conjunct1 [OF t1] True] .
    then have sess: "setup_session (lab_network env ip port d order)
        ((parseRTSPExchange ''SETUP'' r1)\<lparr>exDuration := time_sub 0 0\<rparr>) = Inr ?sid" for d
      by (simp add: setup_session_def lab_network_def)
    note t2 = play_turn [OF assms(1) s1(2,1) num(1) turns(2)]
    note e2 = exchange_turn [OF read_session_request [OF opts(2) num(1)] turns(2) conjunct2 [OF conjunct2 [OF conjunct2 [OF t2]]],
        where port = port and order = order and verb = "''PLAY''"]
    obtain r3 c3 s3 where turn3: "turn env ip (probe_session ''TEARDOWN'' ''3'' o' ?sid) c2 s2 = (r3, c3, s3)"
      by (cases "turn env ip (probe_session ''TEARDOWN'' ''3'' o' ?sid) c2 s2")
    have s2: "plain_server s2" "\<not> profRequireDescribeBeforeSetup (srvProfile s2)"
      using t2 s1 plain_cong [of s2 s1] by auto
    note t3 = teardown_turn [OF assms(1) s2(2,1) num(1) turn3]
    note e3 = exchange_turn [OF read_session_request [OF opts(2) num(1)] turn3 conjunct2 [OF t3],
        where port = port and order = order and verb = "''TEARDOWN''"]
    have "srvSessions s3 \<subseteq> srvSessions s" using t1 t2 t3 by blast
    then show ?thesis
      using True
      by (simp add: ProbeRTSPRTP_def Let_def opts(1) lab_network_open e1 sess e2 e3 num(2) split: option.split sum.split)
  qed
qed

lemma parse_mode:
  "tsMode (parseTransport ip h) =
     (if h \<noteq> [] \<and> contains_str ''rtp/avp/tcp'' (to_lower h) then transportInterleaved else transportUDP)"
  by (simp add: parseTransport_def Let_def split: option.split)

lemma parse_no_ip: "tsDestinationIP (parseTransport (\<lambda>_. None) h) = None"
  by (simp add: parseTransport_def Let_def split: option.split)

definition demo_probe :: probe_options where
  "demo_probe = \<lparr>poHost = ''lab'', poPort = 8, poRTPBindAddress = ''0'', poDestination = [], poProfile = [],
     poTimeout = second\<rparr>"

definition demo_order :: "(string \<rightharpoonup> string) \<Rightarrow> string list" where
  "demo_order hs = sorted_list_of_set (dom hs)"

text \<open>A packet of the server's RTP sender passes the check.\<close>

lemma rtp_checked:
  assumes "chunk \<noteq> []" "hd chunk = 0x47" "length chunk \<le> 2036"
  shows "check_packet (fst (RTP_Packet r chunk)) = Inr (12 + length chunk, 33, 0x47)"
proof -
  let ?p = "fst (RTP_Packet r chunk)"
  have len: "length ?p = 12 + length chunk" by (simp add: RTP_Packet_def len_simps)
  have "?p ! 12 = drop 12 ?p ! 0" using len assms(1) by simp
  also have "\<dots> = 0x47" using rtp_packet_fields [of r chunk] assms(1,2) by (simp add: hd_conv_nth)
  finally have "?p ! 12 = 0x47" .
  moreover have "drop_bit 6 (0x80 :: byte) = 2" "(33 :: byte) AND 0x7F = 33" by code_simp+
  moreover have "take 2048 ?p = ?p" "\<not> length ?p < 13" using len assms(1,3) by (auto simp: Suc_le_eq)
  ultimately show ?thesis
    using rtp_packet_fields [of r chunk] len by (simp add: check_packet_def Let_def)
qed

theorem probe_outcome_witness:
  "case ProbeRTSPRTP (lab_network demo_env ''10.0.0.2'' 8 (Some (fst (RTP_Packet NewRTPSender [0x47, 1]))) demo_order)
      demo_probe (newConnectionState, demo_server) of
    (Inl e, _) \<Rightarrow> (\<exists>t. e = SetupFailed t \<or> e = PlayFailed t)
  | (Inr r, (c', s')) \<Rightarrow> prSessionID r = ''00000001'' \<and> prSessionIDFormat r = ''numeric'' \<and> srvSessions s' = {}"
proof -
  let ?t = "probe_transport demo_probe 8"
  obtain r1 c1 s1 where t1: "turn demo_env ''10.0.0.2'' (probe_setup demo_probe 8) newConnectionState demo_server = (r1, c1, s1)"
    by (cases "turn demo_env ''10.0.0.2'' (probe_setup demo_probe 8) newConnectionState demo_server")
  have sid: "pad_int 8 (srvNextID demo_server + 1) = ''00000001''" unfolding demo_server_lab by code_simp
  obtain r2 c2 s2 where t2: "turn demo_env ''10.0.0.2'' (probe_session ''PLAY'' ''2'' demo_probe
      (pad_int 8 (srvNextID demo_server + 1))) c1 s1 = (r2, c2, s2)"
    by (cases "turn demo_env ''10.0.0.2'' (probe_session ''PLAY'' ''2'' demo_probe (pad_int 8 (srvNextID demo_server + 1))) c1 s1")
  have ok: "server_ok demo_server" "srvNextID demo_server + 1 < 2 ^ 63"
    unfolding demo_server_def NewServer_def Let_def
    by (simp_all add: server_ok_def reg.agrees_def demo_lab_inv demo_lab_sessions objects_ok_def)
  have plain: "plain_server demo_server" "\<not> profRequireDescribeBeforeSetup (srvProfile demo_server)" by code_simp+
  have order: "order_ok (lab_network demo_env ''10.0.0.2'' 8 d demo_order)" for d
    by (simp add: order_ok_def lab_network_def demo_order_def)
  have opts: "with_defaults demo_probe = demo_probe" "host_ok (poHost demo_probe)" "header_ok (''Transport'', ?t)" by code_simp+
  have "\<not> contains_str ''rtp/avp/tcp'' (to_lower ?t)" "clean_line ''10.0.0.2''" by code_simp+
  then have udp: "tsMode (parseTransport (envParseIP demo_env) ?t) = transportUDP"
    "clean_line (destination (parseTransport (envParseIP demo_env) ?t) ''10.0.0.2'')"
    by (simp_all add: parse_mode destination_def demo_env_def parse_no_ip)
  have checked: "check_packet (fst (RTP_Packet NewRTPSender [0x47, 1])) = Inr (14, 33, 0x47)"
    using rtp_checked [of "[0x47, 1]" NewRTPSender] by simp
  from probe_outcome [OF demo_env_ok ok plain order [of "Some (fst (RTP_Packet NewRTPSender [0x47, 1]))"] opts udp t1 t2,
      unfolded sid demo_server_lab(3) option.case checked sum.case]
  show ?thesis by (auto split: prod.splits sum.splits if_splits)
qed

end
