(* ===== verification/Clients.thy ===== *)
theory Clients
  imports Smoke Json
begin

text \<open>
  The two clients of the HTTP API: the control command (\<open>internal/simctl/simctl.go\<close>) and the MCP server
  (\<open>internal/mcp/server.go\<close>). The HTTP client, the clock and the RTSP network are parameters that work on
  a state of the world; so are the parsers of integer and duration flags and of JSON text. Writing to the
  standard streams is taken to succeed; what is written to the error stream is an error value.
\<close>

section \<open>The world of a client\<close>

record http_reply =
  rpCode :: int
  rpStatus :: string
  rpBody :: "string option"

text \<open>A request that fails may still come with a reply, as when a redirect is refused.\<close>

datatype http_result = Replied http_reply | NotReplied string "http_reply option"

record 'w http_client =
  hcGet :: "string \<Rightarrow> 'w \<Rightarrow> http_result \<times> 'w"
  hcPost :: "string \<Rightarrow> json option \<Rightarrow> 'w \<Rightarrow> http_result \<times> 'w"
  hcNow :: "'w \<Rightarrow> time \<times> 'w"
  hcSleep :: "duration \<Rightarrow> 'w \<Rightarrow> 'w"

definition success :: "int \<Rightarrow> bool" where
  "success code \<longleftrightarrow> \<not> (code < 200 \<or> code > 299)"

definition trim_right :: "char \<Rightarrow> string \<Rightarrow> string" where
  "trim_right c s = rev (dropWhile (\<lambda>x. x = c) (rev s))"

text \<open>The loop of \<open>wait\<close> and of \<open>waitReady\<close>: poll until the deadline, with a sleep after each failure. The
  result is that of the poll that succeeded, or the last error.\<close>

partial_function (option) poll_loop ::
  "('w \<Rightarrow> time \<times> 'w) \<Rightarrow> ('w \<Rightarrow> ('e + 'r) \<times> 'w) \<Rightarrow> ('w \<Rightarrow> 'w) \<Rightarrow> time \<Rightarrow> 'e option \<Rightarrow> 'w
    \<Rightarrow> (('e option + 'r) \<times> 'w) option" where
  "poll_loop now poll sleep deadline lastErr w =
     (case now w of (t, w) \<Rightarrow>
        if \<not> t < deadline then Some (Inl lastErr, w)
        else
          (case poll w of
             (Inr r, w) \<Rightarrow> Some (Inr r, w)
           | (Inl e, w) \<Rightarrow> poll_loop now poll sleep deadline (Some e) (sleep w)))"

section \<open>Flags\<close>

datatype flag_kind = StringFlag | IntFlag | DurationFlag | BoolFlag

datatype flag_error = BadFlag string | HelpRequested | UndefinedFlag string | NeedsArgument string | InvalidValue string string

text \<open>\<open>strconv.ParseBool\<close>.\<close>

definition parse_bool :: "string \<Rightarrow> bool option" where
  "parse_bool t =
     (if t \<in> {''1'', ''t'', ''T'', ''TRUE'', ''true'', ''True''} then Some True
      else if t \<in> {''0'', ''f'', ''F'', ''FALSE'', ''false'', ''False''} then Some False else None)"

record flag_parsers =
  fpInt :: "string \<Rightarrow> int option"
  fpDuration :: "string \<Rightarrow> duration option"

definition valid_value :: "flag_parsers \<Rightarrow> flag_kind \<Rightarrow> string \<Rightarrow> bool" where
  "valid_value fp kind v =
     (case kind of
        StringFlag \<Rightarrow> True
      | IntFlag \<Rightarrow> fpInt fp v \<noteq> None
      | DurationFlag \<Rightarrow> fpDuration fp v \<noteq> None
      | BoolFlag \<Rightarrow> parse_bool v \<noteq> None)"

text \<open>\<open>FlagSet.Parse\<close>: the values that were set, by name, and the other arguments. A boolean flag takes its value
  only after an equals sign.\<close>

definition split_flag :: "string \<Rightarrow> string \<times> string option" where
  "split_flag name =
     (let key = takeWhile (\<lambda>c. c \<noteq> CHR ''='') name; rest = dropWhile (\<lambda>c. c \<noteq> CHR ''='') name
      in (key, if rest = [] then None else Some (tl rest)))"

definition set_flag :: "flag_parsers \<Rightarrow> flag_kind \<Rightarrow> string \<Rightarrow> string \<Rightarrow> (string \<rightharpoonup> string)
    \<Rightarrow> flag_error + (string \<rightharpoonup> string)" where
  "set_flag fp kind key v vals = (if valid_value fp kind v then Inr (vals(key \<mapsto> v)) else Inl (InvalidValue key v))"

fun parse_flags :: "flag_parsers \<Rightarrow> (string \<rightharpoonup> flag_kind) \<Rightarrow> (string \<rightharpoonup> string) \<Rightarrow> string list
    \<Rightarrow> flag_error + (string \<rightharpoonup> string) \<times> string list" where
  "parse_flags fp specs vals [] = Inr (vals, [])"
| "parse_flags fp specs vals (s # args) =
     (if length s < 2 \<or> hd s \<noteq> CHR ''-'' then Inr (vals, s # args)
      else if s = ''--'' then Inr (vals, args)
      else
        let name = (if s ! 1 = CHR ''-'' then drop 2 s else drop 1 s)
        in if name = [] \<or> hd name = CHR ''-'' \<or> hd name = CHR ''='' then Inl (BadFlag s)
           else
             (case split_flag name of
                (key, v) \<Rightarrow>
                  (case specs key of
                     None \<Rightarrow> Inl (if key = ''help'' \<or> key = ''h'' then HelpRequested else UndefinedFlag key)
                   | Some kind \<Rightarrow>
                       (case v of
                          Some v \<Rightarrow>
                            (case set_flag fp kind key v vals of
                               Inl e \<Rightarrow> Inl e
                             | Inr vals \<Rightarrow> parse_flags fp specs vals args)
                        | None \<Rightarrow>
                            if kind = BoolFlag then parse_flags fp specs (vals(key \<mapsto> ''true'')) args
                            else
                            (case args of
                               [] \<Rightarrow> Inl (NeedsArgument key)
                             | v # args' \<Rightarrow>
                                 (case set_flag fp kind key v vals of
                                    Inl e \<Rightarrow> Inl e
                                  | Inr vals \<Rightarrow> parse_flags fp specs vals args'))))))"

definition string_flag :: "(string \<rightharpoonup> string) \<Rightarrow> string \<Rightarrow> string \<Rightarrow> string" where
  "string_flag vals key dflt = (case vals key of None \<Rightarrow> dflt | Some v \<Rightarrow> v)"

definition int_flag :: "flag_parsers \<Rightarrow> (string \<rightharpoonup> string) \<Rightarrow> string \<Rightarrow> int \<Rightarrow> int" where
  "int_flag fp vals key dflt =
     (case vals key of None \<Rightarrow> dflt | Some v \<Rightarrow> (case fpInt fp v of None \<Rightarrow> dflt | Some i \<Rightarrow> i))"

definition duration_flag :: "flag_parsers \<Rightarrow> (string \<rightharpoonup> string) \<Rightarrow> string \<Rightarrow> duration \<Rightarrow> duration" where
  "duration_flag fp vals key dflt =
     (case vals key of None \<Rightarrow> dflt | Some v \<Rightarrow> (case fpDuration fp v of None \<Rightarrow> dflt | Some d \<Rightarrow> d))"

definition bool_flag :: "(string \<rightharpoonup> string) \<Rightarrow> string \<Rightarrow> bool" where
  "bool_flag vals key = (case vals key of None \<Rightarrow> False | Some v \<Rightarrow> parse_bool v = Some True)"

section \<open>The control command\<close>

datatype ctl_error =
    UnknownCommand string | HTTPFailed string | BodyUnread | Returned string string
  | FlagFailed flag_error | WaitTimedOut "string option" | ProbeFailed probe_error

record 'w control =
  ccURL :: string
  ccHTTP :: "'w http_client"
  ccNetwork :: "'w network"
  ccFlags :: flag_parsers

definition writeResponse :: "http_reply \<Rightarrow> ctl_error + string" where
  "writeResponse r =
     (case rpBody r of
        None \<Rightarrow> Inl BodyUnread
      | Some body \<Rightarrow>
          if \<not> success (rpCode r) then Inl (Returned (rpStatus r) (trim_space body))
          else Inr (if length body > 0 \<and> last body \<noteq> LF then body @ [LF] else body))"

definition written :: "http_result \<Rightarrow> ctl_error + string" where
  "written res = (case res of NotReplied e _ \<Rightarrow> Inl (HTTPFailed e) | Replied r \<Rightarrow> writeResponse r)"

definition ctl_get :: "'w control \<Rightarrow> string \<Rightarrow> 'w \<Rightarrow> (ctl_error + string) \<times> 'w" where
  "ctl_get c path w = (case hcGet (ccHTTP c) (ccURL c @ path) w of (res, w) \<Rightarrow> (written res, w))"

definition ctl_post :: "'w control \<Rightarrow> string \<Rightarrow> json option \<Rightarrow> 'w \<Rightarrow> (ctl_error + string) \<times> 'w" where
  "ctl_post c path payload w = (case hcPost (ccHTTP c) (ccURL c @ path) payload w of (res, w) \<Rightarrow> (written res, w))"

definition isHelpArg :: "string \<Rightarrow> bool" where
  "isHelpArg arg \<longleftrightarrow> arg = ''help'' \<or> arg = ''-h'' \<or> arg = ''--help''"

definition usage :: string where
  "usage = join [LF]
     [''Usage: satip-labctl [--http-url URL] <command> [options]'', [], ''Commands:'',
      ''  wait       Poll /api/agent/context until satip-lab is ready'',
      ''  context    Print /api/agent/context'', ''  status     Print /api/status'',
      ''  services   Print /api/services'', ''  scenario   Get or set runtime scenario'',
      ''  reset      POST /api/reset'', ''  smoke      Run RTSP/RTP smoke probe'', []]"

definition scenarioUsage :: string where
  "scenarioUsage = join [LF]
     [''Usage: satip-labctl [--http-url URL] scenario [name] [options]'', [],
      ''Without a name, prints the active runtime scenario.'', [], ''Options:'',
      ''  --service string       service id target'', ''  --mux string           mux id target'',
      ''  --duration-min int     duration in minutes for epg_gap'', []]"

text \<open>The keys of the payload in the order in which a map is encoded.\<close>

definition scenario_payload :: "string \<Rightarrow> string \<Rightarrow> string \<Rightarrow> int \<Rightarrow> json" where
  "scenario_payload name svc mux durationMin =
     JObject ((if durationMin > 0 then [(''duration_min'', JNumber (itoa durationMin))] else [])
       @ (if mux \<noteq> [] then [(''mux_id'', JString mux)] else [])
       @ [(''name'', JString name)]
       @ (if svc \<noteq> [] then [(''service_id'', JString svc)] else []))"

definition scenario_command :: "'w control \<Rightarrow> string list \<Rightarrow> 'w \<Rightarrow> (ctl_error + string) \<times> 'w" where
  "scenario_command c args w =
     (case args of
        [] \<Rightarrow> ctl_get c ''/api/scenario'' w
      | name # rest \<Rightarrow>
          if isHelpArg name then (Inr scenarioUsage, w)
          else
            (case parse_flags (ccFlags c)
                [''service'' \<mapsto> StringFlag, ''mux'' \<mapsto> StringFlag, ''duration-min'' \<mapsto> IntFlag] Map.empty rest of
               Inl e \<Rightarrow> (Inl (FlagFailed e), w)
             | Inr (vals, _) \<Rightarrow>
                 ctl_post c ''/api/scenario'' (Some (scenario_payload name (string_flag vals ''service'' [])
                   (string_flag vals ''mux'' []) (int_flag (ccFlags c) vals ''duration-min'' 0))) w))"

definition wait_poll :: "'w control \<Rightarrow> 'w \<Rightarrow> (string + unit) \<times> 'w" where
  "wait_poll c w =
     (case hcGet (ccHTTP c) (ccURL c @ ''/api/agent/context'') w of
        (res, w) \<Rightarrow>
          ((case res of
              Replied r \<Rightarrow> if rpCode r \<ge> 200 \<and> rpCode r \<le> 299 then Inr () else Inl (''status '' @ rpStatus r)
            | NotReplied e None \<Rightarrow> Inl e
            | NotReplied e (Some r) \<Rightarrow> Inl (''status '' @ rpStatus r)), w))"

definition wait_for :: "'w control \<Rightarrow> duration \<Rightarrow> duration \<Rightarrow> 'w \<Rightarrow> ((string option + unit) \<times> 'w) option" where
  "wait_for c timeout interval w =
     (case hcNow (ccHTTP c) w of
        (now, w) \<Rightarrow> poll_loop (hcNow (ccHTTP c)) (wait_poll c) (hcSleep (ccHTTP c) interval) (now + timeout) None w)"

definition wait_command :: "'w control \<Rightarrow> string list \<Rightarrow> 'w \<Rightarrow> ((ctl_error + string) \<times> 'w) option" where
  "wait_command c args w =
     (case parse_flags (ccFlags c) [''timeout'' \<mapsto> DurationFlag, ''interval'' \<mapsto> DurationFlag] Map.empty args of
        Inl e \<Rightarrow> Some (Inl (FlagFailed e), w)
      | Inr (vals, _) \<Rightarrow>
          (case wait_for c (duration_flag (ccFlags c) vals ''timeout'' (30 * second))
              (duration_flag (ccFlags c) vals ''interval'' (250 * millisecond)) w of
             None \<Rightarrow> None
           | Some (Inr _, w) \<Rightarrow> Some (Inr (''satip-lab ready'' @ [LF]), w)
           | Some (Inl lastErr, w) \<Rightarrow> Some (Inl (WaitTimedOut lastErr), w)))"

definition smoke_report :: "probe_result \<Rightarrow> string" where
  "smoke_report r =
     ''RTSP/RTP smoke OK: session='' @ prSessionID r @ '' rtp_bytes='' @ itoa (int (prRTPBytes r))
       @ '' payload_type='' @ itoa (uint (prPayloadType r)) @ '' sync='' @ peSyncByte (JSONEvidence r) @ [LF]"

definition smoke_command :: "'w control \<Rightarrow> string list \<Rightarrow> 'w \<Rightarrow> (ctl_error + string) \<times> 'w" where
  "smoke_command c args w =
     (case parse_flags (ccFlags c) [''rtsp-host'' \<mapsto> StringFlag, ''rtsp-port'' \<mapsto> IntFlag, ''rtp-bind'' \<mapsto> StringFlag,
          ''rtp-destination'' \<mapsto> StringFlag, ''timeout'' \<mapsto> DurationFlag] Map.empty args of
        Inl e \<Rightarrow> (Inl (FlagFailed e), w)
      | Inr (vals, _) \<Rightarrow>
          (case ProbeRTSPRTP (ccNetwork c)
              \<lparr>poHost = string_flag vals ''rtsp-host'' ''127.0.0.1'', poPort = int_flag (ccFlags c) vals ''rtsp-port'' 554,
               poRTPBindAddress = string_flag vals ''rtp-bind'' ''0.0.0.0'',
               poDestination = string_flag vals ''rtp-destination'' [], poProfile = [],
               poTimeout = duration_flag (ccFlags c) vals ''timeout'' (5 * second)\<rparr> w of
             (Inl e, w) \<Rightarrow> (Inl (ProbeFailed e), w)
           | (Inr r, w) \<Rightarrow> (Inr (smoke_report r), w)))"

definition ctl_run :: "'w control \<Rightarrow> string list \<Rightarrow> 'w \<Rightarrow> ((ctl_error + string) \<times> 'w) option" where
  "ctl_run c args w =
     (let cmd = hd args in
      if cmd = ''context'' then Some (ctl_get c ''/api/agent/context'' w)
      else if cmd = ''status'' then Some (ctl_get c ''/api/status'' w)
      else if cmd = ''services'' then Some (ctl_get c ''/api/services'' w)
      else if cmd = ''scenario'' then Some (scenario_command c (tl args) w)
      else if cmd = ''reset'' then Some (ctl_post c ''/api/reset'' None w)
      else if cmd = ''wait'' then wait_command c (tl args) w
      else if cmd = ''smoke'' then Some (smoke_command c (tl args) w)
      else if isHelpArg cmd then Some (Inr usage, w)
      else Some (Inl (UnknownCommand cmd), w))"

text \<open>\<open>Run\<close>: the exit code.\<close>

definition ctl_main :: "'w http_client \<Rightarrow> 'w network \<Rightarrow> flag_parsers \<Rightarrow> string list \<Rightarrow> 'w \<Rightarrow> (int \<times> 'w) option" where
  "ctl_main hc nw fp args w =
     (case parse_flags fp [''http-url'' \<mapsto> StringFlag] Map.empty args of
        Inl e \<Rightarrow> Some (2, w)
      | Inr (vals, rest) \<Rightarrow>
          if rest = [] then Some (2, w)
          else
            (case ctl_run \<lparr>ccURL = trim_right (CHR ''/'') (string_flag vals ''http-url'' ''http://127.0.0.1:8875''),
                ccHTTP = hc, ccNetwork = nw, ccFlags = fp\<rparr> rest w of
               None \<Rightarrow> None
             | Some (Inl e, w) \<Rightarrow> Some (1, w)
             | Some (Inr _, w) \<Rightarrow> Some (0, w)))"

end
