(* ===== verification/Mcp.thy ===== *)
theory Mcp
  imports Clients
begin

text \<open>
  The MCP server (\<open>internal/mcp/server.go\<close>): JSON-RPC over lines of text, with the tools that call the HTTP
  API. Parsing the text of a line as JSON is a parameter, and so is the HTTP client; encoding a response to
  the output is taken to succeed.
\<close>

section \<open>Messages\<close>

record rpc_request =
  mqJSONRPC :: string
  mqID :: "json option"
  mqMethod :: string
  mqParams :: "json option"

datatype tool_error =
    InvalidParams json_error | NoParams | UnknownTool string | ToolHTTPFailed string | ToolBodyUnread
  | ToolReturned string string | NotReady

datatype rpc_error = MethodNotFound | ParseFailed | ToolFailed tool_error

text \<open>The code of an error in the response.\<close>

definition rpc_code :: "rpc_error \<Rightarrow> int" where
  "rpc_code e = (case e of MethodNotFound \<Rightarrow> -32601 | ParseFailed \<Rightarrow> -32700 | ToolFailed _ \<Rightarrow> -32000)"

record rpc_response =
  msID :: "json option"
  msResult :: "json option"
  msError :: "rpc_error option"

record tool_definition =
  tdName :: string
  tdDescription :: string
  tdInputSchema :: json

record tool_call =
  tcName :: string
  tcArguments :: "(string \<times> json) list option"

record 'w mcp_server =
  mcpURL :: string
  mcpHTTP :: "'w http_client"

definition NewMCPServer :: "string \<Rightarrow> 'w http_client \<Rightarrow> 'w mcp_server" where
  "NewMCPServer baseURL hc =
     (let baseURL = trim_right (CHR ''/'') baseURL
      in \<lparr>mcpURL = (if baseURL = [] then ''http://127.0.0.1:8875'' else baseURL), mcpHTTP = hc\<rparr>)"

section \<open>Tools\<close>

definition object_schema :: json where
  "object_schema = JObject [(''properties'', JObject []), (''type'', JString ''object'')]"

definition typed :: "string \<Rightarrow> json" where
  "typed t = JObject [(''type'', JString t)]"

definition scenarioInputSchema :: json where
  "scenarioInputSchema = JObject
     [(''properties'', JObject
        [(''duration_min'', typed ''integer''), (''mux_id'', typed ''string''), (''name'', typed ''string''),
         (''service_id'', typed ''string''),
         (''timeline'', JObject
            [(''items'', JObject
                [(''properties'', JObject
                    [(''at_ms'', typed ''integer''), (''duration_min'', typed ''integer''), (''mux_id'', typed ''string''),
                     (''name'', typed ''string''), (''service_id'', typed ''string'')]),
                 (''required'', JArray [JString ''at_ms'', JString ''name'']),
                 (''type'', JString ''object'')]),
             (''type'', JString ''array'')])]),
      (''type'', JString ''object'')]"

definition tool :: "string \<Rightarrow> string \<Rightarrow> json \<Rightarrow> tool_definition" where
  "tool name desc schema = \<lparr>tdName = name, tdDescription = desc, tdInputSchema = schema\<rparr>"

definition tools :: "tool_definition list" where
  "tools =
     [tool ''satip_agent_context'' ''Return coding-agent bootstrap context from /api/agent/context.'' object_schema,
      tool ''satip_status'' ''Return simulator status, including tuners, sessions, and recent events.'' object_schema,
      tool ''satip_services'' ''Return the active SAT>IP service catalog.'' object_schema,
      tool ''satip_scenario'' ''Return the active runtime scenario.'' object_schema,
      tool ''satip_reset'' ''Reset sessions, tuners, RTP senders, and lab events.'' object_schema,
      tool ''satip_set_scenario''
        ''Set a runtime scenario; accepts name plus optional service_id, mux_id, duration_min, or a timeline array.''
        scenarioInputSchema,
      tool ''satip_wait_ready'' ''Poll /api/agent/context until the simulator is ready.'' object_schema]"

definition textResult :: "string \<Rightarrow> json" where
  "textResult txt = JObject [(''content'', JArray [JObject [(''type'', JString ''text''), (''text'', JString txt)]])]"

definition readToolResponse :: "http_reply \<Rightarrow> tool_error + json" where
  "readToolResponse r =
     (case rpBody r of
        None \<Rightarrow> Inl ToolBodyUnread
      | Some body \<Rightarrow>
          if rpCode r < 200 \<or> rpCode r > 299 then Inl (ToolReturned (rpStatus r) (trim_space body))
          else Inr (textResult body))"

definition tool_result :: "http_result \<Rightarrow> tool_error + json" where
  "tool_result res = (case res of NotReplied e _ \<Rightarrow> Inl (ToolHTTPFailed e) | Replied r \<Rightarrow> readToolResponse r)"

definition mcp_get :: "'w mcp_server \<Rightarrow> string \<Rightarrow> 'w \<Rightarrow> (tool_error + json) \<times> 'w" where
  "mcp_get s path w = (case hcGet (mcpHTTP s) (mcpURL s @ path) w of (res, w) \<Rightarrow> (tool_result res, w))"

definition mcp_post :: "'w mcp_server \<Rightarrow> string \<Rightarrow> json option \<Rightarrow> 'w \<Rightarrow> (tool_error + json) \<times> 'w" where
  "mcp_post s path payload w =
     (case hcPost (mcpHTTP s) (mcpURL s @ path) payload w of (res, w) \<Rightarrow> (tool_result res, w))"

definition waitReady :: "'w mcp_server \<Rightarrow> 'w \<Rightarrow> ((tool_error + json) \<times> 'w) option" where
  "waitReady s w =
     (case hcNow (mcpHTTP s) w of
        (now, w) \<Rightarrow>
          (case poll_loop (hcNow (mcpHTTP s)) (mcp_get s ''/api/agent/context'')
              (hcSleep (mcpHTTP s) (250 * millisecond)) (now + 10 * second) None w of
             None \<Rightarrow> None
           | Some (Inr result, w) \<Rightarrow> Some (Inr result, w)
           | Some (Inl (Some lastErr), w) \<Rightarrow> Some (Inl lastErr, w)
           | Some (Inl None, w) \<Rightarrow> Some (Inl NotReady, w)))"

text \<open>The arguments of a call are a map, nil when they are missing or \<open>null\<close>; a map that is set twice is merged.\<close>

definition decode_arguments :: "string \<Rightarrow> json \<Rightarrow> (string \<times> json) list option \<Rightarrow> (string \<times> json) list option decoded" where
  "decode_arguments name v old =
     (case v of
        JObject ms \<Rightarrow> (Some ((case old of None \<Rightarrow> [] | Some xs \<Rightarrow> xs) @ ms), None)
      | JNull \<Rightarrow> (None, None)
      | _ \<Rightarrow> (old, Some (WrongType name)))"

definition call_fields :: "tool_call field list" where
  "call_fields = [field_of ''name'' decode_string tcName tcName_update,
     field_of ''arguments'' decode_arguments tcArguments tcArguments_update]"

text \<open>A nil map is a payload too: it is encoded as \<open>null\<close>.\<close>

definition arguments_payload :: "(string \<times> json) list option \<Rightarrow> json" where
  "arguments_payload args = (case args of None \<Rightarrow> JNull | Some ms \<Rightarrow> JObject ms)"

definition callTool :: "'w mcp_server \<Rightarrow> json option \<Rightarrow> 'w \<Rightarrow> ((tool_error + json) \<times> 'w) option" where
  "callTool s raw w =
     (case raw of
        None \<Rightarrow> Some (Inl NoParams, w)
      | Some v \<Rightarrow>
          (case decode_object False [] call_fields v \<lparr>tcName = [], tcArguments = None\<rparr> of
             (_, Some e) \<Rightarrow> Some (Inl (InvalidParams e), w)
           | (params, None) \<Rightarrow>
               (let name = tcName params in
                if name = ''satip_agent_context'' then Some (mcp_get s ''/api/agent/context'' w)
                else if name = ''satip_status'' then Some (mcp_get s ''/api/status'' w)
                else if name = ''satip_services'' then Some (mcp_get s ''/api/services'' w)
                else if name = ''satip_scenario'' then Some (mcp_get s ''/api/scenario'' w)
                else if name = ''satip_reset'' then Some (mcp_post s ''/api/reset'' None w)
                else if name = ''satip_set_scenario''
                then Some (mcp_post s ''/api/scenario'' (Some (arguments_payload (tcArguments params))) w)
                else if name = ''satip_wait_ready'' then waitReady s w
                else Some (Inl (UnknownTool name), w))))"

section \<open>Requests\<close>

definition tool_json :: "tool_definition \<Rightarrow> json" where
  "tool_json t = JObject [(''name'', JString (tdName t)), (''description'', JString (tdDescription t)),
     (''inputSchema'', tdInputSchema t)]"

definition initialize_result :: json where
  "initialize_result = JObject
     [(''capabilities'', JObject [(''tools'', JObject [])]),
      (''protocolVersion'', JString ''2024-11-05''),
      (''serverInfo'', JObject [(''name'', JString ''satip-lab-mcp''), (''version'', JString ''0.1.0'')])]"

definition answer :: "json option \<Rightarrow> json \<Rightarrow> rpc_response" where
  "answer i v = \<lparr>msID = i, msResult = Some v, msError = None\<rparr>"

definition fail :: "json option \<Rightarrow> rpc_error \<Rightarrow> rpc_response" where
  "fail i e = \<lparr>msID = i, msResult = None, msError = Some e\<rparr>"

definition Handle :: "'w mcp_server \<Rightarrow> rpc_request \<Rightarrow> 'w \<Rightarrow> (rpc_response \<times> 'w) option" where
  "Handle s req w =
     (if mqMethod req = ''initialize'' then Some (answer (mqID req) initialize_result, w)
      else if mqMethod req = ''ping'' then Some (answer (mqID req) (JObject []), w)
      else if mqMethod req = ''tools/list''
      then Some (answer (mqID req) (JObject [(''tools'', JArray (map tool_json tools))]), w)
      else if mqMethod req = ''tools/call''
      then (case callTool s (mqParams req) w of
              None \<Rightarrow> None
            | Some (Inl e, w) \<Rightarrow> Some (fail (mqID req) (ToolFailed e), w)
            | Some (Inr v, w) \<Rightarrow> Some (answer (mqID req) v, w))
      else Some (fail (mqID req) MethodNotFound, w))"

text \<open>A raw message takes any value, \<open>null\<close> too.\<close>

definition decode_raw :: "string \<Rightarrow> json \<Rightarrow> json option \<Rightarrow> json option decoded" where
  "decode_raw name v old = (Some v, None)"

definition request_fields :: "rpc_request field list" where
  "request_fields =
     [field_of ''jsonrpc'' decode_string mqJSONRPC mqJSONRPC_update, field_of ''id'' decode_raw mqID mqID_update,
      field_of ''method'' decode_string mqMethod mqMethod_update, field_of ''params'' decode_raw mqParams mqParams_update]"

definition read_request :: "json option \<Rightarrow> rpc_request option" where
  "read_request v =
     (case v of
        None \<Rightarrow> None
      | Some v \<Rightarrow>
          (case decode_object False [] request_fields v \<lparr>mqJSONRPC = [], mqID = None, mqMethod = [], mqParams = None\<rparr> of
             (_, Some e) \<Rightarrow> None
           | (req, None) \<Rightarrow> Some req))"

text \<open>The lines of the input, each with whether the context is done when it has been read; \<open>parse\<close> is
  \<open>json.Unmarshal\<close> of a text. The result says whether the loop was cancelled.\<close>

fun Serve :: "'w mcp_server \<Rightarrow> (string \<Rightarrow> json option) \<Rightarrow> (string \<times> bool) list \<Rightarrow> 'w
    \<Rightarrow> (rpc_response list \<times> bool \<times> 'w) option" where
  "Serve s parse [] w = Some ([], False, w)"
| "Serve s parse ((line, cancelled) # ls) w =
     (if cancelled then Some ([], True, w)
      else
        let line = trim_space line in
        if line = [] then Serve s parse ls w
        else
          (case read_request (parse line) of
             None \<Rightarrow> map_option (\<lambda>(out, x). (fail None ParseFailed # out, x)) (Serve s parse ls w)
           | Some req \<Rightarrow>
               if mqID req = None then Serve s parse ls w
               else
                 (case Handle s req w of
                    None \<Rightarrow> None
                  | Some (resp, w) \<Rightarrow> map_option (\<lambda>(out, x). (resp # out, x)) (Serve s parse ls w))))"

end
