(* ===== verification/ClientsSpec.thy ===== *)
theory ClientsSpec
  imports Mcp HttpSpec
begin

text \<open>
  The clients of the HTTP API against the clock and the server: polling ends, a command that sets a
  scenario sets the one it names, and the MCP server answers each request once.
\<close>

section \<open>Polling ends\<close>

text \<open>What polling needs of the clock: it does not run backwards, and a sleep takes its time.\<close>

locale ticking =
  fixes now :: "'w \<Rightarrow> time \<times> 'w" and poll :: "'w \<Rightarrow> ('e + 'r) \<times> 'w" and sleep :: "'w \<Rightarrow> 'w"
    and clock :: "'w \<Rightarrow> time" and tick :: duration
  assumes now_reads: "now w = (t, w') \<Longrightarrow> clock w \<le> t \<and> t \<le> clock w'"
    and poll_forward: "poll w = (res, w') \<Longrightarrow> clock w \<le> clock w'"
    and sleep_takes: "clock w + tick \<le> clock (sleep w)"
    and tick_positive: "0 < tick"
begin

text \<open>The loop ends; when it gives up, the deadline has passed; and it takes at most one poll for each tick
  of the time left, and one more.\<close>

lemma returns:
  "\<exists>res w'. poll_loop now poll sleep deadline e w = Some (res, w') \<and> clock w \<le> clock w' \<and>
     (case res of Inl _ \<Rightarrow> deadline \<le> clock w' | Inr _ \<Rightarrow> True)"
proof (induction "nat (deadline - clock w)" arbitrary: e w rule: less_induct)
  case less
  obtain t w1 where n: "now w = (t, w1)" by fastforce
  have t: "clock w \<le> t" "t \<le> clock w1" using now_reads [OF n] by simp_all
  show ?case
  proof (cases "t < deadline")
    case False
    then show ?thesis using t by (subst poll_loop.simps) (simp add: n)
  next
    case True
    obtain res w2 where p: "poll w1 = (res, w2)" by fastforce
    have w2: "clock w1 \<le> clock w2" using poll_forward [OF p] .
    show ?thesis
    proof (cases res)
      case (Inr r)
      then show ?thesis using True t w2 p by (subst poll_loop.simps) (simp add: n)
    next
      case (Inl x)
      have later: "clock w + tick \<le> clock (sleep w2)" using sleep_takes [of w2] t w2 by simp
      then have "nat (deadline - clock (sleep w2)) < nat (deadline - clock w)"
        using True t tick_positive by simp
      from less [OF this, of "Some x"] show ?thesis
        using True Inl p later tick_positive by (subst poll_loop.simps) (force simp: n)
    qed
  qed
qed

text \<open>A first poll that succeeds before the deadline is the result.\<close>

lemma ready_at_once:
  "now w = (t, w1) \<Longrightarrow> t < deadline \<Longrightarrow> poll w1 = (Inr r, w2) \<Longrightarrow>
     poll_loop now poll sleep deadline e w = Some (Inr r, w2)"
  by (subst poll_loop.simps) simp

end

section \<open>The clients against the HTTP server\<close>

text \<open>The lab over HTTP: a world is the state of the server and the time; a request takes no time, a sleep
  takes its own. The text of a reply is a parameter.\<close>

definition host_path :: "string \<Rightarrow> string \<Rightarrow> string" where
  "host_path base url = drop (length base) url"

definition reply_of :: "(http_body \<Rightarrow> string) \<Rightarrow> http_response \<Rightarrow> http_result" where
  "reply_of render r = Replied \<lparr>rpCode = hrStatus r, rpStatus = itoa (hrStatus r), rpBody = Some (render (hrBody r))\<rparr>"

definition body_of :: "json option \<Rightarrow> json_body" where
  "body_of payload = \<lparr>jbValue = payload, jbRest = AtEnd\<rparr>"

definition lab_client :: "rtsp_env \<Rightarrow> http_server \<Rightarrow> string \<Rightarrow> (http_body \<Rightarrow> string) \<Rightarrow> (server \<times> time) http_client" where
  "lab_client env hs base render =
     \<lparr>hcGet = (\<lambda>url (s, t). case serve env hs \<lparr>hqMethod = ''GET'', hqPath = host_path base url, hqBody = no_body\<rparr> s of
        (r, s) \<Rightarrow> (reply_of render r, (s, t))),
      hcPost = (\<lambda>url payload (s, t).
        case serve env hs \<lparr>hqMethod = ''POST'', hqPath = host_path base url, hqBody = body_of payload\<rparr> s of
          (r, s) \<Rightarrow> (reply_of render r, (s, t))),
      hcNow = (\<lambda>(s, t). (t, (s, t))),
      hcSleep = (\<lambda>d (s, t). (s, t + d))\<rparr>"

definition lab_control :: "rtsp_env \<Rightarrow> http_server \<Rightarrow> string \<Rightarrow> (http_body \<Rightarrow> string) \<Rightarrow> (server \<times> time) network
    \<Rightarrow> flag_parsers \<Rightarrow> (server \<times> time) control" where
  "lab_control env hs base render nw fp =
     \<lparr>ccURL = base, ccHTTP = lab_client env hs base render, ccNetwork = nw, ccFlags = fp\<rparr>"

definition lab_mcp :: "rtsp_env \<Rightarrow> http_server \<Rightarrow> string \<Rightarrow> (http_body \<Rightarrow> string) \<Rightarrow> (server \<times> time) mcp_server" where
  "lab_mcp env hs base render = \<lparr>mcpURL = base, mcpHTTP = lab_client env hs base render\<rparr>"

lemma lab_clock:
  "hcNow (lab_client env hs base render) w = (t, w') \<Longrightarrow> t = snd w \<and> w' = w"
  "snd (hcSleep (lab_client env hs base render) d w) = snd w + d"
  "hcGet (lab_client env hs base render) url w = (res, w') \<Longrightarrow> snd w' = snd w"
  by (auto simp: lab_client_def split: prod.splits)

interpretation ctl_wait: ticking "hcNow (lab_client env hs base render)" "wait_poll (lab_control env hs base render nw fp)"
  "hcSleep (lab_client env hs base render) (250 * millisecond)" snd "250 * millisecond"
  for env hs base render nw fp
  by unfold_locales
    (auto simp: lab_clock(2) wait_poll_def lab_control_def millisecond_def dest!: lab_clock(1) lab_clock(3) split: prod.splits)

interpretation mcp_wait: ticking "hcNow (lab_client env hs base render)" "mcp_get (lab_mcp env hs base render) path"
  "hcSleep (lab_client env hs base render) (250 * millisecond)" snd "250 * millisecond"
  for env hs base render path
  by unfold_locales
    (auto simp: lab_clock(2) mcp_get_def lab_mcp_def millisecond_def dest!: lab_clock(1) lab_clock(3) split: prod.splits)

text \<open>A client over a clock that does not run backwards and whose sleep takes its time.\<close>

definition sound_clock :: "'w http_client \<Rightarrow> ('w \<Rightarrow> time) \<Rightarrow> bool" where
  "sound_clock hc clock \<longleftrightarrow>
     (\<forall>w. clock w \<le> fst (hcNow hc w) \<and> fst (hcNow hc w) \<le> clock (snd (hcNow hc w))) \<and>
     (\<forall>url w. clock w \<le> clock (snd (hcGet hc url w))) \<and>
     (\<forall>d w. clock w + d \<le> clock (hcSleep hc d w))"

lemma sound_now: "sound_clock hc clock \<Longrightarrow> hcNow hc w = (t, w') \<Longrightarrow> clock w \<le> t \<and> t \<le> clock w'"
  unfolding sound_clock_def by (metis fst_conv snd_conv)

lemma sound_get: "sound_clock hc clock \<Longrightarrow> hcGet hc url w = (res, w') \<Longrightarrow> clock w \<le> clock w'"
  unfolding sound_clock_def by (metis snd_conv)

lemma sound_sleep: "sound_clock hc clock \<Longrightarrow> clock w + d \<le> clock (hcSleep hc d w)"
  by (simp add: sound_clock_def)

lemma wait_for_returns:
  assumes "sound_clock hc clock" "0 < interval"
  shows "\<exists>res w'. wait_for \<lparr>ccURL = url, ccHTTP = hc, ccNetwork = nw, ccFlags = fp\<rparr> timeout interval w = Some (res, w') \<and>
      (case res of Inl _ \<Rightarrow> clock w + timeout \<le> clock w' | Inr _ \<Rightarrow> True)"
proof -
  let ?c = "\<lparr>ccURL = url, ccHTTP = hc, ccNetwork = nw, ccFlags = fp\<rparr>"
  obtain t w1 where n: "hcNow hc w = (t, w1)" by fastforce
  have t: "clock w \<le> t" using sound_now [OF assms(1) n] by simp
  have "ticking (hcNow hc) (wait_poll ?c) (hcSleep hc interval) clock interval"
    by unfold_locales
      (auto simp: wait_poll_def sound_sleep [OF assms(1)] assms(2) dest: sound_now [OF assms(1)] sound_get [OF assms(1)]
        split: prod.splits)
  from ticking.returns [OF this, of "t + timeout" None w1] show ?thesis
    using t by (fastforce simp: wait_for_def n split: sum.splits)
qed

lemma waitReady_returns:
  assumes "sound_clock hc clock"
  shows "\<exists>res w'. waitReady \<lparr>mcpURL = url, mcpHTTP = hc\<rparr> w = Some (res, w') \<and>
      (case res of Inl _ \<Rightarrow> clock w + 10 * second \<le> clock w' | Inr _ \<Rightarrow> True)"
proof -
  let ?s = "\<lparr>mcpURL = url, mcpHTTP = hc\<rparr>"
  obtain t w1 where n: "hcNow hc w = (t, w1)" by fastforce
  have t: "clock w \<le> t" using sound_now [OF assms n] by simp
  have "ticking (hcNow hc) (mcp_get ?s ''/api/agent/context'') (hcSleep hc (250 * millisecond)) clock (250 * millisecond)"
    by unfold_locales
      (auto simp: mcp_get_def millisecond_def sound_sleep [OF assms] dest: sound_now [OF assms] sound_get [OF assms]
        split: prod.splits)
  from ticking.returns [OF this, of "t + 10 * second" None w1] obtain res w2 where
    r: "poll_loop (hcNow hc) (mcp_get ?s ''/api/agent/context'') (hcSleep hc (250 * millisecond)) (t + 10 * second) None w1 =
        Some (res, w2)" "case res of Inl _ \<Rightarrow> t + 10 * second \<le> clock w2 | Inr _ \<Rightarrow> True" by blast
  have "waitReady ?s w = Some ((case res of Inr x \<Rightarrow> Inr x | Inl None \<Rightarrow> Inl NotReady | Inl (Some e) \<Rightarrow> Inl e), w2)"
    using r(1) by (simp add: waitReady_def n split: sum.split option.split)
  then show ?thesis using r(2) t by (cases res) (auto split: option.splits)
qed

text \<open>C22. Both clients stop waiting: whatever the requests give, as long as the clock does not run backwards and
  a sleep takes its time, \<open>satip-labctl wait\<close> with a positive interval and the tool \<open>satip_wait_ready\<close>
  return, and neither gives up before its time is over.\<close>

theorem waiting_ends:
  assumes "sound_clock hc clock" "0 < interval"
  shows "(\<exists>res w'. wait_for \<lparr>ccURL = url, ccHTTP = hc, ccNetwork = nw, ccFlags = fp\<rparr> timeout interval w = Some (res, w') \<and>
      (case res of Inl _ \<Rightarrow> clock w + timeout \<le> clock w' | Inr _ \<Rightarrow> True)) \<and>
    (\<exists>res w'. waitReady \<lparr>mcpURL = url, mcpHTTP = hc\<rparr> w = Some (res, w') \<and>
      (case res of Inl _ \<Rightarrow> clock w + 10 * second \<le> clock w' | Inr _ \<Rightarrow> True))"
  using wait_for_returns [OF assms] waitReady_returns [OF assms(1)] by blast

text \<open>A client whose requests all fail: it waits until its time is over.\<close>

definition down_client :: "time http_client" where
  "down_client = \<lparr>hcGet = (\<lambda>_ t. (NotReplied ''refused'' None, t)), hcPost = (\<lambda>_ _ t. (NotReplied ''refused'' None, t)),
     hcNow = (\<lambda>t. (t, t)), hcSleep = (\<lambda>d t. t + d)\<rparr>"

theorem waiting_ends_witness:
  "(\<exists>res w'. wait_for \<lparr>ccURL = ''http://lab'', ccHTTP = down_client, ccNetwork = undefined, ccFlags = undefined\<rparr> second 1 0 =
      Some (res, w') \<and> (case res of Inl _ \<Rightarrow> second \<le> w' | Inr _ \<Rightarrow> True)) \<and>
   (\<exists>res w'. waitReady \<lparr>mcpURL = ''http://lab'', mcpHTTP = down_client\<rparr> 0 = Some (res, w') \<and>
      (case res of Inl _ \<Rightarrow> 10 * second \<le> w' | Inr _ \<Rightarrow> True))"
  by (rule waiting_ends [where hc = down_client and clock = "\<lambda>t. t" and w = 0, unfolded add_0_left])
    (auto simp: down_client_def sound_clock_def)

text \<open>Against the running lab the first poll succeeds.\<close>

lemma lab_ready:
  assumes "0 < timeout"
  shows "\<exists>w'. wait_for (lab_control env hs base render nw fp) timeout (250 * millisecond) w = Some (Inr (), w')"
    and "\<exists>r w'. waitReady (lab_mcp env hs base render) w = Some (Inr r, w')"
proof -
  obtain s t where w: "w = (s, t)" by fastforce
  obtain ctx s' where ctx: "with_lab (buildAgentContext (hsConfig hs) (envOrder env)) s = (ctx, s')" by fastforce
  have served: "serve env hs \<lparr>hqMethod = ''GET'', hqPath = ''/api/agent/context'', hqBody = b\<rparr> s =
      (writeJSON (VAgentContext ctx), s')" for b
    using serve_fixed [of "''/api/agent/context''" "handleAPIAgentContext env hs" env hs "''GET''" b]
    by (simp add: fixed_routes_def handleAPIAgentContext_def requireMethod_def ctx)
  have poll: "wait_poll (lab_control env hs base render nw fp) (s, t) = (Inr (), (s', t))"
    by (simp add: wait_poll_def lab_control_def lab_client_def host_path_def served reply_of_def responses)
  have get: "mcp_get (lab_mcp env hs base render) ''/api/agent/context'' (s, t) =
      (Inr (textResult (render (Json (VAgentContext ctx)))), (s', t))"
    by (simp add: mcp_get_def lab_mcp_def lab_client_def host_path_def served reply_of_def responses tool_result_def
        readToolResponse_def)
  have now: "hcNow (lab_client env hs base render) (s, t) = (t, (s, t))" by (simp add: lab_client_def)
  have http: "ccHTTP (lab_control env hs base render nw fp) = lab_client env hs base render"
    "mcpHTTP (lab_mcp env hs base render) = lab_client env hs base render"
    by (simp_all add: lab_control_def lab_mcp_def)
  show "\<exists>w'. wait_for (lab_control env hs base render nw fp) timeout (250 * millisecond) w = Some (Inr (), w')"
    using ctl_wait.ready_at_once [OF now _ poll, of "t + timeout" None] assms by (simp add: wait_for_def http w now)
  show "\<exists>r w'. waitReady (lab_mcp env hs base render) w = Some (Inr r, w')"
    using mcp_wait.ready_at_once [OF now _ get, of "t + 10 * second" None]
    by (simp add: waitReady_def http w now second_def millisecond_def)
qed

section \<open>Setting a scenario\<close>

lemma scenario_payload_read:
  assumes "d < 2 ^ 63"
  shows "decode_scenario (body_of (Some (scenario_payload name svc mux d))) =
    Some \<lparr>sqName = name, sqServiceID = svc, sqMuxID = mux, sqDurationMin = max 0 d, sqTimeline = []\<rparr>"
proof -
  have a: "atoi (itoa d) = Some d" if "0 < d" using atoi_itoa [of d] assms that by simp
  have f: "find_field scenario_fields ''name'' = Some (field_of ''name'' decode_string sqName sqName_update)"
    "find_field scenario_fields ''service_id'' = Some (field_of ''service_id'' decode_string sqServiceID sqServiceID_update)"
    "find_field scenario_fields ''mux_id'' = Some (field_of ''mux_id'' decode_string sqMuxID sqMuxID_update)"
    "find_field scenario_fields ''duration_min'' = Some (field_of ''duration_min'' decode_int sqDurationMin sqDurationMin_update)"
    by (simp_all add: find_field_def scenario_fields_def field_of_def)
  show ?thesis
    by (auto simp: decode_scenario_def body_of_def scenario_payload_def decode_object_def f field_of_def decode_string_def
        decode_int_def first_error_def a)
qed

text \<open>C21. A scenario set with the control command, whatever its flags say, is applied by the server as the
  manager's \<open>SetScenarioOptions\<close> of the name, the service, the mux and the duration, a negative one
  counting as none: what the command writes is what the handler reads. When the manager refuses, the
  command reports the 400 and no more has happened.\<close>

theorem scenario_command_sets:
  assumes "\<not> isHelpArg name"
    "parse_flags fp [''service'' \<mapsto> StringFlag, ''mux'' \<mapsto> StringFlag, ''duration-min'' \<mapsto> IntFlag] Map.empty rest =
       Inr (vals, extra)"
    "int_flag fp vals ''duration-min'' 0 < 2 ^ 63"
  shows "case (scenario_command (lab_control env hs base render nw fp) (name # rest) (s, t),
      SetScenarioOptions name (string_flag vals ''service'' []) (string_flag vals ''mux'' [])
        (max 0 (int_flag fp vals ''duration-min'' 0)) (srvLab s)) of
    ((res, (s', t')), (refused, m)) \<Rightarrow>
      (case refused of
         None \<Rightarrow> s' = s\<lparr>srvLab := snd (Scenario m)\<rparr> \<and> (\<exists>out. res = Inr out)
       | Some e \<Rightarrow> s' = s\<lparr>srvLab := m\<rparr> \<and> res = Inl (Returned ''400'' (trim_space (render (Failed (LabFailure e))))))"
proof -
  let ?svc = "string_flag vals ''service'' []" and ?mux = "string_flag vals ''mux'' []"
  let ?d = "int_flag fp vals ''duration-min'' 0"
  let ?body = "body_of (Some (scenario_payload name ?svc ?mux ?d))"
  obtain r m where set: "SetScenarioOptions name ?svc ?mux (max 0 ?d) (srvLab s) = (r, m)" by fastforce
  obtain sc m' where sc: "Scenario m = (sc, m')" by fastforce
  have serve: "serve env hs \<lparr>hqMethod = ''POST'', hqPath = ''/api/scenario'', hqBody = ?body\<rparr> s =
      handleAPIScenario \<lparr>hqMethod = ''POST'', hqPath = ''/api/scenario'', hqBody = ?body\<rparr> s"
    by (rule fun_cong [OF serve_fixed]) (simp add: fixed_routes_def)
  have handled: "handleAPIScenario \<lparr>hqMethod = ''POST'', hqPath = ''/api/scenario'', hqBody = ?body\<rparr> s =
      (case r of Some e \<Rightarrow> (http_error (LabFailure e) 400, s\<lparr>srvLab := m\<rparr>)
       | None \<Rightarrow> (writeJSON (VScenario sc), s\<lparr>srvLab := m'\<rparr>))"
    using scenario_payload_read [OF assms(3), of name ?svc ?mux]
    by (simp add: handleAPIScenario_def with_lab_def set sc split: option.split)
  have texts: "itoa 400 = ''400''" by code_simp
  have "scenario_command (lab_control env hs base render nw fp) (name # rest) (s, t) =
      (case r of Some e \<Rightarrow> (Inl (Returned ''400'' (trim_space (render (Failed (LabFailure e))))), (s\<lparr>srvLab := m\<rparr>, t))
       | None \<Rightarrow> (writeResponse \<lparr>rpCode = 200, rpStatus = itoa 200, rpBody = Some (render (Json (VScenario sc)))\<rparr>,
           (s\<lparr>srvLab := m'\<rparr>, t)))"
    using assms(1,2)
    by (simp add: scenario_command_def lab_control_def ctl_post_def lab_client_def host_path_def serve handled reply_of_def
        responses written_def writeResponse_def success_def texts split: option.split)
  then show ?thesis
    by (auto simp: set sc writeResponse_def success_def split: option.split)
qed

theorem scenario_command_sets_witness:
  "case (scenario_command (lab_control demo_env demo_http ''http://lab'' (\<lambda>_. [])
        undefined \<lparr>fpInt = atoi, fpDuration = (\<lambda>_. None)\<rparr>) [''epg_gap'', ''-duration-min=5''] (demo_loaded, 0),
      SetScenarioOptions ''epg_gap'' [] [] 5 (srvLab demo_loaded)) of
    ((res, (s', t')), (refused, m)) \<Rightarrow>
      (case refused of
         None \<Rightarrow> s' = demo_loaded\<lparr>srvLab := snd (Scenario m)\<rparr> \<and> (\<exists>out. res = Inr out)
       | Some e \<Rightarrow> s' = demo_loaded\<lparr>srvLab := m\<rparr> \<and> res = Inl (Returned ''400'' (trim_space [])))"
proof -
  let ?fp = "\<lparr>fpInt = atoi, fpDuration = (\<lambda>_. None)\<rparr>"
  have five: "atoi ''5'' = Some 5" by code_simp
  have p: "parse_flags ?fp [''service'' \<mapsto> StringFlag, ''mux'' \<mapsto> StringFlag, ''duration-min'' \<mapsto> IntFlag] Map.empty
      [''-duration-min=5''] = Inr ([''duration-min'' \<mapsto> ''5''], [])"
    by (simp add: split_flag_def set_flag_def valid_value_def five)
  have v: "string_flag [''duration-min'' \<mapsto> ''5''] ''service'' [] = []" "string_flag [''duration-min'' \<mapsto> ''5''] ''mux'' [] = []"
    "int_flag ?fp [''duration-min'' \<mapsto> ''5''] ''duration-min'' 0 = 5" "max 0 (5 :: int) = 5"
    by (simp_all add: string_flag_def int_flag_def five)
  have h: "\<not> isHelpArg ''epg_gap''" by (simp add: isHelpArg_def)
  show ?thesis
    by (rule scenario_command_sets [OF h p, where s = demo_loaded, unfolded v]) simp
qed

section \<open>The MCP server\<close>

text \<open>The answers that the lines of the input call for, by their ids: none for a blank line and for a
  notification, one without an id for a line that is not a request.\<close>

fun owed :: "(string \<Rightarrow> json option) \<Rightarrow> (string \<times> bool) list \<Rightarrow> json option list" where
  "owed parse [] = []"
| "owed parse ((line, cancelled) # ls) =
     (if cancelled then []
      else if trim_space line = [] then owed parse ls
      else case read_request (parse (trim_space line)) of
             None \<Rightarrow> None # owed parse ls
           | Some req \<Rightarrow> if mqID req = None then owed parse ls else mqID req # owed parse ls)"

lemma Handle_answers:
  assumes "sound_clock (mcpHTTP s) clock"
  shows "\<exists>resp w'. Handle s req w = Some (resp, w') \<and> msID resp = mqID req \<and> (msResult resp = None) = (msError resp \<noteq> None)"
proof -
  have called: "\<exists>res w'. callTool s raw w = Some (res, w')" for raw
    using waitReady_returns [OF assms, of "mcpURL s" w]
    by (cases s) (auto simp: callTool_def Let_def split: option.split prod.split)
  obtain res w' where "callTool s (mqParams req) w = Some (res, w')" using called by blast
  then show ?thesis by (cases res) (auto simp: Handle_def answer_def fail_def)
qed

text \<open>The MCP server answers every request once, in order and under its id, with either a result or an error,
  and nothing else; it never hangs in a call.\<close>

theorem mcp_answers:
  assumes "sound_clock (mcpHTTP s) clock"
  shows "\<exists>out cancelled w'. Serve s parse ls w = Some (out, cancelled, w') \<and> map msID out = owed parse ls \<and>
    list_all (\<lambda>r. (msResult r = None) = (msError r \<noteq> None)) out"
proof (induction ls arbitrary: w)
  case (Cons l ls)
  obtain line cancelled where l: "l = (line, cancelled)" by fastforce
  show ?case
  proof (cases "read_request (parse (trim_space line))")
    case None
    then show ?thesis using Cons [of w] by (auto simp: l Let_def fail_def)
  next
    case (Some req)
    obtain resp w1 where h: "Handle s req w = Some (resp, w1)" "msID resp = mqID req"
      "(msResult resp = None) = (msError resp \<noteq> None)"
      using Handle_answers [OF assms, of req w] by auto
    then show ?thesis using Some Cons [of w] Cons [of w1] by (auto simp: l Let_def)
  qed
qed (simp, intro exI [of _ False], simp)

text \<open>Every tool that is listed can be called, and no other.\<close>

lemma tool_names:
  "map tdName tools = [''satip_agent_context'', ''satip_status'', ''satip_services'', ''satip_scenario'', ''satip_reset'',
     ''satip_set_scenario'', ''satip_wait_ready'']"
  by (simp add: tools_def tool_def)

lemma unlisted_tool:
  assumes "name \<notin> set (map tdName tools)"
  shows "callTool s (Some (JObject [(''name'', JString name)])) w = Some (Inl (UnknownTool name), w)"
proof -
  have "find_field call_fields ''name'' = Some (field_of ''name'' decode_string tcName tcName_update)"
    by (simp add: find_field_def call_fields_def field_of_def)
  then show ?thesis
    using assms unfolding tool_names
    by (simp add: callTool_def decode_object_def field_of_def decode_string_def first_error_def Let_def)
qed

end
