(* ===== verification/Simulator.thy ===== *)
theory Simulator
  imports HttpServer Clients
begin

text \<open>
  The simulator as a whole (\<open>internal/simulator/simulator.go\<close>) and the command that runs it
  (\<open>cmd/satip-lab/main.go\<close>): the configuration from the environment and the flags, the catalog and the
  topology that are loaded, and the servers over one lab manager. Files and the decoding of YAML are
  parameters; listening is a result that the environment gives.
\<close>

section \<open>The configuration of the command\<close>

definition main_flags :: "string \<rightharpoonup> flag_kind" where
  "main_flags =
     [''bind'' \<mapsto> StringFlag, ''public-host'' \<mapsto> StringFlag, ''http-port'' \<mapsto> IntFlag, ''rtsp-port'' \<mapsto> IntFlag,
      ''public-http-port'' \<mapsto> IntFlag, ''public-rtsp-port'' \<mapsto> IntFlag, ''tuners'' \<mapsto> IntFlag,
      ''ssdp-port'' \<mapsto> IntFlag, ''catalog'' \<mapsto> StringFlag, ''ts-path'' \<mapsto> StringFlag, ''media-dir'' \<mapsto> StringFlag,
      ''sample-profile'' \<mapsto> StringFlag, ''profile'' \<mapsto> StringFlag, ''vendor-profile'' \<mapsto> StringFlag,
      ''epg-clock'' \<mapsto> StringFlag, ''scenario'' \<mapsto> StringFlag]"

text \<open>\<open>vals\<close> are the flags that were set.\<close>

definition main_config :: "flag_parsers \<Rightarrow> config \<Rightarrow> (string \<rightharpoonup> string) \<Rightarrow> config" where
  "main_config fp defaults vals =
     (let activeProfile = string_flag vals ''profile'' (cfgProfile defaults);
          vendorProfile = string_flag vals ''vendor-profile'' (cfgVendorProfile defaults);
          profileFlagSet = (vals ''profile'' \<noteq> None);
          vendorProfileFlagSet = (vals ''vendor-profile'' \<noteq> None);
          activeProfile = (if vendorProfileFlagSet \<and> \<not> profileFlagSet then vendorProfile else activeProfile);
          cfg = \<lparr>cfgBindAddress = string_flag vals ''bind'' (cfgBindAddress defaults),
            cfgPublicHost = string_flag vals ''public-host'' (cfgPublicHost defaults),
            cfgHTTPPort = int_flag fp vals ''http-port'' (cfgHTTPPort defaults),
            cfgRTSPPort = int_flag fp vals ''rtsp-port'' (cfgRTSPPort defaults),
            cfgPublicHTTPPort = int_flag fp vals ''public-http-port'' (cfgPublicHTTPPort defaults),
            cfgPublicRTSPPort = int_flag fp vals ''public-rtsp-port'' (cfgPublicRTSPPort defaults),
            cfgTunerCount = int_flag fp vals ''tuners'' (cfgTunerCount defaults),
            cfgSSDPort = int_flag fp vals ''ssdp-port'' (cfgSSDPort defaults),
            cfgCatalogPath = string_flag vals ''catalog'' (cfgCatalogPath defaults),
            cfgTopologyPath = [],
            cfgTransportStreamPath = string_flag vals ''ts-path'' (cfgTransportStreamPath defaults),
            cfgMediaDir = string_flag vals ''media-dir'' (cfgMediaDir defaults),
            cfgSampleProfile = string_flag vals ''sample-profile'' (cfgSampleProfile defaults),
            cfgProfile = activeProfile, cfgVendorProfile = vendorProfile,
            cfgEPGClock = string_flag vals ''epg-clock'' (cfgEPGClock defaults),
            cfgScenario = StartNormal\<rparr>
      in if string_flag vals ''scenario'' (ScenarioName defaults) = ''tuner_busy''
         then cfg\<lparr>cfgScenario := StartTunerBusy\<rparr> else cfg)"

section \<open>Loading the catalog\<close>

datatype 'e catalog_failure = CatalogUnread 'e | CatalogUnparsed 'e | CatalogInvalid load_error

definition LoadCatalogFile ::
  "(string \<Rightarrow> 'e + 'b) \<Rightarrow> ('b \<Rightarrow> 'e + channel_file list) \<Rightarrow> string \<Rightarrow> 'e catalog_failure + channel list" where
  "LoadCatalogFile read decode path =
     (case read path of
        Inl e \<Rightarrow> Inl (CatalogUnread e)
      | Inr body \<Rightarrow>
          (case decode body of
             Inl e \<Rightarrow> Inl (CatalogUnparsed e)
           | Inr services \<Rightarrow>
               (case catalogFile_channels services of
                  Inl e \<Rightarrow> Inl (CatalogInvalid e)
                | Inr chs \<Rightarrow> Inr chs)))"

section \<open>The simulator\<close>

record simulator =
  simConfig :: config
  simHTTP :: http_server
  simRTSP :: server

datatype 'e startup_error = CatalogFailed "'e catalog_failure" | TopologyFailed "'e load_failure"

record ('e, 'b) loaders =
  ldRead :: "string \<Rightarrow> 'e + 'b"
  ldCatalog :: "'b \<Rightarrow> 'e + channel_file list"
  ldTopology :: "'b \<Rightarrow> 'e + document"

text \<open>\<open>clock\<close> is the manager's clock, \<open>now\<close> the time at which the HTTP server is made. The RTSP server's reset
  is the callback of the HTTP server; the manager of both is that of \<open>simRTSP\<close>.\<close>

definition New :: "('e, 'b) loaders \<Rightarrow> (nat \<Rightarrow> time) \<Rightarrow> time \<Rightarrow> config \<Rightarrow> 'e startup_error + simulator" where
  "New ld clock now cfg =
     (let src = \<lparr>srcPath = cfgTransportStreamPath cfg, srcMediaDir = cfgMediaDir cfg,
            srcSampleProfile = cfgSampleProfile cfg, srcSampleAssetDir = []\<rparr>
      in case (if trim_space (cfgCatalogPath cfg) \<noteq> []
               then (case LoadCatalogFile (ldRead ld) (ldCatalog ld) (cfgCatalogPath cfg) of
                       Inl e \<Rightarrow> Inl (CatalogFailed e)
                     | Inr list \<Rightarrow> Inr (CatalogFromChannels list))
               else Inr DefaultCatalog) of
           Inl e \<Rightarrow> Inl e
         | Inr catalog \<Rightarrow>
             (case (if trim_space (cfgTopologyPath cfg) \<noteq> []
                    then (case LoadFile (ldRead ld) (ldTopology ld) (cfgTopologyPath cfg) of
                            Inl e \<Rightarrow> Inl (TopologyFailed e)
                          | Inr doc \<Rightarrow> Inr doc)
                    else Inr (DefaultTopology cfg)) of
                Inl e \<Rightarrow> Inl e
              | Inr topologyDoc \<Rightarrow>
                  let labManager = NewManager catalog (cfgTunerCount cfg) clock;
                      rtspServer = NewServer cfg src (Some labManager) clock
                  in Inr \<lparr>simConfig = cfg, simHTTP = NewWithTopology cfg topologyDoc True now, simRTSP = rtspServer\<rparr>))"

text \<open>Which of the three listeners came up; only discovery may fail.\<close>

datatype start_error = HTTPDown | RTSPDown

definition Start :: "config \<Rightarrow> bool \<Rightarrow> bool \<Rightarrow> bool \<Rightarrow> start_error + bool" where
  "Start cfg http_up rtsp_up ssdp_up =
     (if \<not> http_up then Inl HTTPDown
      else if \<not> rtsp_up then Inl RTSPDown
      else Inr (cfgSSDPort cfg > 0 \<and> ssdp_up))"

end
