(* ===== verification/SimulatorSpec.thy ===== *)
theory SimulatorSpec
  imports Simulator HttpSpec TopologySpec Ownership
begin

text \<open>
  What the simulator starts with: the configuration that the command makes of the environment, and
  servers in a state from which all the invariants hold.
\<close>

section \<open>The configuration\<close>

text \<open>C25. Without flags the command runs with the configuration of the environment, less its topology: the path
  that \<open>SATIP_LAB_TOPOLOGY\<close> names, and that the schema publishes, is read and dropped, so the command always
  publishes the topology of a single device.\<close>

theorem environment_less_topology:
  "main_config fp (FromEnvironment vars) Map.empty = (FromEnvironment vars)\<lparr>cfgTopologyPath := []\<rparr> \<and>
   (case New ld clock now (main_config fp (FromEnvironment vars) vals) of
      Inl e \<Rightarrow> True
    | Inr sim \<Rightarrow> hsTopology (simHTTP sim) = DefaultTopology (main_config fp (FromEnvironment vars) vals))"
proof
  show "main_config fp (FromEnvironment vars) Map.empty = (FromEnvironment vars)\<lparr>cfgTopologyPath := []\<rparr>"
    by (cases "cfgScenario (FromEnvironment vars)")
      (auto simp: main_config_def string_flag_def int_flag_def ScenarioName_def Let_def intro!: config.equality)
  have "cfgTopologyPath (main_config fp (FromEnvironment vars) vals) = []" by (simp add: main_config_def Let_def)
  moreover have "trim_space [] = []" by code_simp
  ultimately show "case New ld clock now (main_config fp (FromEnvironment vars) vals) of
      Inl e \<Rightarrow> True
    | Inr sim \<Rightarrow> hsTopology (simHTTP sim) = DefaultTopology (main_config fp (FromEnvironment vars) vals)"
    by (simp add: New_def Let_def NewWithTopology_def split: sum.split)
qed

section \<open>The start\<close>

text \<open>A simulator that starts is sound from the first moment: its catalog is well formed, its node is an
  initial one, its HTTP server resets the RTSP server, and a topology that was loaded is valid and normalised.\<close>

lemma starts_sound:
  assumes "New ld clock now cfg = Inr sim"
  shows "node_init \<lparr>ndServer = simRTSP sim, ndConns = Map.empty\<rparr> \<and> server_ok (simRTSP sim) \<and> hsReset (simHTTP sim) \<and>
    (if trim_space (cfgTopologyPath cfg) = [] then hsTopology (simHTTP sim) = DefaultTopology cfg
     else document_valid (hsTopology (simHTTP sim)) \<and> normal_document (hsTopology (simHTTP sim)) = hsTopology (simHTTP sim))"
proof -
  let ?src = "\<lparr>srcPath = cfgTransportStreamPath cfg, srcMediaDir = cfgMediaDir cfg,
            srcSampleProfile = cfgSampleProfile cfg, srcSampleAssetDir = []\<rparr>"
  obtain c doc where c: "(if trim_space (cfgCatalogPath cfg) \<noteq> []
       then (case LoadCatalogFile (ldRead ld) (ldCatalog ld) (cfgCatalogPath cfg) of
               Inl e \<Rightarrow> Inl (CatalogFailed e) | Inr list \<Rightarrow> Inr (CatalogFromChannels list))
       else Inr DefaultCatalog) = Inr c"
    and doc: "(if trim_space (cfgTopologyPath cfg) \<noteq> []
       then (case LoadFile (ldRead ld) (ldTopology ld) (cfgTopologyPath cfg) of
               Inl e \<Rightarrow> Inl (TopologyFailed e) | Inr doc \<Rightarrow> Inr doc)
       else Inr (DefaultTopology cfg)) = Inr doc"
    and sim: "sim = \<lparr>simConfig = cfg, simHTTP = NewWithTopology cfg doc True now,
       simRTSP = NewServer cfg ?src (Some (NewManager c (cfgTunerCount cfg) clock)) clock\<rparr>"
    using assms by (auto simp: New_def Let_def split: sum.splits)
  have "wf_catalog c"
  proof (cases "trim_space (cfgCatalogPath cfg) = []")
    case True
    then have "c = CatalogFromChannels DachChannels" using c by (simp add: DefaultCatalog_def)
    moreover have "distinct (map chID DachChannels)" by (simp add: DachChannels_def)
    ultimately show ?thesis using wf_catalog_from_channels by simp
  next
    case False
    then obtain services chs where "catalogFile_channels services = Inr chs" "c = CatalogFromChannels chs"
      using c by (auto simp: LoadCatalogFile_def split: sum.splits)
    then show ?thesis using catalogFile_channels_valid wf_catalog_from_channels by blast
  qed
  then have init: "node_init \<lparr>ndServer = simRTSP sim, ndConns = Map.empty\<rparr>"
    unfolding node_init_def sim
    by (intro exI [of _ cfg] exI [of _ ?src] exI [of _ c] exI [of _ "cfgTunerCount cfg"] exI [of _ clock]) simp
  then have "server_ok (simRTSP sim)" using node_new [OF init] by (simp add: node_ok_def)
  moreover have "if trim_space (cfgTopologyPath cfg) = [] then doc = DefaultTopology cfg
     else document_valid doc \<and> normal_document doc = doc"
  proof (cases "trim_space (cfgTopologyPath cfg) = []")
    case True
    then show ?thesis using doc by simp
  next
    case False
    then obtain raw where "NormalizeAndValidate raw = (doc, None)"
      using doc by (auto simp: LoadFile_def split: sum.splits prod.splits option.splits)
    then show ?thesis using False normalized_document by simp
  qed
  ultimately show ?thesis using init by (simp add: sim NewWithTopology_def)
qed

section \<open>The running simulator\<close>

text \<open>A simulator with its open RTSP connections. It takes the steps of its node and answers HTTP requests.\<close>

type_synonym running = "simulator \<times> (nat \<rightharpoonup> connection)"

definition node_of :: "running \<Rightarrow> node" where
  "node_of r = \<lparr>ndServer = simRTSP (fst r), ndConns = snd r\<rparr>"

inductive sim_step :: "rtsp_env \<Rightarrow> running \<Rightarrow> running \<Rightarrow> bool" for env where
  sim_rtsp: "node_step env (node_of (sim, conns)) nd \<Longrightarrow>
    sim_step env (sim, conns) (sim\<lparr>simRTSP := ndServer nd\<rparr>, ndConns nd)"
| sim_http: "serve env (simHTTP sim) req (simRTSP sim) = (resp, s') \<Longrightarrow>
    sim_step env (sim, conns) (sim\<lparr>simRTSP := s'\<rparr>, conns)"

definition sim_start :: "('e, 'b) loaders \<Rightarrow> (nat \<Rightarrow> time) \<Rightarrow> time \<Rightarrow> config \<Rightarrow> running \<Rightarrow> bool" where
  "sim_start ld clock now cfg r \<longleftrightarrow> New ld clock now cfg = Inr (fst r) \<and> snd r = Map.empty"

definition sim_ok :: "config \<Rightarrow> running \<Rightarrow> bool" where
  "sim_ok cfg r \<longleftrightarrow> node_ok (node_of r) \<and> owned (node_of r) \<and> hsReset (simHTTP (fst r)) \<and>
     (if trim_space (cfgTopologyPath cfg) = [] then hsTopology (simHTTP (fst r)) = DefaultTopology cfg
      else document_valid (hsTopology (simHTTP (fst r))) \<and>
        normal_document (hsTopology (simHTTP (fst r))) = hsTopology (simHTTP (fst r)))"

lemma sim_started: "sim_start ld clock now cfg r \<Longrightarrow> sim_ok cfg r"
  using starts_sound [of ld clock now cfg "fst r"] node_new [of "node_of r"] held.init_inv [of "node_of r"]
  by (auto simp: sim_start_def sim_ok_def node_of_def)

lemma sim_steps:
  assumes "env_ok env" "sim_step env r r'" "sim_ok cfg r"
  shows "sim_ok cfg r'"
  using assms(2,3)
proof (induction rule: sim_step.induct)
  case (sim_rtsp sim conns nd)
  have "node_of (sim\<lparr>simRTSP := ndServer nd\<rparr>, ndConns nd) = nd" by (simp add: node_of_def)
  moreover have "node_ok nd \<and> owned nd"
    using sim_rtsp held.step_inv [of "node_of (sim, conns)" env nd] assms(1) by (simp add: sim_ok_def)
  ultimately show ?case using sim_rtsp(2) by (simp add: sim_ok_def split: if_splits)
next
  case (sim_http sim req resp s' conns)
  have "ok_to (simRTSP sim) s'" "srvSessions s' \<subseteq> srvSessions (simRTSP sim)"
    using serve_ok [of "simHTTP sim" "simRTSP sim" env req] sim_http by (simp_all add: sim_ok_def)
  then have "node_ok ((node_of (sim, conns))\<lparr>ndServer := s'\<rparr>) \<and> owned ((node_of (sim, conns))\<lparr>ndServer := s'\<rparr>)"
    using sim_http(2) by (intro conjI node_change owned_fewer) (auto simp: sim_ok_def node_of_def)
  then show ?case using sim_http(2) by (simp add: sim_ok_def node_of_def split: if_splits)
qed

interpretation sim: inductive_invariant "sim_start ld clock now cfg" "\<lambda>r r'. env_ok env \<and> sim_step env r r'" "sim_ok cfg"
  for ld clock now cfg env
  by unfold_locales (auto intro: sim_started sim_steps)



end
