(* ===== verification/Commands.thy ===== *)
theory Commands
  imports Simulator Mcp Compat
begin

text \<open>
  The other commands (\<open>cmd/satip-lab-smoke\<close>, \<open>cmd/satip-lab-mcp\<close>, \<open>cmd/satip-lab-compat-evidence\<close>) and the
  run of \<open>cmd/satip-lab\<close> up to its wait for a signal. A command is what it prints to its standard output or the
  error it ends with, and its exit code. Files, YAML and JSON texts and the networks are parameters.
\<close>

section \<open>Exit codes\<close>

text \<open>A flag set that exits on an error: after the help text with 0, else with 2.\<close>

definition flag_exit :: "flag_error \<Rightarrow> int" where
  "flag_exit e = (if e = HelpRequested then 0 else 2)"

section \<open>The smoke command\<close>

datatype smoke_output = EvidenceJSON probe_evidence | Report string

datatype smoke_failure = SmokeFlags flag_error | SmokeFailed probe_error

definition smoke_flags :: "string \<rightharpoonup> flag_kind" where
  "smoke_flags =
     [''host'' \<mapsto> StringFlag, ''rtsp-port'' \<mapsto> IntFlag, ''rtp-bind'' \<mapsto> StringFlag, ''rtp-destination'' \<mapsto> StringFlag,
      ''json'' \<mapsto> BoolFlag, ''profile'' \<mapsto> StringFlag, ''timeout'' \<mapsto> DurationFlag]"

definition smoke_main :: "'w network \<Rightarrow> flag_parsers \<Rightarrow> string list \<Rightarrow> 'w \<Rightarrow> (smoke_failure + smoke_output) \<times> 'w" where
  "smoke_main nw fp args w =
     (case parse_flags fp smoke_flags Map.empty args of
        Inl e \<Rightarrow> (Inl (SmokeFlags e), w)
      | Inr (vals, _) \<Rightarrow>
          (case ProbeRTSPRTP nw
              \<lparr>poHost = string_flag vals ''host'' ''127.0.0.1'', poPort = int_flag fp vals ''rtsp-port'' 554,
               poRTPBindAddress = string_flag vals ''rtp-bind'' ''0.0.0.0'',
               poDestination = string_flag vals ''rtp-destination'' [], poProfile = string_flag vals ''profile'' [],
               poTimeout = duration_flag fp vals ''timeout'' (5 * second)\<rparr> w of
             (Inl e, w) \<Rightarrow> (Inl (SmokeFailed e), w)
           | (Inr result, w) \<Rightarrow>
               (Inr (if bool_flag vals ''json'' then EvidenceJSON (JSONEvidence result) else Report (smoke_report result)), w)))"

definition smoke_exit :: "smoke_failure + smoke_output \<Rightarrow> int" where
  "smoke_exit res =
     (case res of Inl (SmokeFlags e) \<Rightarrow> flag_exit e | Inl (SmokeFailed _) \<Rightarrow> 1 | Inr _ \<Rightarrow> 0)"

section \<open>The MCP command\<close>

text \<open>Its context is never done; reading its input is taken to succeed.\<close>

definition mcp_main :: "'w http_client \<Rightarrow> flag_parsers \<Rightarrow> (string \<Rightarrow> json option) \<Rightarrow> string list \<Rightarrow> string list \<Rightarrow> 'w
    \<Rightarrow> (int \<times> rpc_response list \<times> 'w) option" where
  "mcp_main hc fp parse args input w =
     (case parse_flags fp [''http-url'' \<mapsto> StringFlag] Map.empty args of
        Inl e \<Rightarrow> Some (flag_exit e, [], w)
      | Inr (vals, _) \<Rightarrow>
          (case Serve (NewMCPServer (string_flag vals ''http-url'' ''http://127.0.0.1:8875'') hc) parse
              (map (\<lambda>line. (line, False)) input) w of
             None \<Rightarrow> None
           | Some (out, _, w) \<Rightarrow> Some (0, out, w)))"

section \<open>The evidence command\<close>

datatype 'y evidence_output = BehaviorYAML 'y | EvidenceOK

datatype evidence_failure =
    EvidenceFlags flag_error | PositionalArguments "string list" | InputRequired | TraceUnread
  | TraceInvalid evidence_error | ProfileUnread | ProfileUnchecked check_error | SnippetFailed evidence_error

definition evidence_flags :: "string \<rightharpoonup> flag_kind" where
  "evidence_flags = [''input'' \<mapsto> StringFlag, ''profile-yaml'' \<mapsto> StringFlag, ''behavior-yaml'' \<mapsto> BoolFlag]"

definition evidence_main ::
  "'y yaml_lib \<Rightarrow> (string \<times> behavior_document \<Rightarrow> 'y option) \<Rightarrow> (string \<Rightarrow> json_body option) \<Rightarrow> (string \<Rightarrow> 'y option)
    \<Rightarrow> flag_parsers \<Rightarrow> string list \<Rightarrow> evidence_failure + 'y evidence_output" where
  "evidence_main yaml marshal readTrace readProfile fp args =
     (case parse_flags fp evidence_flags Map.empty args of
        Inl e \<Rightarrow> Inl (EvidenceFlags e)
      | Inr (vals, rest) \<Rightarrow>
          if rest \<noteq> [] then Inl (PositionalArguments rest)
          else if string_flag vals ''input'' [] = [] then Inl InputRequired
          else
            (case readTrace (string_flag vals ''input'' []) of
               None \<Rightarrow> Inl TraceUnread
             | Some traceBody \<Rightarrow>
            (case ValidateTraceEvidence traceBody of
               Some e \<Rightarrow> Inl (TraceInvalid e)
             | None \<Rightarrow>
            (case (if string_flag vals ''profile-yaml'' [] = [] then None
                   else (case readProfile (string_flag vals ''profile-yaml'' []) of
                           None \<Rightarrow> Some ProfileUnread
                         | Some profileBody \<Rightarrow>
                             map_option ProfileUnchecked (CheckProfileBehaviorAgainstTrace yaml profileBody traceBody))) of
               Some e \<Rightarrow> Inl e
             | None \<Rightarrow>
                 if bool_flag vals ''behavior-yaml''
                 then (case TraceEvidenceBehaviorYAML marshal traceBody of
                         Inl e \<Rightarrow> Inl (SnippetFailed e)
                       | Inr body \<Rightarrow> Inr (BehaviorYAML body))
                 else Inr EvidenceOK))))"

definition evidence_exit :: "evidence_failure + 'y evidence_output \<Rightarrow> int" where
  "evidence_exit res =
     (case res of
        Inr _ \<Rightarrow> 0
      | Inl (EvidenceFlags e) \<Rightarrow> flag_exit e
      | Inl (PositionalArguments _) \<Rightarrow> 2
      | Inl InputRequired \<Rightarrow> 2
      | Inl _ \<Rightarrow> 1)"

section \<open>The simulator command\<close>

definition running_notes :: "config \<Rightarrow> string list" where
  "running_notes cfg =
     [''satip-lab running'', ''  SSDP target : '' @ SatIPSearchTarget, ''  Device XML  : '' @ DeviceDescriptionURL cfg,
      ''  Channel M3U : '' @ M3UURL cfg,
      ''  RTSP        : rtsp://'' @ cfgPublicHost cfg @ '':'' @ itoa (EffectivePublicRTSPPort cfg) @ ''/'']
     @ (if EffectivePublicHTTPPort cfg \<noteq> cfgHTTPPort cfg \<or> EffectivePublicRTSPPort cfg \<noteq> cfgRTSPPort cfg
        then [''  Listen ports: HTTP '' @ itoa (cfgHTTPPort cfg) @ '', RTSP '' @ itoa (cfgRTSPPort cfg)] else [])
     @ [''  Scenario    : '' @ ScenarioName cfg, ''  Tuners      : '' @ itoa (cfgTunerCount cfg),
        ''  Catalog     : '' @ cfgCatalogPath cfg, ''  TS file     : '' @ cfgTransportStreamPath cfg,
        ''  Media dir   : '' @ cfgMediaDir cfg, ''  Sample prof.: '' @ cfgSampleProfile cfg,
        ''  Profile     : '' @ profName (CompatibilityProfile cfg), ''  Vendor prof.: '' @ cfgVendorProfile cfg,
        ''  EPG clock   : '' @ cfgEPGClock cfg]
     @ (if cfgSSDPort cfg \<le> 0 then [''  SSDP        : disabled''] else [])
     @ [[], ''Press Ctrl+C to stop.'']"

datatype 'e lab_failure = LabFlags flag_error | NotConfigured "'e startup_error" | NotStarted start_error

definition lab_main :: "('e, 'b) loaders \<Rightarrow> (nat \<Rightarrow> time) \<Rightarrow> time \<Rightarrow> bool \<times> bool \<times> bool \<Rightarrow> flag_parsers
    \<Rightarrow> environment \<Rightarrow> string list \<Rightarrow> 'e lab_failure + simulator \<times> bool \<times> string list" where
  "lab_main ld clock now up fp vars args =
     (case parse_flags fp main_flags Map.empty args of
        Inl e \<Rightarrow> Inl (LabFlags e)
      | Inr (vals, _) \<Rightarrow>
          let cfg = main_config fp (FromEnvironment vars) vals
          in case New ld clock now cfg of
               Inl e \<Rightarrow> Inl (NotConfigured e)
             | Inr sim \<Rightarrow>
                 (case up of
                    (http_up, rtsp_up, ssdp_up) \<Rightarrow>
                      (case Start cfg http_up rtsp_up ssdp_up of
                         Inl e \<Rightarrow> Inl (NotStarted e)
                       | Inr discovery \<Rightarrow> Inr (sim, discovery, running_notes cfg))))"

definition lab_exit :: "'e lab_failure \<Rightarrow> int" where
  "lab_exit e = (case e of LabFlags f \<Rightarrow> flag_exit f | _ \<Rightarrow> 1)"

end
