(* ===== verification/CommandsSpec.thy ===== *)
theory CommandsSpec
  imports Commands CompatSpec
begin

text \<open>
  The commands that combine several components: the behaviour snippet that the evidence command prints is
  one that a profile passes the check of the same command with, and each command ends with the exit code of
  its outcome.
\<close>

section \<open>The snippet of the evidence command\<close>

lemma evidence_snippet:
  assumes "evidence_main yaml marshal readTrace readProfile fp args = Inr (BehaviorYAML snippet)"
  obtains vals traceBody trace where "parse_flags fp evidence_flags Map.empty args = Inr (vals, [])"
    "readTrace (string_flag vals ''input'' []) = Some traceBody" "ValidateTraceEvidence traceBody = None"
    "parseTraceEvidence traceBody = Inr trace"
    "marshal (''behavior'', behaviorFromObserved (teObserved trace)) = Some snippet"
proof -
  obtain vals traceBody where v: "parse_flags fp evidence_flags Map.empty args = Inr (vals, [])"
    "readTrace (string_flag vals ''input'' []) = Some traceBody" "ValidateTraceEvidence traceBody = None"
    "TraceEvidenceBehaviorYAML marshal traceBody = Inr snippet"
    using assms by (auto simp: evidence_main_def split: sum.splits prod.splits option.splits if_splits)
  then obtain trace where "parseTraceEvidence traceBody = Inr trace"
    "marshal (''behavior'', behaviorFromObserved (teObserved trace)) = Some snippet"
    by (auto simp: TraceEvidenceBehaviorYAML_def parse_validated split: sum.splits option.splits)
  with v show ?thesis using that by blast
qed

text \<open>The snippet that the evidence command prints for a trace makes a profile that passes its check: any
  profile of the trace's name whose behaviour reads as the snippet, complete in its other fields and of a
  confidence backed by a trace (or the trace's own) is accepted against that trace. Reading YAML undoes
  writing it.\<close>

theorem snippet_passes_check:
  assumes "evidence_main yaml marshal readTrace readProfile fp args = Inr (BehaviorYAML snippet)"
    "\<forall>b out. marshal (''behavior'', b) = Some out \<longrightarrow> read_snippet out = Some b"
    "ylProfile yaml profileYAML = Some p" "pdocBehavior p = read_snippet snippet"
    "presentFields yaml profileYAML = Some present" "missing_fields present p = []"
  shows "\<exists>vals traceBody trace. parse_flags fp evidence_flags Map.empty args = Inr (vals, []) \<and>
    readTrace (string_flag vals ''input'' []) = Some traceBody \<and> parseTraceEvidence traceBody = Inr trace \<and>
    (pdocProfile p = teProfile trace \<and> (traceBacked (pdocConfidence p) \<or> pdocConfidence p = teConfidence trace) \<longrightarrow>
       CheckProfileBehaviorAgainstTrace yaml profileYAML traceBody = None)"
proof -
  obtain vals traceBody trace where t: "parse_flags fp evidence_flags Map.empty args = Inr (vals, [])"
    "readTrace (string_flag vals ''input'' []) = Some traceBody" "ValidateTraceEvidence traceBody = None"
    "parseTraceEvidence traceBody = Inr trace"
    "marshal (''behavior'', behaviorFromObserved (teObserved trace)) = Some snippet"
    using evidence_snippet [OF assms(1)] by blast
  let ?b = "behaviorFromObserved (teObserved trace)"
  have "validateBehavior (teConfidence trace) ?b = None"
    by (rule accepted_behavior [OF t(3,4)])
  then have "validateBehavior c ?b = None" if "traceBacked c \<or> c = teConfidence trace" for c
    using that by (auto simp: validateBehavior_def split: if_splits)
  moreover have "read_snippet snippet = Some ?b" using t(5) assms(2) by blast
  ultimately show ?thesis
    using t(1,2,4) by (intro exI [of _ vals] exI [of _ traceBody] exI [of _ trace])
      (auto simp: check_accepts_iff t(3,4) assms(3-6))
qed

section \<open>An example\<close>

definition sample_profile :: "behavior_document \<Rightarrow> profile_document" where
  "sample_profile b =
     \<lparr>pdocProfile = ''spec'', pdocModel = \<lparr>mdManufacturer = ''a'', mdName = ''b''\<rparr>,
      pdocSource = [\<lparr>sdLabel = ''c'', sdURL = []\<rparr>], pdocConfidence = ''owned-hardware'',
      pdocDescXML = \<lparr>dxFriendlyName = ''d'', dxManufacturer = ''e'', dxModelName = ''f'', dxModelNumber = [], dxUDN = [],
        dxDescriptionPath = ''/g'', dxXSatipCAP = ''h'', dxXSatipM3U = ''/i''\<rparr>,
      pdocSSDPHeaders = \<lparr>dsServer = ''j'', dsST = ''k'', dsUSN = ''l''\<rparr>, pdocM3USample = [], pdocRTSPTranscript = [],
      pdocKnownQuirks = [], pdocSupportedMethods = [''OPTIONS''], pdocTunerBehavior = ''m'', pdocPlaybackNotes = ''n'',
      pdocBehavior = Some b, pdocSimulator = \<lparr>mrRuntimeProfile = ''spec'', mrImplementedScope = ''o''\<rparr>\<rparr>"

definition sample_yaml :: "behavior_document yaml_lib" where
  "sample_yaml = \<lparr>ylNode = (\<lambda>_. Some (Some (Mapping
     [(''desc_xml'', Mapping [(''modelNumber'', OtherNode), (''udn'', OtherNode)]), (''m3u_sample'', OtherNode),
      (''rtsp_transcript'', OtherNode), (''known_quirks'', OtherNode)]))), ylProfile = (\<lambda>b. Some (sample_profile b))\<rparr>"

lemma sample_parsed: "\<exists>trace. parseTraceEvidence (sample_evidence ''simulator'') = Inr trace \<and> teProfile trace = ''spec''"
proof -
  have "(case parseTraceEvidence (sample_evidence ''simulator'') of Inl _ \<Rightarrow> False | Inr d \<Rightarrow> teProfile d = ''spec'')"
    by code_simp
  then show ?thesis by (auto split: sum.splits)
qed

lemma trim_plain: "list_all (\<lambda>v. trim_space v = v)
  [''spec'', ''a'', ''b'', ''c'', ''owned-hardware'', ''d'', ''e'', ''f'', ''/g'', ''h'', ''/i'', ''j'', ''k'', ''l'', ''m'', ''n'', ''o'']"
  by code_simp

theorem snippet_passes_check_witness:
  "\<exists>snippet. evidence_main sample_yaml (\<lambda>(_, b). Some b) (\<lambda>_. Some (sample_evidence ''simulator'')) (\<lambda>_. None) \<lparr>fpInt = atoi, fpDuration = (\<lambda>_. None)\<rparr>
      [''-behavior-yaml'', ''-input=trace.json''] = Inr (BehaviorYAML snippet) \<and>
    CheckProfileBehaviorAgainstTrace sample_yaml snippet (sample_evidence ''simulator'') = None"
proof -
  let ?ev = "sample_evidence ''simulator''" and ?fp = "\<lparr>fpInt = atoi, fpDuration = (\<lambda>_. None)\<rparr> :: flag_parsers"
  let ?args = "[''-behavior-yaml'', ''-input=trace.json'']"
  have p: "parse_flags ?fp evidence_flags Map.empty ?args = Inr ([''behavior-yaml'' \<mapsto> ''true'', ''input'' \<mapsto> ''trace.json''], [])"
    by (simp add: evidence_flags_def split_flag_def set_flag_def valid_value_def)
  obtain trace where t: "parseTraceEvidence ?ev = Inr trace" "teProfile trace = ''spec''"
    using sample_parsed by blast
  let ?b = "behaviorFromObserved (teObserved trace)"
  have run: "evidence_main sample_yaml (\<lambda>(_, b). Some b) (\<lambda>_. Some ?ev) (\<lambda>_. None) ?fp ?args = Inr (BehaviorYAML ?b)"
    unfolding evidence_main_def p using t(1) sample_accepted
    by (simp add: string_flag_def bool_flag_def parse_bool_def TraceEvidenceBehaviorYAML_def
        parseAndValidateTraceEvidence_def)
  have "\<exists>present. presentFields sample_yaml ?b = Some present \<and> missing_fields present (sample_profile ?b) = []"
    by (simp add: presentFields_def sample_yaml_def missing_fields_def sample_profile_def requirePresent_def require_def
        trim_plain [simplified] Let_def)
  then obtain present where q: "presentFields sample_yaml ?b = Some present" "missing_fields present (sample_profile ?b) = []"
    by blast
  have "CheckProfileBehaviorAgainstTrace sample_yaml ?b ?ev = None"
    using snippet_passes_check [OF run _ _ _ q, of Some] t
    by (auto simp: sample_yaml_def sample_profile_def traceBacked_def trim_plain [simplified])
  with run show ?thesis by blast
qed

end
