(* ===== verification/SsdpLoops.thy ===== *)
theory SsdpLoops
  imports Ssdp
begin

text \<open>
  Starting and stopping the SSDP server, with its two goroutines (\<open>internal/ssdp/server.go\<close>). The server has no
  mutex, so \<open>Stop\<close> and the goroutines interleave statement by statement. Whether the system opens a socket is
  an input.
\<close>

section \<open>The SSDP server\<close>

text \<open>Channels and sockets are numbered as they are made.\<close>

record ssdp =
  sdStopCh :: "nat option"
  sdConn :: "nat option"
  sdNext :: nat
  sdClosed :: "nat set"
  sdSockets :: "nat set"

definition new_ssdp :: ssdp where
  "new_ssdp = \<lparr>sdStopCh = None, sdConn = None, sdNext = 0, sdClosed = {}, sdSockets = {}\<rparr>"

text \<open>The result says whether the server is started; a failure after the socket is opened leaves it open.\<close>

definition ssdp_Start :: "bool \<Rightarrow> bool \<Rightarrow> bool \<Rightarrow> bool \<Rightarrow> ssdp \<Rightarrow> bool \<times> ssdp" where
  "ssdp_Start resolves listens group_resolves joins st =
     (if \<not> resolves then (False, st)
      else if \<not> listens then (False, st)
      else
        let n = sdNext st;
            st = st\<lparr>sdConn := Some n, sdSockets := insert n (sdSockets st), sdNext := Suc n\<rparr>
        in if \<not> group_resolves then (False, st)
           else if \<not> joins then (False, st)
           else (True, st\<lparr>sdStopCh := Some n\<rparr>))"

text \<open>The statements of \<open>Stop\<close>, each a step; the tests of the two conditions belong to them.\<close>

definition stop_statements :: "(ssdp \<Rightarrow> ssdp) list" where
  "stop_statements =
     [\<lambda>st. (case sdStopCh st of None \<Rightarrow> st | Some ch \<Rightarrow> st\<lparr>sdClosed := insert ch (sdClosed st)\<rparr>),
      \<lambda>st. st\<lparr>sdStopCh := None\<rparr>,
      \<lambda>st. (case sdConn st of None \<Rightarrow> st | Some c \<Rightarrow> st\<lparr>sdSockets := sdSockets st - {c}\<rparr>),
      \<lambda>st. st\<lparr>sdConn := None\<rparr>]"

definition ssdp_Stop :: "ssdp \<Rightarrow> ssdp" where
  "ssdp_Stop st = foldl (\<lambda>st f. f st) st stop_statements"

text \<open>Where \<open>readLoop\<close> stands: at the test of \<open>stopCh\<close>, before the read, in the read of a socket, at the
  \<open>select\<close> after an error (a time-out or another), or before it sends an answer. The use of a nil socket is an
  error or a panic.\<close>

datatype reader = RTop | RRead | RBlocked nat | RFailed bool | RReply string | RDone | RCrashed

inductive readLoop :: "config \<Rightarrow> ssdp \<Rightarrow> reader \<Rightarrow> reader \<Rightarrow> bool" for cfg st where
  rd_end: "sdStopCh st = None \<Longrightarrow> readLoop cfg st RTop RDone"
| rd_go: "sdStopCh st \<noteq> None \<Longrightarrow> readLoop cfg st RTop RRead"
| rd_read: "sdConn st = Some c \<Longrightarrow> readLoop cfg st RRead (RBlocked c)"
| rd_nil: "sdConn st = None \<Longrightarrow> readLoop cfg st RRead (RFailed False)"
| rd_nil_crash: "sdConn st = None \<Longrightarrow> readLoop cfg st RRead RCrashed"
| rd_data: "c \<in> sdSockets st \<Longrightarrow>
    readLoop cfg st (RBlocked c) (case read_turn cfg payload of None \<Rightarrow> RTop | Some resp \<Rightarrow> RReply resp)"
| rd_timeout: "c \<in> sdSockets st \<Longrightarrow> readLoop cfg st (RBlocked c) (RFailed True)"
| rd_closed: "c \<notin> sdSockets st \<Longrightarrow> readLoop cfg st (RBlocked c) (RFailed False)"
| rd_stopped: "sdStopCh st = Some ch \<Longrightarrow> ch \<in> sdClosed st \<Longrightarrow> readLoop cfg st (RFailed timeout) RDone"
| rd_default: "(\<And>ch. sdStopCh st = Some ch \<Longrightarrow> ch \<notin> sdClosed st) \<Longrightarrow>
    readLoop cfg st (RFailed timeout) (if timeout then RTop else RDone)"
| rd_reply: "readLoop cfg st (RReply resp) RTop"
| rd_reply_crash: "sdConn st = None \<Longrightarrow> readLoop cfg st (RReply resp) RCrashed"

text \<open>Where \<open>notifyLoop\<close> stands: before its \<open>select\<close>, in it with the channel that it has read from the server
  (for which a nil channel is never ready), or in the branch of the ticker.\<close>

datatype notifier = NSelect | NWaiting "nat option" | NTick | NDone | NCrashed

inductive notifyLoop :: "ssdp \<Rightarrow> notifier \<Rightarrow> notifier \<Rightarrow> bool" for st where
  nt_select: "notifyLoop st NSelect (NWaiting (sdStopCh st))"
| nt_stopped: "ch \<in> sdClosed st \<Longrightarrow> notifyLoop st (NWaiting (Some ch)) NDone"
| nt_tick: "notifyLoop st (NWaiting ch) NTick"
| nt_send: "notifyLoop st NTick NSelect"
| nt_send_crash: "sdConn st = None \<Longrightarrow> notifyLoop st NTick NCrashed"

inductive_cases readLoop_cases: "readLoop cfg st p q"
inductive_cases notifyLoop_cases: "notifyLoop st p q"

text \<open>A started server with its goroutines, and a call of \<open>Stop\<close> of which some statements have run.\<close>

record ssdp_run =
  rnState :: ssdp
  rnStops :: nat
  rnReader :: reader
  rnNotifier :: notifier

definition run_init :: "ssdp_run \<Rightarrow> bool" where
  "run_init r \<longleftrightarrow> r = \<lparr>rnState = snd (ssdp_Start True True True True new_ssdp), rnStops = 0, rnReader = RTop,
     rnNotifier = NSelect\<rparr>"

inductive run_step :: "config \<Rightarrow> ssdp_run \<Rightarrow> ssdp_run \<Rightarrow> bool" for cfg where
  rn_read: "readLoop cfg (rnState r) (rnReader r) p \<Longrightarrow> run_step cfg r (r\<lparr>rnReader := p\<rparr>)"
| rn_notify: "notifyLoop (rnState r) (rnNotifier r) p \<Longrightarrow> run_step cfg r (r\<lparr>rnNotifier := p\<rparr>)"
| rn_stop: "rnStops r < length stop_statements \<Longrightarrow>
    run_step cfg r (r\<lparr>rnState := (stop_statements ! rnStops r) (rnState r), rnStops := Suc (rnStops r)\<rparr>)"

section \<open>How far a call of Stop has come\<close>

definition started :: ssdp where
  "started = snd (ssdp_Start True True True True new_ssdp)"

definition stopped_after :: "nat \<Rightarrow> ssdp" where
  "stopped_after n = foldl (\<lambda>st f. f st) started (take n stop_statements)"

definition run_ok :: "ssdp_run \<Rightarrow> bool" where
  "run_ok r \<longleftrightarrow> rnStops r \<le> length stop_statements \<and>
     rnState r = stopped_after (rnStops r) \<and>
     (\<forall>c. rnReader r = RBlocked c \<longrightarrow> c = 0) \<and>
     (\<forall>ch. rnNotifier r = NWaiting (Some ch) \<longrightarrow> ch = 0)"

lemma stop_states:
  "stopped_after 0 =
     \<lparr>sdStopCh = Some 0, sdConn = Some 0, sdNext = 1, sdClosed = {}, sdSockets = {0}\<rparr>"
  "stopped_after (Suc 0) =
     \<lparr>sdStopCh = Some 0, sdConn = Some 0, sdNext = 1, sdClosed = {0}, sdSockets = {0}\<rparr>"
  "stopped_after 2 =
     \<lparr>sdStopCh = None, sdConn = Some 0, sdNext = 1, sdClosed = {0}, sdSockets = {0}\<rparr>"
  "stopped_after 3 =
     \<lparr>sdStopCh = None, sdConn = Some 0, sdNext = 1, sdClosed = {0}, sdSockets = {}\<rparr>"
  "stopped_after 4 =
     \<lparr>sdStopCh = None, sdConn = None, sdNext = 1, sdClosed = {0}, sdSockets = {}\<rparr>"
  by (simp_all add: stopped_after_def started_def ssdp_Start_def new_ssdp_def stop_statements_def eval_nat_numeral)

lemma four_statements: "length stop_statements = 4"
  by (simp add: stop_statements_def)

lemma run_handles:
  assumes "run_ok r"
  shows "sdConn (rnState r) = Some c \<Longrightarrow> c = 0" "sdStopCh (rnState r) = Some c \<Longrightarrow> c = 0"
proof -
  consider "rnStops r = 0" | "rnStops r = 1" | "rnStops r = 2" | "rnStops r = 3" | "rnStops r = 4"
    using assms by (auto simp: run_ok_def four_statements) linarith
  then have "(sdConn (rnState r) = Some c \<longrightarrow> c = 0) \<and> (sdStopCh (rnState r) = Some c \<longrightarrow> c = 0)"
    using assms by cases (simp_all add: run_ok_def stop_states)
  then show "sdConn (rnState r) = Some c \<Longrightarrow> c = 0" "sdStopCh (rnState r) = Some c \<Longrightarrow> c = 0" by blast+
qed

interpretation ssdp: inductive_invariant run_init "run_step cfg" run_ok
proof (unfold_locales, goal_cases)
  case (1 r)
  then show ?case by (simp add: run_init_def run_ok_def stopped_after_def started_def)
next
  case (2 r r')
  from 2(2) show ?case
  proof cases
    case (rn_read p)
    have "p = RBlocked c \<Longrightarrow> c = 0" for c
      using rn_read(2) run_handles(1) [OF 2(1)] by (auto elim!: readLoop_cases split: option.splits if_splits)
    then show ?thesis using rn_read(1) 2(1) by (simp add: run_ok_def)
  next
    case (rn_notify p)
    have "p = NWaiting (Some ch) \<Longrightarrow> ch = 0" for ch
      using rn_notify(2) run_handles(2) [OF 2(1)] by (auto elim!: notifyLoop_cases)
    then show ?thesis using rn_notify(1) 2(1) by (simp add: run_ok_def)
  next
    case rn_stop
    then show ?thesis using 2(1) by (simp add: run_ok_def stopped_after_def take_Suc_conv_app_nth)
  qed
qed

lemma run_stopped:
  assumes "run_ok r" "rnStops r = length stop_statements"
  shows "rnState r = \<lparr>sdStopCh = None, sdConn = None, sdNext = 1, sdClosed = {0}, sdSockets = {}\<rparr>"
  using assms by (simp add: run_ok_def four_statements stop_states)

section \<open>After Stop\<close>

text \<open>The number of steps that the reader still makes at most.\<close>

fun reader_rank :: "reader \<Rightarrow> nat" where
  "reader_rank RDone = 0"
| "reader_rank RCrashed = 0"
| "reader_rank RTop = 1"
| "reader_rank (RFailed timeout) = 2"
| "reader_rank (RReply resp) = 2"
| "reader_rank (RBlocked c) = 3"
| "reader_rank RRead = 3"

definition deaf :: "notifier \<Rightarrow> bool" where
  "deaf p \<longleftrightarrow> p \<in> {NSelect, NTick, NWaiting None}"

lemma stopped_reader:
  assumes "sdStopCh st = None" "sdConn st = None" "sdSockets st = {}"
  shows "readLoop cfg st p q \<Longrightarrow> reader_rank q < reader_rank p"
    and "reader_rank p \<noteq> 0 \<Longrightarrow> \<exists>q. readLoop cfg st p q"
proof -
  show "readLoop cfg st p q \<Longrightarrow> reader_rank q < reader_rank p"
    using assms by (auto elim!: readLoop_cases)
  show "reader_rank p \<noteq> 0 \<Longrightarrow> \<exists>q. readLoop cfg st p q"
    using assms rd_default [of st cfg] by (cases p) (auto intro: readLoop.intros)
qed

lemma deaf_forever:
  assumes "(run_step cfg)\<^sup>*\<^sup>* r r'" "rnStops r = length stop_statements" "run_ok r" "deaf (rnNotifier r)"
  shows "run_ok r' \<and> rnStops r' = length stop_statements \<and> (deaf (rnNotifier r') \<or> rnNotifier r' = NCrashed)"
  using assms
proof (induction rule: rtranclp_induct)
  case (step r' r'')
  then have r': "run_ok r'" "rnStops r' = length stop_statements" "deaf (rnNotifier r') \<or> rnNotifier r' = NCrashed"
    by auto
  have "run_ok r''" using ssdp.step_inv [OF r'(1) step.hyps(2)] .
  moreover have "rnStops r'' = length stop_statements \<and> (deaf (rnNotifier r'') \<or> rnNotifier r'' = NCrashed)"
    using step.hyps(2)
  proof cases
    case (rn_notify p)
    then show ?thesis using r' run_stopped [OF r'(1,2)] by (auto simp: deaf_def elim!: notifyLoop_cases)
  qed (use r' in simp_all)
  ultimately show ?case by blast
qed (simp add: assms)

text \<open>A run in which the ticker fires just before \<open>Stop\<close>.\<close>

lemma late_tick: "\<exists>r. reach run_init (run_step cfg) r \<and> rnStops r = length stop_statements \<and> rnNotifier r = NTick"
proof -
  define r0 where "r0 = \<lparr>rnState = started, rnStops = 0, rnReader = RTop, rnNotifier = NSelect\<rparr>"
  define r2 where "r2 = r0\<lparr>rnNotifier := NTick\<rparr>"
  have "reach run_init (run_step cfg) r0" by (rule reach_init) (simp add: run_init_def r0_def started_def)
  moreover have "run_step cfg r0 (r0\<lparr>rnNotifier := NWaiting (sdStopCh started)\<rparr>)"
    by (rule rn_notify) (simp add: r0_def nt_select)
  moreover have "run_step cfg (r0\<lparr>rnNotifier := NWaiting (sdStopCh started)\<rparr>) r2"
    using rn_notify [of "r0\<lparr>rnNotifier := NWaiting (sdStopCh started)\<rparr>" NTick cfg] by (simp add: nt_tick r2_def)
  ultimately have r2: "reach run_init (run_step cfg) r2" by (meson reach_step)
  have "\<exists>r. reach run_init (run_step cfg) r \<and> rnStops r = n \<and> rnNotifier r = NTick" if "n \<le> length stop_statements" for n
    using that
  proof (induction n)
    case 0
    then show ?case using r2 by (intro exI [of _ r2]) (simp add: r2_def r0_def)
  next
    case (Suc n)
    then obtain r where r: "reach run_init (run_step cfg) r" "rnStops r = n" "rnNotifier r = NTick" by auto
    have "run_step cfg r (r\<lparr>rnState := (stop_statements ! rnStops r) (rnState r), rnStops := Suc (rnStops r)\<rparr>)"
      by (rule rn_stop) (use Suc.prems r(2) in simp)
    from reach_step [OF r(1) this] show ?case using r(2,3) by (intro exI) auto
  qed
  then show ?thesis by blast
qed

text \<open>C20. \<open>Stop\<close> of the SSDP server against its goroutines, in every interleaving of their statements. The socket is
  closed; \<open>readLoop\<close> ends within three steps of its own, wherever it was. \<open>notifyLoop\<close> ends if it waits in its
  \<open>select\<close> at the time; but when it was sending a notification it finds a nil channel at its next \<open>select\<close> and
  waits for ever, waking up with its ticker to send on a nil socket, and this can happen.\<close>

theorem ssdp_stop_loops:
  assumes "reach run_init (run_step cfg) r" "rnStops r = length stop_statements"
  shows "sdSockets (rnState r) = {} \<and> reader_rank (rnReader r) \<le> 3 \<and>
    (\<forall>p. readLoop cfg (rnState r) (rnReader r) p \<longrightarrow> reader_rank p < reader_rank (rnReader r)) \<and>
    (reader_rank (rnReader r) = 0 \<longleftrightarrow> \<not> (\<exists>p. readLoop cfg (rnState r) (rnReader r) p)) \<and>
    (\<forall>ch. rnNotifier r = NWaiting (Some ch) \<longrightarrow> notifyLoop (rnState r) (rnNotifier r) NDone) \<and>
    (deaf (rnNotifier r) \<longrightarrow> (\<forall>r'. (run_step cfg)\<^sup>*\<^sup>* r r' \<longrightarrow> rnNotifier r' \<noteq> NDone)) \<and>
    (\<exists>r. reach run_init (run_step cfg) r \<and> rnStops r = length stop_statements \<and> deaf (rnNotifier r))"
proof -
  have ok: "run_ok r" using ssdp.reach_inv [OF assms(1)] .
  note st = run_stopped [OF ok assms(2)]
  have reader: "readLoop cfg (rnState r) p q \<Longrightarrow> reader_rank q < reader_rank p"
    "reader_rank p \<noteq> 0 \<Longrightarrow> \<exists>q. readLoop cfg (rnState r) p q" for p q
    using stopped_reader [where st = "rnState r" and cfg = cfg] by (simp_all add: st)
  have "reader_rank p \<le> 3" for p by (cases p) simp_all
  moreover have "rnNotifier r' \<noteq> NDone" if "deaf (rnNotifier r)" "(run_step cfg)\<^sup>*\<^sup>* r r'" for r'
    using deaf_forever [OF that(2) assms(2) ok that(1)] by (auto simp: deaf_def)
  moreover have "\<exists>r. reach run_init (run_step cfg) r \<and> rnStops r = length stop_statements \<and> deaf (rnNotifier r)"
    using late_tick [of cfg] by (auto simp: deaf_def)
  moreover have "notifyLoop (rnState r) (rnNotifier r) NDone" if "rnNotifier r = NWaiting (Some ch)" for ch
  proof -
    have "ch = 0" using ok that unfolding run_ok_def by blast
    then show ?thesis by (simp add: that nt_stopped st)
  qed
  moreover have "sdSockets (rnState r) = {}" by (simp add: st)
  moreover have "reader_rank (rnReader r) = 0 \<longleftrightarrow> \<not> (\<exists>p. readLoop cfg (rnState r) (rnReader r) p)"
    using reader [of "rnReader r"] by (metis not_less_zero)
  ultimately show ?thesis using reader(1) by blast
qed

theorem ssdp_stop_loops_witness:
  "\<exists>r. reach run_init (run_step (FromEnvironment unset)) r \<and> rnNotifier r = NTick \<and> sdSockets (rnState r) = {} \<and>
    (\<forall>r'. (run_step (FromEnvironment unset))\<^sup>*\<^sup>* r r' \<longrightarrow> rnNotifier r' \<noteq> NDone)"
proof -
  let ?cfg = "FromEnvironment unset"
  obtain r where r: "reach run_init (run_step ?cfg) r" "rnStops r = length stop_statements" "rnNotifier r = NTick"
    using late_tick [of ?cfg] by blast
  then have "deaf (rnNotifier r)" by (simp add: deaf_def)
  then show ?thesis using ssdp_stop_loops [OF r(1,2)] r by blast
qed

end
