(* ===== verification/Lifecycle.thy ===== *)
theory Lifecycle
  imports Simulator SsdpLoops RtspSpec
begin

text \<open>
  Starting and stopping the simulator: the listener, the accept loop, the reaper and \<open>Stop\<close> of the RTSP server
  (\<open>internal/rtsp/server.go\<close>), the listener of the HTTP server (\<open>internal/httpserver/server.go\<close>), and the order in
  which \<open>internal/simulator/simulator.go\<close> starts and stops the servers. Whether a port can be listened on is
  an input; a panic is \<open>None\<close>.
\<close>

datatype listener = NoListener | Listening | Closed

section \<open>The RTSP server\<close>

record rtsp_life =
  rlServer :: server
  rlListener :: listener
  rlStopOnce :: bool
  rlStopClosed :: bool
  rlAccepting :: bool
  rlReaping :: bool

definition new_rtsp_life :: "server \<Rightarrow> rtsp_life" where
  "new_rtsp_life s = \<lparr>rlServer = s, rlListener = NoListener, rlStopOnce = False, rlStopClosed = False,
     rlAccepting = False, rlReaping = False\<rparr>"

definition startSessionReaper :: "duration \<Rightarrow> rtsp_life \<Rightarrow> rtsp_life" where
  "startSessionReaper interval l = (if interval \<le> 0 then l else l\<lparr>rlReaping := True\<rparr>)"

definition rtsp_Start :: "bool \<Rightarrow> rtsp_life \<Rightarrow> bool \<times> rtsp_life" where
  "rtsp_Start listens l =
     (if \<not> listens then (False, l)
      else
        let l = startSessionReaper (5 * second) (l\<lparr>rlListener := Listening\<rparr>)
        in (True, l\<lparr>rlAccepting := True\<rparr>))"

text \<open>\<open>close(s.stopCh)\<close> panics on a closed channel; \<open>stopOnce\<close> runs it once. The error of closing a listener
  that is closed already is left out: the simulator drops it.\<close>

definition close_stop :: "rtsp_life \<Rightarrow> rtsp_life option" where
  "close_stop l = (if rlStopClosed l then None else Some (l\<lparr>rlStopClosed := True\<rparr>))"

definition rtsp_Stop :: "rtsp_life \<Rightarrow> rtsp_life option" where
  "rtsp_Stop l =
     (case (if rlStopOnce l then Some l else close_stop (l\<lparr>rlStopOnce := True\<rparr>)) of
        None \<Rightarrow> None
      | Some l \<Rightarrow>
          let l = l\<lparr>rlServer := Server_Reset (rlServer l)\<rparr>
          in Some (if rlListener l \<noteq> NoListener then l\<lparr>rlListener := Closed\<rparr> else l))"

text \<open>The goroutines: the reaper's \<open>select\<close>, and \<open>Accept\<close>, which fails once the listener is closed. A
  connection that is accepted is served by \<open>handleConn\<close>.\<close>

inductive rtsp_loops :: "rtsp_env \<Rightarrow> rtsp_life \<Rightarrow> rtsp_life \<Rightarrow> bool" for env where
  rl_tick: "rlReaping l \<Longrightarrow> rtsp_loops env l (l\<lparr>rlServer := expireSessions env now (rlServer l)\<rparr>)"
| rl_stopped: "rlReaping l \<Longrightarrow> rlStopClosed l \<Longrightarrow> rtsp_loops env l (l\<lparr>rlReaping := False\<rparr>)"
| rl_refused: "rlAccepting l \<Longrightarrow> rlListener l = Closed \<Longrightarrow> rtsp_loops env l (l\<lparr>rlAccepting := False\<rparr>)"

section \<open>The HTTP server\<close>

record http_life =
  hlServer :: bool
  hlListener :: listener

definition new_http_life :: http_life where
  "new_http_life = \<lparr>hlServer = False, hlListener = NoListener\<rparr>"

definition http_Start :: "bool \<Rightarrow> http_life \<Rightarrow> bool \<times> http_life" where
  "http_Start listens l =
     (let l = l\<lparr>hlServer := True\<rparr>
      in if \<not> listens then (False, l) else (True, l\<lparr>hlListener := Listening\<rparr>))"

text \<open>\<open>Shutdown\<close> closes the listener and waits for the connections; the result says whether they drained.\<close>

definition http_Stop :: "bool \<Rightarrow> http_life \<Rightarrow> bool \<times> http_life" where
  "http_Stop drains l =
     (if \<not> hlServer l then (True, l)
      else (drains, if hlListener l = NoListener then l else l\<lparr>hlListener := Closed\<rparr>))"

section \<open>The simulator\<close>

record lifecycle =
  lfHTTP :: http_life
  lfRTSP :: rtsp_life
  lfSSDP :: ssdp

definition new_lifecycle :: "simulator \<Rightarrow> lifecycle" where
  "new_lifecycle sim = \<lparr>lfHTTP = new_http_life, lfRTSP = new_rtsp_life (simRTSP sim), lfSSDP = new_ssdp\<rparr>"

text \<open>What the system lets the servers open.\<close>

record ports =
  ptHTTP :: bool
  ptRTSP :: bool
  ptSSDPResolves :: bool
  ptSSDPListens :: bool
  ptGroupResolves :: bool
  ptGroupJoins :: bool

definition simulator_Start :: "config \<Rightarrow> ports \<Rightarrow> lifecycle \<Rightarrow> (start_error + bool) \<times> lifecycle" where
  "simulator_Start cfg pt lf =
     (case http_Start (ptHTTP pt) (lfHTTP lf) of (up, h) \<Rightarrow>
        let lf = lf\<lparr>lfHTTP := h\<rparr> in
        if \<not> up then (Inl HTTPDown, lf)
        else
          (case rtsp_Start (ptRTSP pt) (lfRTSP lf) of (up, r) \<Rightarrow>
             let lf = lf\<lparr>lfRTSP := r\<rparr> in
             if \<not> up then (Inl RTSPDown, lf)
             else if cfgSSDPort cfg > 0 then
               (case ssdp_Start (ptSSDPResolves pt) (ptSSDPListens pt) (ptGroupResolves pt) (ptGroupJoins pt) (lfSSDP lf) of
                  (up, d) \<Rightarrow> (Inr up, lf\<lparr>lfSSDP := d\<rparr>))
             else (Inr False, lf)))"

definition simulator_Stop :: "bool \<Rightarrow> lifecycle \<Rightarrow> (bool \<times> lifecycle) option" where
  "simulator_Stop drains lf =
     (let lf = lf\<lparr>lfSSDP := ssdp_Stop (lfSSDP lf)\<rparr>
      in case rtsp_Stop (lfRTSP lf) of
           None \<Rightarrow> None
         | Some r \<Rightarrow>
             (case http_Stop drains (lfHTTP lf) of (ok, h) \<Rightarrow> Some (ok, lf\<lparr>lfRTSP := r, lfHTTP := h\<rparr>)))"

text \<open>The result is that of \<open>Start\<close> on whether the three came up.\<close>

lemma simulator_Start_result:
  "fst (simulator_Start cfg pt lf) =
     Start cfg (ptHTTP pt) (ptRTSP pt) (ptSSDPResolves pt \<and> ptSSDPListens pt \<and> ptGroupResolves pt \<and> ptGroupJoins pt)"
  by (simp add: simulator_Start_def Start_def http_Start_def rtsp_Start_def ssdp_Start_def Let_def)

section \<open>Stopping\<close>

text \<open>What a stopped simulator holds: no port, no socket and no session.\<close>

definition released :: "lifecycle \<Rightarrow> bool" where
  "released lf \<longleftrightarrow> hlListener (lfHTTP lf) \<noteq> Listening \<and> rlListener (lfRTSP lf) \<noteq> Listening \<and>
     sdSockets (lfSSDP lf) = {} \<and> sdConn (lfSSDP lf) = None \<and> sdStopCh (lfSSDP lf) = None \<and>
     srvSessions (rlServer (lfRTSP lf)) = {} \<and> rlStopClosed (lfRTSP lf)"

text \<open>What every lifecycle keeps: the stop channel is closed by the one call, the only socket of SSDP is the
  one it knows, and a listening HTTP server can be stopped.\<close>

definition life_ok :: "lifecycle \<Rightarrow> bool" where
  "life_ok lf \<longleftrightarrow> (rlStopClosed (lfRTSP lf) \<longleftrightarrow> rlStopOnce (lfRTSP lf)) \<and>
     sdSockets (lfSSDP lf) = set_option (sdConn (lfSSDP lf)) \<and>
     (hlListener (lfHTTP lf) = Listening \<longrightarrow> hlServer (lfHTTP lf)) \<and>
     (rlAccepting (lfRTSP lf) \<longrightarrow> rlListener (lfRTSP lf) \<noteq> NoListener)"

text \<open>A started simulator whose RTSP server has come to a state.\<close>

definition serving :: "server \<Rightarrow> lifecycle \<Rightarrow> lifecycle" where
  "serving s lf = lf\<lparr>lfRTSP := (lfRTSP lf)\<lparr>rlServer := s\<rparr>\<rparr>"

lemma life_serving [simp]: "life_ok (serving s lf) = life_ok lf"
  by (simp add: life_ok_def serving_def)

lemma life_new: "life_ok (new_lifecycle sim)"
  by (simp add: life_ok_def new_lifecycle_def new_rtsp_life_def new_ssdp_def new_http_life_def)

lemma life_start: "life_ok (snd (simulator_Start cfg pt (new_lifecycle sim)))"
  by (auto simp: life_ok_def new_lifecycle_def new_rtsp_life_def new_ssdp_def new_http_life_def simulator_Start_def
      http_Start_def rtsp_Start_def ssdp_Start_def startSessionReaper_def Let_def second_def)

lemma ssdp_Stop_state: "ssdp_Stop d = d\<lparr>sdStopCh := None, sdConn := None,
    sdClosed := sdClosed d \<union> set_option (sdStopCh d), sdSockets := sdSockets d - set_option (sdConn d)\<rparr>"
  by (cases "sdStopCh d"; cases "sdConn d") (simp_all add: ssdp_Stop_def stop_statements_def)

definition rtsp_stopped :: "rtsp_life \<Rightarrow> rtsp_life" where
  "rtsp_stopped l = l\<lparr>rlStopOnce := True, rlStopClosed := True, rlServer := Server_Reset (rlServer l),
     rlListener := (if rlListener l = NoListener then NoListener else Closed)\<rparr>"

lemma rtsp_Stop_state:
  "(rlStopClosed l \<longleftrightarrow> rlStopOnce l) \<Longrightarrow> rtsp_Stop l = Some (rtsp_stopped l)"
  by (cases l) (auto simp: rtsp_Stop_def close_stop_def rtsp_stopped_def Let_def)

lemma life_stop:
  assumes "life_ok lf"
  shows "\<exists>ok lf'. simulator_Stop drains lf = Some (ok, lf') \<and> life_ok lf' \<and> released lf' \<and>
    lfRTSP lf' = rtsp_stopped (lfRTSP lf)"
proof -
  obtain ok h where h: "http_Stop drains (lfHTTP lf) = (ok, h)" by fastforce
  then have "hlListener h \<noteq> Listening"
    using assms by (auto simp: http_Stop_def life_ok_def split: if_splits)
  moreover have "rtsp_Stop (lfRTSP lf) = Some (rtsp_stopped (lfRTSP lf))"
    using assms by (intro rtsp_Stop_state) (simp add: life_ok_def)
  ultimately show ?thesis
    using assms h by (simp add: simulator_Stop_def ssdp_Stop_state life_ok_def released_def rtsp_stopped_def
        Server_Reset_def Let_def)
qed

lemma reset_streams:
  assumes "server_ok s" "srvObjects (Server_Reset s) sid = Some ob" "rssStreaming ob \<noteq> None"
  shows "rssTransport ob = transportInterleaved"
proof -
  obtain ob0 where ob0: "srvObjects s sid = Some ob0" "ob = (if sid \<in> srvSessions s then ob0\<lparr>rssStreaming := None\<rparr> else ob0)"
    using assms(2) by (auto simp: Server_Reset_def)
  then have "sid \<notin> srvSessions s" "ob = ob0" using assms(3) by (auto split: if_splits)
  then show ?thesis using ob0(1) assms(1,3) unfolding server_ok_def objects_ok_def by blast
qed

text \<open>Stopping gives everything back, however far starting had come: after \<open>Start\<close>, successful or not (a port
  taken, no multicast), and whatever the RTSP server did since, \<open>Stop\<close> does not panic and leaves no listener,
  no discovery socket and no RTSP session, and no UDP stream goes on; the reaper and the accept loop find the
  stop channel and the listener closed and can end; and a second \<open>Stop\<close> does no harm.\<close>

theorem stop_releases_everything:
  assumes "server_ok s" "simulator_Start cfg pt (new_lifecycle sim) = (result, lf)"
  shows "\<exists>ok lf'. simulator_Stop drains (serving s lf) = Some (ok, lf') \<and> released lf' \<and>
    (\<forall>sid ob. srvObjects (rlServer (lfRTSP lf')) sid = Some ob \<and> rssStreaming ob \<noteq> None \<longrightarrow>
       rssTransport ob = transportInterleaved) \<and>
    (rlReaping (lfRTSP lf') \<longrightarrow> rtsp_loops env (lfRTSP lf') ((lfRTSP lf')\<lparr>rlReaping := False\<rparr>)) \<and>
    (rlAccepting (lfRTSP lf') \<longrightarrow> rtsp_loops env (lfRTSP lf') ((lfRTSP lf')\<lparr>rlAccepting := False\<rparr>)) \<and>
    (\<exists>ok2 lf2. simulator_Stop drains lf' = Some (ok2, lf2) \<and> released lf2)"
proof -
  have "life_ok (serving s lf)" using life_start [of cfg pt sim] assms(2) by simp
  then obtain ok lf' where lf': "simulator_Stop drains (serving s lf) = Some (ok, lf')" "life_ok lf'" "released lf'"
    "lfRTSP lf' = rtsp_stopped (lfRTSP (serving s lf))"
    using life_stop by blast
  have "rlServer (lfRTSP lf') = Server_Reset s" by (simp add: lf'(4) rtsp_stopped_def serving_def)
  moreover have "rtsp_loops env (lfRTSP lf') ((lfRTSP lf')\<lparr>rlReaping := False\<rparr>)" if "rlReaping (lfRTSP lf')"
    using that lf'(3) by (intro rl_stopped) (auto simp: released_def)
  moreover have "rtsp_loops env (lfRTSP lf') ((lfRTSP lf')\<lparr>rlAccepting := False\<rparr>)" if "rlAccepting (lfRTSP lf')"
    using that lf'(2,3) by (intro rl_refused) (cases "rlListener (lfRTSP lf')"; auto simp: released_def life_ok_def)+
  moreover obtain ok2 lf2 where "simulator_Stop drains lf' = Some (ok2, lf2)" "released lf2"
    using life_stop [OF lf'(2)] by blast
  ultimately show ?thesis using lf'(1,3) reset_streams [OF assms(1)] by auto
qed

theorem stop_releases_everything_witness:
  "\<exists>ok lf'. simulator_Stop True (serving demo_ready
       (snd (simulator_Start (FromEnvironment unset) \<lparr>ptHTTP = True, ptRTSP = False, ptSSDPResolves = True,
          ptSSDPListens = True, ptGroupResolves = True, ptGroupJoins = False\<rparr>
         (new_lifecycle \<lparr>simConfig = FromEnvironment unset,
            simHTTP = NewWithTopology (FromEnvironment unset) (DefaultTopology (FromEnvironment unset)) True 0,
            simRTSP = demo_server\<rparr>)))) = Some (ok, lf') \<and> hlListener (lfHTTP lf') \<noteq> Listening"
proof -
  let ?pt = "\<lparr>ptHTTP = True, ptRTSP = False, ptSSDPResolves = True, ptSSDPListens = True, ptGroupResolves = True,
    ptGroupJoins = False\<rparr>"
  let ?lf = "new_lifecycle \<lparr>simConfig = FromEnvironment unset,
    simHTTP = NewWithTopology (FromEnvironment unset) (DefaultTopology (FromEnvironment unset)) True 0,
    simRTSP = demo_server\<rparr>"
  obtain result lf where "simulator_Start (FromEnvironment unset) ?pt ?lf = (result, lf)" by fastforce
  with stop_releases_everything [OF demo_ready_ok(1) this, of True demo_env] show ?thesis
    by (auto simp: released_def)
qed

end
