(* ===== verification/Spec2Isabelle.thy ===== *)
theory Spec2Isabelle
  imports RtspSpec Connection StreamControl HttpSpec TopologySpec CompatSpec SmokeSpec ClientsSpec SimulatorSpec
    CommandsSpec Lifecycle
begin

text \<open>
  A verification development for satip-lab, a simulator of a SAT>IP server written in Go: the catalog of
  channels, the laboratory of tuners, sessions and fault scenarios, the transport streams it sends, the RTSP
  and HTTP servers that clients talk to, and the clients and commands of the repository itself.

  \<^bold>\<open>The program.\<close> \<open>simulator.New\<close> loads a catalog (\<open>internal/channels\<close>, \<open>internal/lab/catalog.go\<close>), makes
  one lab manager over it (\<open>internal/lab/manager.go\<close>) and gives that manager to the RTSP server
  (\<open>internal/rtsp\<close>) and to the HTTP server (\<open>internal/httpserver\<close>). An RTSP request reserves a tuner
  (SETUP), starts and stops a stream (PLAY, PAUSE) or gives the tuner back (TEARDOWN); a streaming
  goroutine takes the payload of the service (\<open>internal/ts\<close>), renders it in a loop with a running clock
  and sends it as RTP, under the behaviour that the active scenario asks for. HTTP reads the manager's
  status, the M3U list and the guide (\<open>internal/epg\<close>), changes the scenario and resets both servers; SSDP
  (\<open>internal/ssdp\<close>) leads clients to its device description. The control command (\<open>internal/simctl\<close>), the MCP
  server (\<open>internal/mcp\<close>) and the smoke probe (\<open>internal/smoke\<close>) are clients of these servers;
  \<open>internal/compatibility\<close> validates recorded traces and vendor profiles.

  \<^bold>\<open>Theories.\<close>
  \<^item> \<open>Prelude\<close>: fact collections, lists, the bounded buffer \<open>lastn\<close>, 64-bit wrap-around, Go's division,
    reachable states and the locale \<open>inductive_invariant\<close>.
  \<^item> \<open>GoLib\<close>, \<open>GoTime\<close>: the parts of Go's library that the sources use (\<open>strings\<close>, \<open>strconv\<close>, \<open>net/url\<close>,
    \<open>time\<close>), on strings as character lists.
  \<^item> \<open>Channels\<close> (\<open>channels/channel.go\<close>, \<open>catalog.go\<close>, \<open>loader.go\<close>): the channel record, the tuning query,
    the M3U list, and the validation of a decoded catalog file.
  \<^item> \<open>Catalog\<close> (\<open>lab/catalog.go\<close>): muxes and services of a catalog, look-ups, \<open>MatchService\<close>, and the locale of
    a well-formed catalog.
  \<^item> \<open>Pids\<close>, \<open>Scenarios\<close>, \<open>Tuners\<close> (\<open>lab/manager.go\<close>): PID lists and their updates against an abstract
    filter; the scenario table and timelines; the frontend readings of a tuner.
  \<^item> \<open>Manager\<close> (\<open>lab/manager.go\<close>): the manager's record and one state transformer per method. \<open>TunerPool\<close> and
    \<open>ManagerInv\<close> hold its invariant and its preservation, \<open>DemoLab\<close> a small instance, \<open>ManagerSpec\<close> what
    each method promises, on an abstract pool that forgets telemetry.
  \<^item> \<open>TsPacket\<close>, \<open>TsPsi\<close> (\<open>ts/service.go\<close>): 188-byte packets, CRC-32/MPEG, stream faults; the PAT, PMT, SDT,
    NIT and EIT sections and the synthetic stream of a service.
  \<^item> \<open>TsLoop\<close> (\<open>ts/loop.go\<close>, \<open>ChunkAt\<close>): clocks and counters of a payload and \<open>TimestampLoop.Next\<close>. \<open>TsStamps\<close>
    relates it to an abstract list of time stamps; \<open>TsLoopSpec\<close> shows what a receiver of the chunks sees.
  \<^item> \<open>TsSource\<close> (\<open>ts/source.go\<close>): which file or synthetic stream is the payload of a service.
  \<^item> \<open>Vendor\<close> (\<open>vendorprofile/profile.go\<close>), \<open>Config\<close> (\<open>config/config.go\<close>), \<open>Epg\<close>, \<open>Xmltv\<close> (\<open>epg/epg.go\<close>):
    vendor profiles, the configuration and its schema, the lab clock and the guide, the text of the guide.
  \<^item> \<open>Rtp\<close> (\<open>rtsp/rtp.go\<close>, \<open>rtcp.go\<close>), \<open>RtspWire\<close>, \<open>RtspStream\<close>, \<open>RtspServer\<close> (\<open>rtsp/server.go\<close>): packets and
    reports; reading requests and the headers; one tick of a streaming goroutine; the server's state,
    its connections and handlers.
  \<^item> \<open>SessionRegistry\<close>: the locale of a registry of sessions, which is what the RTSP server relies on, and
    its interpretation on the manager. \<open>RtspInv\<close>: the invariant that ties the server's sessions to the
    manager's, preserved by every handler, tick and callback, and the step relation of the whole node.
    \<open>RtspSpec\<close>: the agreement on every reachable node and the answers to SETUP. \<open>Ownership\<close>: which
    connection holds a session. \<open>Connection\<close>: \<open>handleConn\<close> on all the input of a connection. \<open>StreamControl\<close>:
    the stop channels, sockets and goroutines of a session's streams, and their refinement of the server's record.
  \<^item> \<open>Ssdp\<close>, \<open>SsdpLoops\<close> (\<open>ssdp/server.go\<close>, the device description of \<open>channels/catalog.go\<close>), \<open>Topology\<close> (\<open>topology/topology.go\<close>),
    \<open>ApiSchema\<close>, \<open>AgentContext\<close> (\<open>httpserver/schema.go\<close>, \<open>agent_context.go\<close>), \<open>HttpServer\<close> (\<open>httpserver/server.go\<close>):
    the values that HTTP serves, the handlers and the routes. \<open>TopologySpec\<close> and \<open>HttpSpec\<close> show what they promise.
  \<^item> \<open>Json\<close>: JSON values and how \<open>encoding/json\<close> decodes them into a record. \<open>Compat\<close> (\<open>compatibility/evidence.go\<close>,
    \<open>profile.go\<close>): traces and profiles, with \<open>CompatSpec\<close>.
  \<^item> \<open>Smoke\<close> (\<open>smoke/rtsp.go\<close>): the probe over an abstract network; \<open>SmokeSpec\<close> runs it against the RTSP server.
  \<^item> \<open>Clients\<close> (\<open>simctl/simctl.go\<close>, and Go's flags), \<open>Mcp\<close> (\<open>mcp/server.go\<close>): the clients over an abstract HTTP client;
    \<open>ClientsSpec\<close> runs them against the HTTP server, over the locale of a ticking clock.
  \<^item> \<open>Simulator\<close> (\<open>simulator/simulator.go\<close>, \<open>cmd/satip-lab\<close>, \<open>LoadCatalogFile\<close>), \<open>Commands\<close> (the other commands), with
    \<open>SimulatorSpec\<close> (with the step relation of the running simulator) and \<open>CommandsSpec\<close>. \<open>Lifecycle\<close>: starting and
    stopping the RTSP and HTTP servers and the simulator.

  \<^bold>\<open>How the model corresponds to the code.\<close> A struct is a record with a prefix per type (\<open>svc\<close>, \<open>mx\<close>, \<open>tun\<close>,
  \<open>ses\<close>, \<open>m\<close>, \<open>srv\<close>, ...). A method that runs under a mutex is one function from state to result and state,
  with the code's order of checks and early returns; errors are the left values of a sum. Each
  \<open>time.Now()\<close> takes the next reading of a clock that the manager carries. A range over a map takes the
  order of the keys as an argument. RTSP sessions are objects under an address, so a callback that keeps
  a pointer to a deleted session is expressible. Bytes and 16- and 32-bit integers are words; \<open>int\<close> counters
  wrap at 64 bits where the code can drive them there.

  \<^bold>\<open>What the properties show.\<close> C1 to C3: the manager's invariant on every reachable state, the agreement of the
  RTSP server with it, the answers to SETUP. C4 to C10: the simulator starts in that agreement and keeps it under RTSP
  and HTTP requests in any order; a session that streams over its connection does not outlive it; a connection answers
  pipelined requests in order and cleans up after itself; the overlapping goroutines of a session's streams do not
  disturb each other and implement the account that the server keeps of them. C11 to C16: exact conditions and effects
  of \<open>Setup\<close>, \<open>Teardown\<close> and \<open>ExpireSessions\<close>, timelines, frontends (with \<open>Reset\<close>, the bounded event log and the round
  trip of \<open>Setup\<close> and \<open>Teardown\<close> beside them). C17 to C19: the published contract of the HTTP API, its counters, and
  the way from a search to the channel list. C20: what stopping the SSDP server ends, and what it does not. C21 to C23:
  setting a scenario from the command line, that waiting ends, the probe end to end. C24 and C25: which topologies are
  accepted, and the configuration of the command. C26 to C28: which catalogs are accepted, that every published query
  tunes to its service, PID updates. C29 to C31: table sections, dates, the checksum. C32 to C34: the looped stream is
  continuous in its counters and its clock for ever. C35 to C38: media paths, published defaults, the guide and its
  text. C39 and C40: RTCP, and what a fault behaviour does to a stream. Beside them stand the theorems on trace evidence
  (\<open>CompatSpec\<close>, \<open>CommandsSpec\<close>), on request framing (\<open>RtspWire\<close>) and on stopping the simulator (\<open>Lifecycle\<close>).

  \<^bold>\<open>Bounds and termination.\<close> All functions are total: every loop of the code is structural or has a measure
  (\<open>read_request_loop\<close>, \<open>serve_connection\<close>, the readers of \<open>Xmltv\<close>: the input left; \<open>programmes_loop\<close>: the time left in the day; the packet walks: the bytes
  left; \<open>read_response\<close>: the input left), except \<open>poll_loop\<close>, which polls until a deadline that the clock may never
  reach: it is a partial function, and C22 shows that it returns when the clock runs. There is no fuel. A streaming
  goroutine is its tick, run over any list of instants. The steps of the node bound the session counter below 2^63,
  the range of the Go type.

  \<^bold>\<open>Parameters.\<close> The zone database, the file system, \<open>net.ParseIP\<close>, the success of a write to a socket, map
  order and the clock are arguments; so are the HTTP client and the network of the clients, the parsers of numbers
  and durations in flags, and the results of listening. Reading the text of JSON and YAML is outside: decoding starts
  from a JSON value, the loaders from the decoded file. The path of a request is taken as \<open>net/http\<close> gives it to the
  handler, so its redirects to cleaned paths are outside too.

  \<^bold>\<open>Not modelled.\<close> The system's sockets and scheduler (opening a socket, joining a group and the success of a write
  are inputs; the steps of goroutines are those between which another one may run, single statements in \<open>SsdpLoops\<close>,
  whole critical sections elsewhere); time that passes in sleeping; the last tick of a goroutine that was told to stop
  while it was in it, in the node's steps; the text of the JSON responses and the response headers; the wait
  of the command for a signal.
\<close>

end
